(* ===== verification/Prelude.thy ===== *)
theory Prelude
  imports Main "HOL-Library.Word" "HOL-Library.Sublist"
begin

text \<open>
  Generic material shared by every component: the named collections of the development, facts
  about lists and prefixes, 64-bit wrap-around (Go's \<open>int64\<close>, which is also the
  representation of \<open>time.Duration\<close>), and the interface of a normalising function,
  which the string and path normalisers of the program provide.
\<close>

section \<open>Collections\<close>

named_theorems trace_simps \<open>what an operation appends to the trace\<close>
named_theorems frame_simps \<open>fields that an operation does not write\<close>

section \<open>Lists\<close>

fun strip_front :: "'a list \<Rightarrow> 'a list \<Rightarrow> 'a list option" where
  "strip_front [] ys = Some ys"
| "strip_front (x # xs) [] = None"
| "strip_front (x # xs) (y # ys) = (if x = y then strip_front xs ys else None)"

lemma strip_front_Some_iff: "strip_front p s = Some t \<longleftrightarrow> s = p @ t"
  by (induction p s rule: strip_front.induct) auto

lemma strip_front_None_iff: "strip_front p s = None \<longleftrightarrow> \<not> prefix p s"
  by (induction p s rule: strip_front.induct) auto

lemma strip_front_append [simp]: "strip_front p (p @ t) = Some t"
  by (simp add: strip_front_Some_iff)

fun cut :: "'a list \<Rightarrow> 'a list \<Rightarrow> ('a list \<times> 'a list) option" where
  "cut sep [] = (if sep = [] then Some ([], []) else None)"
| "cut sep (x # xs) =
     (case strip_front sep (x # xs) of
        Some rest \<Rightarrow> Some ([], rest)
      | None \<Rightarrow> (case cut sep xs of None \<Rightarrow> None | Some (a, b) \<Rightarrow> Some (x # a, b)))"

lemma cut_Some: "cut sep s = Some (a, b) \<Longrightarrow> s = a @ sep @ b"
proof (induction sep s arbitrary: a b rule: cut.induct)
  case (2 sep x xs)
  show ?case
  proof (cases "strip_front sep (x # xs)")
    case None
    with 2 show ?thesis by (auto split: option.splits)
  next
    case (Some rest)
    with "2.prems" show ?thesis by (auto simp: strip_front_Some_iff)
  qed
qed (auto split: if_splits)

lemma cut_None_iff: "cut sep s = None \<longleftrightarrow> \<not> sublist sep s"
proof (induction s)
  case (Cons x xs)
  then show ?case
    by (auto simp: sublist_Cons_right strip_front_None_iff split: option.splits
        dest: strip_front_Some_iff [THEN iffD1])
qed auto

lemma cut_char: "c \<notin> set a \<Longrightarrow> cut [c] (a @ c # b) = Some (a, b)"
  by (induction a) auto

lemma cut_char_None_iff: "cut [c] s = None \<longleftrightarrow> c \<notin> set s"
  by (induction s) (auto split: option.splits)

lemma cut_char_Some_iff: "cut [c] s = Some (a, b) \<longleftrightarrow> c \<notin> set a \<and> s = a @ c # b"
proof
  assume c: "cut [c] s = Some (a, b)"
  have "c \<notin> set a" using c
    by (induction s arbitrary: a) (auto split: if_splits option.splits prod.splits)
  with cut_Some [OF c] show "c \<notin> set a \<and> s = a @ c # b" by simp
qed (auto simp: cut_char)

text \<open>The part before and the part after the last occurrence of an element.\<close>

definition cut_last :: "'a \<Rightarrow> 'a list \<Rightarrow> ('a list \<times> 'a list) option" where
  "cut_last c s = (case cut [c] (rev s) of None \<Rightarrow> None | Some (a, b) \<Rightarrow> Some (rev b, rev a))"

lemma cut_last_Some_iff: "cut_last c s = Some (a, b) \<longleftrightarrow> c \<notin> set b \<and> s = a @ c # b"
proof -
  have "cut_last c s = Some (a, b) \<longleftrightarrow> cut [c] (rev s) = Some (rev b, rev a)"
    by (auto simp: cut_last_def split: option.splits)
  also have "\<dots> \<longleftrightarrow> c \<notin> set b \<and> rev s = rev b @ c # rev a"
    by (simp add: cut_char_Some_iff)
  also have "rev s = rev b @ c # rev a \<longleftrightarrow> s = a @ c # b"
    by (metis append.assoc append_Cons append_Nil rev.simps(2) rev_append rev_rev_ident)
  finally show ?thesis .
qed

lemma cut_last_None_iff: "cut_last c s = None \<longleftrightarrow> c \<notin> set s"
  using cut_char_None_iff [of c "rev s"] by (auto simp: cut_last_def split: option.splits)

text \<open>Splitting at every occurrence of an element, and joining with a separator.\<close>

fun split_on :: "'a \<Rightarrow> 'a list \<Rightarrow> 'a list list" where
  "split_on c [] = [[]]"
| "split_on c (x # xs) =
     (if x = c then [] # split_on c xs
      else (case split_on c xs of [] \<Rightarrow> [[x]] | y # ys \<Rightarrow> (x # y) # ys))"

fun join :: "'a list \<Rightarrow> 'a list list \<Rightarrow> 'a list" where
  "join sep [] = []"
| "join sep [x] = x"
| "join sep (x # y # zs) = x @ sep @ join sep (y # zs)"

lemma split_on_not_Nil [simp]: "split_on c s \<noteq> []"
  by (induction s) (auto split: list.splits)

lemma split_on_no_sep: "x \<in> set (split_on c s) \<Longrightarrow> c \<notin> set x"
  by (induction s arbitrary: x) (auto split: if_splits list.splits)

lemma split_on_append:
  "c \<notin> set x \<Longrightarrow> split_on c (x @ c # s) = x # split_on c s"
  by (induction x) auto

lemma split_on_concat: "split_on c (a @ c # b) = split_on c a @ split_on c b"
  by (induction a) (auto split: list.splits)

lemma split_on_simple: "c \<notin> set x \<Longrightarrow> split_on c x = [x]"
  by (induction x) auto

lemma split_join:
  assumes "xs \<noteq> []" and "\<And>x. x \<in> set xs \<Longrightarrow> c \<notin> set x"
  shows "split_on c (join [c] xs) = xs"
  using assms
  by (induction "[c]" xs rule: join.induct) (auto simp: split_on_append split_on_simple)

lemma set_split_on: "x \<in> set (split_on c s) \<Longrightarrow> set x \<subseteq> set s"
  by (induction s arbitrary: x) (fastforce split: if_splits list.splits)+

lemma join_Nil_iff:
  assumes "\<And>x. x \<in> set xs \<Longrightarrow> x \<noteq> []"
  shows "join sep xs = [] \<longleftrightarrow> xs = []"
  using assms by (induction sep xs rule: join.induct) auto

lemma hd_join: "x \<noteq> [] \<Longrightarrow> hd (join sep (x # xs)) = hd x"
  by (cases xs) auto

lemma join_not_Nil: "xs \<noteq> [] \<Longrightarrow> last xs \<noteq> [] \<Longrightarrow> join sep xs \<noteq> []"
  by (induction sep xs rule: join.induct) auto

lemma last_join:
  assumes "xs \<noteq> []" and "last xs \<noteq> []"
  shows "last (join sep xs) = last (last xs)"
  using assms
proof (induction sep xs rule: join.induct)
  case (3 sep x y zs)
  from "3.prems" have "join sep (y # zs) \<noteq> []"
    by (intro join_not_Nil) auto
  with 3 show ?case by simp
qed auto

lemma join_append:
  assumes "xs \<noteq> []" and "ys \<noteq> []"
  shows "join sep (xs @ ys) = join sep xs @ sep @ join sep ys"
  using assms
proof (induction sep xs rule: join.induct)
  case (2 sep x)
  then show ?case by (cases ys) auto
qed auto

section \<open>64-bit wrap-around\<close>

text \<open>
  Go's \<open>int64\<close> arithmetic, and so that of \<open>time.Duration\<close>, wraps in two's
  complement. The model keeps the values as \<open>int\<close> and writes the wrap-around where the
  code computes; \<open>wrap64_word\<close> ties it to the signed reading of a 64-bit word.
\<close>

definition wrap64 :: "int \<Rightarrow> int" where
  "wrap64 x = signed_take_bit 63 x"

definition max_int64 :: int where
  "max_int64 = 2 ^ 63 - 1"

definition min_int64 :: int where
  "min_int64 = - (2 ^ 63)"

lemma wrap64_word: "wrap64 x = sint (word_of_int x :: 64 word)"
  by (simp add: wrap64_def sint_sbintrunc')

lemma wrap64_id: "min_int64 \<le> x \<Longrightarrow> x \<le> max_int64 \<Longrightarrow> wrap64 x = x"
  unfolding wrap64_def min_int64_def max_int64_def
  by (rule signed_take_bit_int_eq_self) auto

lemma wrap64_range: "min_int64 \<le> wrap64 x \<and> wrap64 x \<le> max_int64"
  using signed_take_bit_int_greater_eq_minus_exp [of 63 x] signed_take_bit_int_less_exp [of 63 x]
  by (simp add: wrap64_def min_int64_def max_int64_def)

section \<open>Normalising functions\<close>

text \<open>
  Several components bring a string into a canonical form before they use it, and a value may
  pass through the same normaliser twice (the configuration and the store both normalise the
  key prefix). What makes that harmless is that the normaliser is idempotent.
\<close>

locale normaliser =
  fixes norm :: "'a \<Rightarrow> 'a"
  assumes norm_norm: "norm (norm x) = norm x"
begin

lemma fixed_iff_image: "norm x = x \<longleftrightarrow> (\<exists>y. x = norm y)"
  by (metis norm_norm)

lemma norm_eq_trans: "norm x = norm y \<Longrightarrow> norm (norm x) = norm y"
  by (simp add: norm_norm)

lemma funpow_norm: "0 < n \<Longrightarrow> (norm ^^ n) x = norm x"
  by (induction n) (auto simp: norm_norm, metis funpow_0 gr0I norm_norm)

end

end
