(* ===== verification/Go_Strings.thy ===== *)
theory Go_Strings
  imports Prelude
begin

text \<open>
  The parts of Go's \<open>strings\<close>, \<open>unicode/utf8\<close> and \<open>strconv\<close> packages that the
  program calls. A Go string is a sequence of bytes and so is a \<^typ>\<open>string\<close> here: a
  \<^typ>\<open>char\<close> is one byte, \<open>length\<close> is Go's \<open>len\<close>, and a code point beyond ASCII is its
  UTF-8 encoding. The Unicode tables of case mappings beyond ASCII are data, not code; they are
  a parameter (\<open>unicode_case\<close>).
\<close>

section \<open>Bytes and runes\<close>

abbreviation byte :: "char \<Rightarrow> nat" where
  "byte c \<equiv> of_char c"

definition in_range :: "nat \<Rightarrow> nat \<Rightarrow> char \<Rightarrow> bool" where
  "in_range lo hi c \<longleftrightarrow> lo \<le> byte c \<and> byte c \<le> hi"

definition is_ascii :: "char \<Rightarrow> bool" where
  "is_ascii c \<longleftrightarrow> byte c < 128"

text \<open>
  \<open>decode_rune c s\<close> decodes the rune that starts with the byte \<open>c\<close> and continues in \<open>s\<close>:
  the code point and the number of continuation bytes it takes. An invalid or truncated
  sequence is \<open>U+FFFD\<close> and takes its first byte only, as \<open>utf8.DecodeRuneInString\<close> and a
  \<open>range\<close> loop over a string have it.
\<close>

definition decode_rune :: "char \<Rightarrow> string \<Rightarrow> nat \<times> nat" where
  "decode_rune c s =
     (let b = byte c; n1 = (\<lambda>x. byte x mod 64) in
      if b < 128 then (b, 0)
      else case s of
        [] \<Rightarrow> (0xFFFD, 0)
      | c1 # s1 \<Rightarrow>
          if 0xC2 \<le> b \<and> b \<le> 0xDF \<and> in_range 0x80 0xBF c1 then ((b - 0xC0) * 64 + n1 c1, 1)
          else (case s1 of
            [] \<Rightarrow> (0xFFFD, 0)
          | c2 # s2 \<Rightarrow>
              if in_range 0x80 0xBF c2 \<and>
                 (b = 0xE0 \<and> in_range 0xA0 0xBF c1 \<or> b = 0xED \<and> in_range 0x80 0x9F c1 \<or>
                  0xE1 \<le> b \<and> b \<le> 0xEF \<and> b \<noteq> 0xED \<and> in_range 0x80 0xBF c1)
              then ((b - 0xE0) * 4096 + n1 c1 * 64 + n1 c2, 2)
              else (case s2 of
                [] \<Rightarrow> (0xFFFD, 0)
              | c3 # s3 \<Rightarrow>
                  if in_range 0x80 0xBF c2 \<and> in_range 0x80 0xBF c3 \<and>
                     (b = 0xF0 \<and> in_range 0x90 0xBF c1 \<or> b = 0xF4 \<and> in_range 0x80 0x8F c1 \<or>
                      0xF1 \<le> b \<and> b \<le> 0xF3 \<and> in_range 0x80 0xBF c1)
                  then ((b - 0xF0) * 262144 + n1 c1 * 4096 + n1 c2 * 64 + n1 c3, 3)
                  else (0xFFFD, 0))))"

function runes :: "string \<Rightarrow> nat list" where
  "runes [] = []"
| "runes (c # s) = fst (decode_rune c s) # runes (drop (snd (decode_rune c s)) s)"
  by pat_completeness auto
termination
  by (relation "measure length") auto

definition rune_count :: "string \<Rightarrow> nat" where
  "rune_count s = length (runes s)"

definition encode_rune :: "nat \<Rightarrow> string" where
  "encode_rune r =
     (if r < 0x80 then [char_of r]
      else if r < 0x800 then [char_of (0xC0 + r div 64), char_of (0x80 + r mod 64)]
      else if 0x10FFFF < r \<or> 0xD800 \<le> r \<and> r \<le> 0xDFFF then [CHR 0xEF, CHR 0xBF, CHR 0xBD]
      else if r < 0x10000 then
        [char_of (0xE0 + r div 4096), char_of (0x80 + r div 64 mod 64), char_of (0x80 + r mod 64)]
      else
        [char_of (0xF0 + r div 262144), char_of (0x80 + r div 4096 mod 64),
         char_of (0x80 + r div 64 mod 64), char_of (0x80 + r mod 64)])"

lemma decode_rune_ascii [simp]: "is_ascii c \<Longrightarrow> decode_rune c s = (byte c, 0)"
  by (simp add: decode_rune_def is_ascii_def Let_def)

lemma runes_ascii: "list_all is_ascii s \<Longrightarrow> runes s = map byte s"
  by (induction s) auto

lemma rune_count_le: "rune_count s \<le> length s"
  unfolding rune_count_def
proof (induction s rule: runes.induct)
  case (2 c s)
  then have "length (runes (drop (snd (decode_rune c s)) s)) \<le> length s" by simp
  then show ?case by simp
qed simp

lemma rune_count_ascii: "list_all is_ascii s \<Longrightarrow> rune_count s = length s"
  by (simp add: rune_count_def runes_ascii)

section \<open>White space\<close>

text \<open>
  \<open>unicode.IsSpace\<close>: the UTF-8 encodings of the 25 white space code points. A valid encoding
  ends a string exactly when it is a suffix of it, because its first byte is the only one in it
  that can start a rune; so trimming runes on the right is stripping these byte strings.
\<close>

definition space_runes :: "string list" where
  "space_runes =
     [[CHR 0x20], [CHR 0x09], [CHR 0x0A], [CHR 0x0B], [CHR 0x0C], [CHR 0x0D],
      [CHR 0xC2, CHR 0x85], [CHR 0xC2, CHR 0xA0], [CHR 0xE1, CHR 0x9A, CHR 0x80],
      [CHR 0xE2, CHR 0x80, CHR 0x80], [CHR 0xE2, CHR 0x80, CHR 0x81], [CHR 0xE2, CHR 0x80, CHR 0x82],
      [CHR 0xE2, CHR 0x80, CHR 0x83], [CHR 0xE2, CHR 0x80, CHR 0x84], [CHR 0xE2, CHR 0x80, CHR 0x85],
      [CHR 0xE2, CHR 0x80, CHR 0x86], [CHR 0xE2, CHR 0x80, CHR 0x87], [CHR 0xE2, CHR 0x80, CHR 0x88],
      [CHR 0xE2, CHR 0x80, CHR 0x89], [CHR 0xE2, CHR 0x80, CHR 0x8A], [CHR 0xE2, CHR 0x80, CHR 0xA8],
      [CHR 0xE2, CHR 0x80, CHR 0xA9], [CHR 0xE2, CHR 0x80, CHR 0xAF], [CHR 0xE2, CHR 0x81, CHR 0x9F],
      [CHR 0xE3, CHR 0x80, CHR 0x80]]"

fun lead :: "'a list list \<Rightarrow> 'a list \<Rightarrow> 'a list option" where
  "lead [] s = None"
| "lead (r # rs) s = (case strip_front r s of None \<Rightarrow> lead rs s | Some t \<Rightarrow> Some t)"

function trim_front :: "'a list list \<Rightarrow> 'a list \<Rightarrow> 'a list" where
  "trim_front rs s =
     (case lead rs s of
        None \<Rightarrow> s
      | Some t \<Rightarrow> if length t < length s then trim_front rs t else s)"
  by pat_completeness auto
termination
  by (relation "measure (\<lambda>(rs, s). length s)") auto

declare trim_front.simps [simp del]

definition trim_back :: "'a list list \<Rightarrow> 'a list \<Rightarrow> 'a list" where
  "trim_back rs s = rev (trim_front (map rev rs) (rev s))"

text \<open>\<open>strings.TrimSpace\<close>.\<close>

definition trim_space :: "string \<Rightarrow> string" where
  "trim_space s = trim_back space_runes (trim_front space_runes s)"

lemma lead_None_iff: "lead rs s = None \<longleftrightarrow> (\<forall>r \<in> set rs. \<not> prefix r s)"
  by (induction rs) (auto split: option.splits simp: strip_front_None_iff
      dest: strip_front_Some_iff [THEN iffD1])

lemma lead_Some: "lead rs s = Some t \<Longrightarrow> \<exists>r \<in> set rs. s = r @ t"
  by (induction rs) (auto split: option.splits simp: strip_front_Some_iff)

lemma trim_front_suffix: "suffix (trim_front rs s) s"
proof (induction rs s rule: trim_front.induct)
  case (1 rs s)
  show ?case
  proof (cases "lead rs s")
    case None
    then show ?thesis by (subst trim_front.simps) simp
  next
    case (Some t)
    then obtain r where "s = r @ t" using lead_Some by blast
    then have "suffix t s" by (simp add: suffix_def)
    with 1 Some show ?thesis
      by (subst trim_front.simps) (auto intro: suffix_order.trans)
  qed
qed

lemma trim_front_lead:
  assumes "[] \<notin> set rs"
  shows "lead rs (trim_front rs s) = None"
  using assms
proof (induction rs s rule: trim_front.induct)
  case (1 rs s)
  show ?case
  proof (cases "lead rs s")
    case None
    then show ?thesis by (subst trim_front.simps) simp
  next
    case (Some t)
    then obtain r where "r \<in> set rs" and "s = r @ t" using lead_Some by blast
    with "1.prems" have "length t < length s" by (cases r) auto
    with 1 Some show ?thesis by (subst trim_front.simps) simp
  qed
qed

lemma trim_front_id: "lead rs s = None \<Longrightarrow> trim_front rs s = s"
  by (subst trim_front.simps) simp

lemma trim_back_prefix: "prefix (trim_back rs s) s"
  using trim_front_suffix [of "map rev rs" "rev s"]
  by (simp add: trim_back_def suffix_to_prefix)

lemma trim_back_lead: "[] \<notin> set rs \<Longrightarrow> lead (map rev rs) (rev (trim_back rs s)) = None"
  by (simp add: trim_back_def trim_front_lead image_iff)

lemma trim_back_id: "lead (map rev rs) (rev s) = None \<Longrightarrow> trim_back rs s = s"
  by (simp add: trim_back_def trim_front_id)

lemma lead_prefix: "prefix t s \<Longrightarrow> lead rs s = None \<Longrightarrow> lead rs t = None"
  by (auto simp: lead_None_iff intro: prefix_order.trans)

lemma space_runes_not_Nil: "[] \<notin> set space_runes"
  by (simp add: space_runes_def)

lemma trim_space_sublist: "\<exists>a b. s = a @ trim_space s @ b"
proof -
  obtain a where a: "s = a @ trim_front space_runes s"
    using trim_front_suffix [of space_runes s] by (auto simp: suffix_def)
  obtain b where b: "trim_front space_runes s = trim_space s @ b"
    using trim_back_prefix [of space_runes "trim_front space_runes s"]
    by (auto simp: trim_space_def prefix_def)
  show ?thesis by (intro exI [of _ a] exI [of _ b]) (use a b in simp)
qed

lemma set_trim_space: "set (trim_space s) \<subseteq> set s"
proof -
  obtain a b where "s = a @ trim_space s @ b" using trim_space_sublist by blast
  then show ?thesis by (metis Un_iff set_append subsetI)
qed

lemma length_trim_space: "length (trim_space s) \<le> length s"
proof -
  obtain a b where "s = a @ trim_space s @ b" using trim_space_sublist by blast
  then have "length s = length a + (length (trim_space s) + length b)"
    by (metis length_append)
  then show ?thesis by simp
qed

lemma trim_space_lead: "lead space_runes (trim_space s) = None"
  unfolding trim_space_def
  by (rule lead_prefix [OF trim_back_prefix]) (rule trim_front_lead [OF space_runes_not_Nil])

lemma trim_space_lead_rev: "lead (map rev space_runes) (rev (trim_space s)) = None"
  unfolding trim_space_def by (rule trim_back_lead [OF space_runes_not_Nil])

lemma trim_space_id:
  "lead space_runes s = None \<Longrightarrow> lead (map rev space_runes) (rev s) = None \<Longrightarrow> trim_space s = s"
  by (simp add: trim_space_def trim_front_id trim_back_id)

lemma trim_space_idem [simp]: "trim_space (trim_space s) = trim_space s"
  by (rule trim_space_id) (rule trim_space_lead trim_space_lead_rev)+

interpretation trim: normaliser trim_space
  by unfold_locales simp

text \<open>A string whose first and last byte are printable ASCII has nothing to trim.\<close>

definition graphic :: "char \<Rightarrow> bool" where
  "graphic c \<longleftrightarrow> 0x20 < byte c \<and> byte c < 0x7F"

lemma space_runes_not_graphic:
  "\<forall>r \<in> set space_runes. \<not> graphic (hd r) \<and> \<not> graphic (last r)"
  by (simp add: space_runes_def graphic_def)

lemma lead_graphic:
  assumes "graphic c"
  shows "lead space_runes (c # s) = None"
proof -
  have "\<not> prefix r (c # s)" if "r \<in> set space_runes" for r
    using that assms space_runes_not_graphic space_runes_not_Nil by - (cases r, auto)
  then show ?thesis by (simp add: lead_None_iff)
qed

lemma lead_rev_graphic:
  assumes "graphic c"
  shows "lead (map rev space_runes) (c # s) = None"
proof -
  have "\<not> prefix (rev r) (c # s)" if "r \<in> set space_runes" for r
    using that assms space_runes_not_graphic space_runes_not_Nil
    by (cases r rule: rev_cases) auto
  then show ?thesis by (simp add: lead_None_iff)
qed

lemma trim_space_graphic:
  assumes "s \<noteq> []" and "graphic (hd s)" and "graphic (last s)"
  shows "trim_space s = s"
proof (rule trim_space_id)
  obtain c t where "s = c # t" using assms(1) by (cases s) auto
  with assms(2) show "lead space_runes s = None" by (simp add: lead_graphic)
  obtain d u where "s = u @ [d]" using assms(1) by (cases s rule: rev_cases) auto
  with assms(3) show "lead (map rev space_runes) (rev s) = None" by (simp add: lead_rev_graphic)
qed

lemma trim_space_Nil [simp]: "trim_space [] = []"
  using length_trim_space [of "[]"] by simp

section \<open>Case mappings\<close>

text \<open>
  The tables behind \<open>unicode.ToUpper\<close> and \<open>unicode.ToLower\<close> for code points from 128 on.
  Below 128 the library computes the mapping, and a string of ASCII bytes never reaches the
  tables. Otherwise \<open>strings.Map\<close> maps rune by rune, and writes \<open>U+FFFD\<close> for an invalid byte.
\<close>

record unicode_case =
  uc_upper :: "nat \<Rightarrow> nat"
  uc_lower :: "nat \<Rightarrow> nat"

definition ascii_upper :: "nat \<Rightarrow> nat" where
  "ascii_upper r = (if 97 \<le> r \<and> r \<le> 122 then r - 32 else r)"

definition ascii_lower :: "nat \<Rightarrow> nat" where
  "ascii_lower r = (if 65 \<le> r \<and> r \<le> 90 then r + 32 else r)"

definition map_case :: "(nat \<Rightarrow> nat) \<Rightarrow> (nat \<Rightarrow> nat) \<Rightarrow> string \<Rightarrow> string" where
  "map_case asc tab s =
     (if list_all is_ascii s then map (\<lambda>c. char_of (asc (byte c))) s
      else concat (map (\<lambda>r. encode_rune (if r < 128 then asc r else tab r)) (runes s)))"

definition to_upper :: "unicode_case \<Rightarrow> string \<Rightarrow> string" where
  "to_upper u = map_case ascii_upper (uc_upper u)"

definition to_lower :: "unicode_case \<Rightarrow> string \<Rightarrow> string" where
  "to_lower u = map_case ascii_lower (uc_lower u)"

lemma map_case_ascii:
  "list_all is_ascii s \<Longrightarrow> map_case asc tab s = map (\<lambda>c. char_of (asc (byte c))) s"
  by (simp add: map_case_def)

lemma runes_Nil_iff [simp]: "runes s = [] \<longleftrightarrow> s = []"
  by (cases s) auto

lemma encode_rune_not_Nil [simp]: "encode_rune r \<noteq> []"
  by (simp add: encode_rune_def)

lemma map_case_Nil_iff [simp]: "map_case asc tab s = [] \<longleftrightarrow> s = []"
  by (cases s) (auto simp: map_case_def simp del: runes.simps)

lemma to_upper_Nil_iff [simp]: "to_upper u s = [] \<longleftrightarrow> s = []"
  by (simp add: to_upper_def)

section \<open>Numbers\<close>

definition is_digit :: "char \<Rightarrow> bool" where
  "is_digit c \<longleftrightarrow> in_range 48 57 c"

definition digits_value :: "string \<Rightarrow> int" where
  "digits_value s = foldl (\<lambda>a c. 10 * a + (int (byte c) - 48)) 0 s"

definition parse_digits :: "string \<Rightarrow> int option" where
  "parse_digits s = (if s \<noteq> [] \<and> list_all is_digit s then Some (digits_value s) else None)"

text \<open>
  \<open>strconv.Atoi\<close> on a 64-bit platform: an optional sign and decimal digits, and an error for
  anything else as well as for a value outside \<open>int64\<close>. The callers only test whether there is
  an error, so the error is \<^const>\<open>None\<close>.
\<close>

definition atoi :: "string \<Rightarrow> int option" where
  "atoi s =
     (let (neg, ds) = (case s of [] \<Rightarrow> (False, [])
        | c # t \<Rightarrow> if c = CHR ''-'' then (True, t) else if c = CHR ''+'' then (False, t) else (False, s))
      in case parse_digits ds of
           None \<Rightarrow> None
         | Some n \<Rightarrow>
             (let v = (if neg then - n else n)
              in if min_int64 \<le> v \<and> v \<le> max_int64 then Some v else None))"

lemma atoi_range: "atoi s = Some n \<Longrightarrow> min_int64 \<le> n \<and> n \<le> max_int64"
  by (auto simp: atoi_def Let_def split: option.splits if_splits prod.splits)

text \<open>\<open>strconv.ParseBool\<close>.\<close>

definition parse_bool :: "string \<Rightarrow> bool option" where
  "parse_bool s =
     (if s \<in> set [''1'', ''t'', ''T'', ''TRUE'', ''true'', ''True''] then Some True
      else if s \<in> set [''0'', ''f'', ''F'', ''FALSE'', ''false'', ''False''] then Some False
      else None)"

text \<open>The decimal rendering of a number (\<open>fmt\<close>'s \<open>%d\<close>), and that \<open>atoi\<close> reads it back.\<close>

function itoa :: "nat \<Rightarrow> string" where
  "itoa n = (if n < 10 then [char_of (48 + n)] else itoa (n div 10) @ [char_of (48 + n mod 10)])"
  by pat_completeness auto
termination
  by (relation "measure id") auto

declare itoa.simps [simp del]

lemma itoa_digits: "itoa n \<noteq> [] \<and> list_all is_digit (itoa n)"
proof (induction n rule: itoa.induct)
  case (1 n)
  then show ?case
    by (cases "n < 10") (auto simp: itoa.simps [of n] is_digit_def in_range_def)
qed

lemma digits_value_append:
  "digits_value (s @ [c]) = 10 * digits_value s + (int (byte c) - 48)"
  by (simp add: digits_value_def)

lemma digits_value_itoa: "digits_value (itoa n) = int n"
proof (induction n rule: itoa.induct)
  case (1 n)
  show ?case
  proof (cases "n < 10")
    case True
    then show ?thesis by (simp add: itoa.simps [of n] digits_value_def)
  next
    case False
    with 1 have "digits_value (itoa n) = 10 * int (n div 10) + int (n mod 10)"
      by (simp add: itoa.simps [of n] digits_value_append)
    then show ?thesis by presburger
  qed
qed

lemma not_digit_sign: "\<not> is_digit (CHR ''-'')" "\<not> is_digit (CHR ''+'')"
  by (simp_all add: is_digit_def in_range_def)

lemma atoi_itoa:
  assumes "int n \<le> max_int64"
  shows "atoi (itoa n) = Some (int n)"
proof -
  obtain c t where ct: "itoa n = c # t" using itoa_digits [of n] by (cases "itoa n") auto
  with itoa_digits [of n] have "is_digit c" by simp
  then have sign: "c \<noteq> CHR ''-''" "c \<noteq> CHR ''+''" using not_digit_sign by metis+
  have "parse_digits (c # t) = Some (int n)"
    using ct itoa_digits [of n] digits_value_itoa [of n] by (simp add: parse_digits_def)
  moreover have "min_int64 \<le> int n" by (simp add: min_int64_def)
  ultimately show ?thesis using assms sign ct by (simp add: atoi_def)
qed

section \<open>Other operations of the package strings\<close>

definition contains :: "string \<Rightarrow> string \<Rightarrow> bool" where
  "contains s sub \<longleftrightarrow> cut sub s \<noteq> None"

definition trim_prefix :: "string \<Rightarrow> string \<Rightarrow> string" where
  "trim_prefix s p = (case strip_front p s of None \<Rightarrow> s | Some t \<Rightarrow> t)"

definition trim_suffix :: "string \<Rightarrow> string \<Rightarrow> string" where
  "trim_suffix s p = (case strip_front (rev p) (rev s) of None \<Rightarrow> s | Some t \<Rightarrow> rev t)"

definition trim_right :: "string \<Rightarrow> char \<Rightarrow> string" where
  "trim_right s c = rev (dropWhile (\<lambda>x. x = c) (rev s))"

definition until_any :: "string \<Rightarrow> string \<Rightarrow> string" where
  "until_any s cs = takeWhile (\<lambda>x. x \<notin> set cs) s"

lemma contains_iff: "contains s sub \<longleftrightarrow> sublist sub s"
  by (simp add: contains_def cut_None_iff)

lemma contains_char_iff: "contains s [c] \<longleftrightarrow> c \<in> set s"
  by (simp add: contains_def cut_char_None_iff)

lemma trim_right_last:
  assumes "trim_right s c \<noteq> []"
  shows "last (trim_right s c) \<noteq> c"
  using assms hd_dropWhile [of "\<lambda>x. x = c" "rev s"] by (simp add: trim_right_def last_rev)

end
