(* ===== verification/Go_Errors.thy ===== *)
theory Go_Errors
  imports Complex_Main Go_Strings
begin

text \<open>
  Values that the components exchange and that carry no behaviour of their own: floating point
  values, the operands of formatted messages, errors with the \<open>errors.Is\<close> and \<open>errors.As\<close>
  walks over a chain of wrapped errors, and the levels of \<open>log/slog\<close>.

  An error is kept as its parts (the format string and its operands), not as the rendered text.
\<close>

section \<open>Values\<close>

datatype float64 = F_NaN | F_Inf bool | F_fin rat

definition is_nan :: "float64 \<Rightarrow> bool" where
  "is_nan x \<longleftrightarrow> x = F_NaN"

definition is_inf :: "float64 \<Rightarrow> bool" where
  "is_inf x \<longleftrightarrow> (case x of F_Inf _ \<Rightarrow> True | _ \<Rightarrow> False)"

text \<open>Comparison with a finite constant; every comparison with NaN is false.\<close>

fun float_less :: "float64 \<Rightarrow> rat \<Rightarrow> bool" where
  "float_less F_NaN r = False"
| "float_less (F_Inf neg) r = neg"
| "float_less (F_fin x) r = (x < r)"

fun float_greater :: "float64 \<Rightarrow> rat \<Rightarrow> bool" where
  "float_greater F_NaN r = False"
| "float_greater (F_Inf neg) r = (\<not> neg)"
| "float_greater (F_fin x) r = (r < x)"

datatype go_arg = A_str string | A_int int | A_bool bool | A_dur int | A_float float64

section \<open>Errors\<close>

datatype ctx_error = Canceled | DeadlineExceeded

text \<open>
  An error of a package outside the repository. For an error of the S3 client the fields say what
  \<open>errors.As\<close> finds in its chain: a \<open>types.NoSuchKey\<close>, a \<open>types.NotFound\<close>, the code of a
  \<open>smithy.APIError\<close>, the status of an error with an \<open>HTTPStatusCode\<close> method.
\<close>

record ext_error =
  ext_text :: string
  ext_no_such_key :: bool
  ext_not_found :: bool
  ext_api_code :: "string option"
  ext_http_status :: "int option"

datatype go_error =
    Err_new string
  | Err_fmt string "go_arg list"
  | Err_wrap string "go_arg list" go_error
  | Err_join "go_error list"
  | Err_ctx ctx_error
  | Err_ext ext_error

definition plain_ext :: "string \<Rightarrow> go_error" where
  "plain_ext t = Err_ext \<lparr>ext_text = t, ext_no_such_key = False, ext_not_found = False,
     ext_api_code = None, ext_http_status = None\<rparr>"

text \<open>\<open>errors.Is\<close>: the target is somewhere in the tree of wrapped errors.\<close>

fun error_is :: "go_error \<Rightarrow> go_error \<Rightarrow> bool" where
  "error_is (Err_wrap f as e) t = (Err_wrap f as e = t \<or> error_is e t)"
| "error_is (Err_join es) t = (Err_join es = t \<or> (\<exists>e \<in> set es. error_is e t))"
| "error_is e t = (e = t)"

text \<open>
  \<open>errors.As\<close>: the first error of the chain that has what is asked for. \<open>Err_join\<close> is walked in
  order.
\<close>

fun error_as :: "(ext_error \<Rightarrow> 'a option) \<Rightarrow> go_error \<Rightarrow> 'a option" where
  "error_as f (Err_ext x) = f x"
| "error_as f (Err_wrap fm as e) = error_as f e"
| "error_as f (Err_join es) =
     foldr (\<lambda>e r. case error_as f e of None \<Rightarrow> r | Some a \<Rightarrow> Some a) es None"
| "error_as f e = None"

text \<open>\<open>errors.Join\<close> drops nil errors and is nil when nothing is left.\<close>

definition errors_join :: "go_error option list \<Rightarrow> go_error option" where
  "errors_join es =
     (let xs = map the (filter (\<lambda>e. e \<noteq> None) es) in if xs = [] then None else Some (Err_join xs))"

lemma error_is_refl [simp]: "error_is e e"
  by (cases e) auto

lemma error_is_wrap: "error_is e t \<Longrightarrow> error_is (Err_wrap f as e) t"
  by simp

lemma errors_join_None_iff: "errors_join es = None \<longleftrightarrow> (\<forall>e \<in> set es. e = None)"
  by (auto simp: errors_join_def Let_def filter_empty_conv)

section \<open>Log levels\<close>

datatype log_level = L_Debug | L_Info | L_Warn | L_Error

fun level_value :: "log_level \<Rightarrow> int" where
  "level_value L_Debug = -4"
| "level_value L_Info = 0"
| "level_value L_Warn = 4"
| "level_value L_Error = 8"

lemma level_value_inj: "level_value a = level_value b \<Longrightarrow> a = b"
  by (cases a; cases b) auto

instantiation log_level :: linorder
begin

definition less_eq_log_level :: "log_level \<Rightarrow> log_level \<Rightarrow> bool" where
  "less_eq_log_level a b \<longleftrightarrow> level_value a \<le> level_value b"

definition less_log_level :: "log_level \<Rightarrow> log_level \<Rightarrow> bool" where
  "less_log_level a b \<longleftrightarrow> level_value a < level_value b"

instance
  by standard (auto simp: less_eq_log_level_def less_log_level_def intro: level_value_inj)

end

end
