(* ===== verification/Go_Url.thy ===== *)
theory Go_Url
  imports Go_Errors "HOL-Library.List_Lexorder" "HOL-Library.Char_ord"
begin

text \<open>
  The parts of Go's \<open>net/url\<close> and \<open>net\<close> packages that the program calls (Go 1.25, the version
  in \<open>go.mod\<close>): percent encoding, \<open>url.Parse\<close>, \<open>URL.String\<close>, \<open>URL.Hostname\<close>,
  \<open>URL.Port\<close>, \<open>Values.Encode\<close> and \<open>net.SplitHostPort\<close>. Where the callers only test
  whether there is an error, the error is \<^const>\<open>None\<close>.
\<close>

section \<open>Percent encoding\<close>

datatype encoding = Enc_path | Enc_user | Enc_host | Enc_zone | Enc_query | Enc_fragment

definition is_lower :: "char \<Rightarrow> bool" where
  "is_lower c \<longleftrightarrow> in_range 97 122 c"

definition is_upper :: "char \<Rightarrow> bool" where
  "is_upper c \<longleftrightarrow> in_range 65 90 c"

definition is_alpha :: "char \<Rightarrow> bool" where
  "is_alpha c \<longleftrightarrow> is_lower c \<or> is_upper c"

definition is_hex :: "char \<Rightarrow> bool" where
  "is_hex c \<longleftrightarrow> is_digit c \<or> in_range 97 102 c \<or> in_range 65 70 c"

definition unhex :: "char \<Rightarrow> nat" where
  "unhex c = (if is_digit c then byte c - 48
     else if in_range 97 102 c then byte c - 87 else byte c - 55)"

definition upper_hex :: "nat \<Rightarrow> char" where
  "upper_hex n = (if n < 10 then char_of (48 + n) else char_of (55 + n))"

definition should_escape :: "encoding \<Rightarrow> char \<Rightarrow> bool" where
  "should_escape m c =
     (if is_alpha c \<or> is_digit c then False
      else if (m = Enc_host \<or> m = Enc_zone) \<and> c \<in> set (''!$&'' @ [CHR 0x27] @ ''()*+,;=:[]<>'' @ [CHR 0x22]) then False
      else if c \<in> set ''-_.~'' then False
      else if c \<in> set ''$&+,/:;=?@'' \<and> m = Enc_path then c = CHR ''?''
      else if c \<in> set ''$&+,/:;=?@'' \<and> m = Enc_user then c \<in> set ''@/?:''
      else if c \<in> set ''$&+,/:;=?@'' \<and> m = Enc_query then True
      else if c \<in> set ''$&+,/:;=?@'' \<and> m = Enc_fragment then False
      else if m = Enc_fragment \<and> c \<in> set ''!()*'' then False
      else True)"

definition escape_char :: "encoding \<Rightarrow> char \<Rightarrow> string" where
  "escape_char m c =
     (if should_escape m c then
        (if c = CHR '' '' \<and> m = Enc_query then ''+''
         else [CHR ''%'', upper_hex (byte c div 16), upper_hex (byte c mod 16)])
      else [c])"

definition escape :: "encoding \<Rightarrow> string \<Rightarrow> string" where
  "escape m s = concat (map (escape_char m) s)"

text \<open>In a host only non-ASCII bytes and \<open>%25\<close>, in a zone what a host allows, may be escaped.\<close>

definition escape_allowed :: "encoding \<Rightarrow> char \<Rightarrow> char \<Rightarrow> bool" where
  "escape_allowed m a b =
     (let v = 16 * unhex a + unhex b in
      if m = Enc_host then 8 \<le> unhex a \<or> [a, b] = ''25''
      else if m = Enc_zone then [a, b] = ''25'' \<or> v = 0x20 \<or> \<not> should_escape Enc_host (char_of v)
      else True)"

fun unescape :: "encoding \<Rightarrow> string \<Rightarrow> string option" where
  "unescape m [] = Some []"
| "unescape m (c # s) =
     (if c = CHR ''%'' then
        (case s of
           a # b # t \<Rightarrow>
             if is_hex a \<and> is_hex b \<and> escape_allowed m a b
             then map_option ((#) (char_of (16 * unhex a + unhex b))) (unescape m t)
             else None
         | _ \<Rightarrow> None)
      else if c = CHR ''+'' then
        map_option ((#) (if m = Enc_query then CHR '' '' else CHR ''+'')) (unescape m s)
      else if (m = Enc_host \<or> m = Enc_zone) \<and> is_ascii c \<and> should_escape m c then None
      else map_option ((#) c) (unescape m s))"

lemma is_hex_props: "is_hex c \<Longrightarrow> is_ascii c \<and> c \<notin> set ''&=#?/@:''"
  by (auto simp: is_hex_def is_digit_def in_range_def is_ascii_def)

lemma upper_hex_props:
  assumes "n < 16"
  shows "is_hex (upper_hex n)" and "unhex (upper_hex n) = n"
  using assms by (auto simp: upper_hex_def is_hex_def unhex_def is_digit_def in_range_def)

lemma byte_div_16 [simp]: "byte c div 16 < 16"
  using nat_of_char_less_256 [of c] by linarith

text \<open>Escaping for a query component is undone by unescaping it.\<close>

lemma unescape_query_escape_char:
  "unescape Enc_query (escape_char Enc_query c @ s) = map_option ((#) c) (unescape Enc_query s)"
proof -
  have div: "byte c div 16 < 16" and md: "byte c mod 16 < 16" by simp_all
  have plain: "c \<noteq> CHR ''%'' \<and> c \<noteq> CHR ''+''" if "\<not> should_escape Enc_query c"
    using that by (auto simp: should_escape_def is_alpha_def is_lower_def is_upper_def is_digit_def
        in_range_def)
  show ?thesis
  proof (cases "should_escape Enc_query c")
    case True
    then show ?thesis
      by (simp add: escape_char_def upper_hex_props [OF div] upper_hex_props [OF md]
          escape_allowed_def)
  next
    case False
    with plain show ?thesis by (simp add: escape_char_def)
  qed
qed

lemma unescape_query_escape: "unescape Enc_query (escape Enc_query s) = Some s"
  unfolding escape_def
  by (induction s) (simp_all add: unescape_query_escape_char)

lemma escape_query_chars:
  assumes "x \<in> set (escape Enc_query s)"
  shows "x \<noteq> CHR ''&'' \<and> x \<noteq> CHR ''=''"
proof -
  obtain c where c: "x \<in> set (escape_char Enc_query c)" using assms by (auto simp: escape_def)
  have div: "byte c div 16 < 16" and md: "byte c mod 16 < 16" by simp_all
  have "\<not> should_escape Enc_query c \<Longrightarrow> c \<noteq> CHR ''&'' \<and> c \<noteq> CHR ''=''"
    by (auto simp: should_escape_def is_alpha_def is_lower_def is_upper_def is_digit_def
        in_range_def)
  with c show ?thesis
    using is_hex_props [OF upper_hex_props(1) [OF div]] is_hex_props [OF upper_hex_props(1) [OF md]]
    by (auto simp: escape_char_def split: if_splits)
qed

section \<open>Form encoding\<close>

text \<open>
  \<open>url.Values\<close> with one value per key: \<open>Set\<close> replaces, and \<open>Encode\<close> writes the keys in
  increasing order. \<open>parse_query\<close> is what a server reads out of such a body.
\<close>

type_synonym form = "(string \<times> string) list"

fun form_set :: "form \<Rightarrow> string \<Rightarrow> string \<Rightarrow> form" where
  "form_set [] k v = [(k, v)]"
| "form_set ((k', v') # f) k v = (if k' = k then (k, v) # f else (k', v') # form_set f k v)"

definition encode_pair :: "string \<times> string \<Rightarrow> string" where
  "encode_pair p = escape Enc_query (fst p) @ ''='' @ escape Enc_query (snd p)"

definition form_encode :: "form \<Rightarrow> string" where
  "form_encode f = join ''&'' (map encode_pair (sort_key fst f))"

definition parse_pair :: "string \<Rightarrow> (string \<times> string) option" where
  "parse_pair s =
     (case (case cut ''='' s of None \<Rightarrow> (s, []) | Some kv \<Rightarrow> kv) of
        (k, v) \<Rightarrow>
          (case (unescape Enc_query k, unescape Enc_query v) of
             (Some k', Some v') \<Rightarrow> Some (k', v') | _ \<Rightarrow> None))"

definition parse_query :: "string \<Rightarrow> form" where
  "parse_query s = List.map_filter parse_pair (filter (\<lambda>p. p \<noteq> []) (split_on (CHR ''&'') s))"

lemma parse_encode_pair: "parse_pair (encode_pair p) = Some p"
proof -
  have "CHR ''='' \<notin> set (escape Enc_query (fst p))" using escape_query_chars by blast
  then have "cut ''='' (encode_pair p) = Some (escape Enc_query (fst p), escape Enc_query (snd p))"
    by (simp add: encode_pair_def cut_char)
  then show ?thesis by (simp add: parse_pair_def unescape_query_escape)
qed

lemma parse_form_encode:
  assumes "f \<noteq> []"
  shows "parse_query (form_encode f) = sort_key fst f"
proof -
  let ?ps = "map encode_pair (sort_key fst f)"
  have ne: "?ps \<noteq> []" using assms by (metis length_0_conv length_map length_sort)
  have "CHR ''&'' \<notin> set x" if "x \<in> set ?ps" for x
    using that escape_query_chars by (fastforce simp: encode_pair_def)
  then have "split_on (CHR ''&'') (form_encode f) = ?ps"
    unfolding form_encode_def by (intro split_join ne)
  moreover have "filter (\<lambda>p. p \<noteq> []) ?ps = ?ps" by (simp add: filter_id_conv encode_pair_def)
  moreover have "List.map_filter parse_pair (map encode_pair g) = g" for g
    by (induction g) (simp_all add: List.map_filter_def parse_encode_pair)
  ultimately show ?thesis by (simp add: parse_query_def)
qed

section \<open>Parsing\<close>

text \<open>
  The fields of \<open>url.URL\<close>. The user information is the user name and, when there is a colon, the
  password.
\<close>

record url =
  u_scheme :: string
  u_opaque :: string
  u_user :: "(string \<times> string option) option"
  u_host :: string
  u_path :: string
  u_raw_path :: string
  u_omit_host :: bool
  u_force_query :: bool
  u_raw_query :: string
  u_fragment :: string
  u_raw_fragment :: string

definition empty_url :: url where
  "empty_url = \<lparr>u_scheme = [], u_opaque = [], u_user = None, u_host = [], u_path = [],
     u_raw_path = [], u_omit_host = False, u_force_query = False, u_raw_query = [],
     u_fragment = [], u_raw_fragment = []\<rparr>"

definition scheme_char :: "char \<Rightarrow> bool" where
  "scheme_char c \<longleftrightarrow> is_alpha c \<or> is_digit c \<or> c \<in> set ''+-.''"

text \<open>\<open>getScheme\<close>: \<^const>\<open>None\<close> for a missing scheme before a colon.\<close>

definition get_scheme :: "string \<Rightarrow> (string \<times> string) option" where
  "get_scheme raw =
     (let pre = takeWhile scheme_char raw; post = dropWhile scheme_char raw in
      case post of
        [] \<Rightarrow> Some ([], raw)
      | c # rest \<Rightarrow>
          if pre = [] then (if c = CHR '':'' then None else Some ([], raw))
          else if \<not> is_alpha (hd pre) then Some ([], raw)
          else if c = CHR '':'' then Some (pre, rest)
          else Some ([], raw))"

definition valid_userinfo :: "string \<Rightarrow> bool" where
  "valid_userinfo s \<longleftrightarrow>
     list_all (\<lambda>c. is_alpha c \<or> is_digit c \<or> c \<in> set (''-._:~!$&'' @ [CHR 0x27] @ ''()*+,;=%@'')) s"

definition valid_optional_port :: "string \<Rightarrow> bool" where
  "valid_optional_port p \<longleftrightarrow> p = [] \<or> (hd p = CHR '':'' \<and> list_all is_digit (tl p))"

definition parse_host :: "string \<Rightarrow> string option" where
  "parse_host h =
     (if h \<noteq> [] \<and> hd h = CHR ''['' then
        (case cut_last (CHR '']'') h of
           None \<Rightarrow> None
         | Some (pre, port) \<Rightarrow>
             if \<not> valid_optional_port port then None
             else (case cut ''%25'' pre of
                 Some (a, b) \<Rightarrow>
                   (case (unescape Enc_host a, unescape Enc_zone (''%25'' @ b),
                          unescape Enc_host (CHR '']'' # port)) of
                      (Some x, Some y, Some z) \<Rightarrow> Some (x @ y @ z)
                    | _ \<Rightarrow> None)
               | None \<Rightarrow> unescape Enc_host h))
      else (case cut_last (CHR '':'') h of
          Some (a, port) \<Rightarrow>
            if valid_optional_port (CHR '':'' # port) then unescape Enc_host h else None
        | None \<Rightarrow> unescape Enc_host h))"

definition parse_userinfo :: "string \<Rightarrow> (string \<times> string option) option" where
  "parse_userinfo ui =
     (if \<not> valid_userinfo ui then None
      else (case cut '':'' ui of
          None \<Rightarrow> map_option (\<lambda>u. (u, None)) (unescape Enc_user ui)
        | Some (u, p) \<Rightarrow>
            (case (unescape Enc_user u, unescape Enc_user p) of
               (Some u', Some p') \<Rightarrow> Some (u', Some p') | _ \<Rightarrow> None)))"

definition parse_authority ::
    "string \<Rightarrow> ((string \<times> string option) option \<times> string) option" where
  "parse_authority a =
     (case cut_last (CHR ''@'') a of
        None \<Rightarrow> map_option (\<lambda>h. (None, h)) (parse_host a)
      | Some (ui, hp) \<Rightarrow>
          (case (parse_host hp, parse_userinfo ui) of
             (Some h, Some u) \<Rightarrow> Some (Some u, h) | _ \<Rightarrow> None))"

definition set_path :: "string \<Rightarrow> url \<Rightarrow> url option" where
  "set_path p u =
     map_option (\<lambda>path. u\<lparr>u_path := path,
         u_raw_path := (if p = escape Enc_path path then [] else p)\<rparr>) (unescape Enc_path p)"

definition set_fragment :: "string \<Rightarrow> url \<Rightarrow> url option" where
  "set_fragment f u =
     map_option (\<lambda>frag. u\<lparr>u_fragment := frag,
         u_raw_fragment := (if f = escape Enc_fragment frag then [] else f)\<rparr>)
       (unescape Enc_fragment f)"

definition contains_ctl :: "string \<Rightarrow> bool" where
  "contains_ctl s \<longleftrightarrow> list_ex (\<lambda>c. byte c < 0x20 \<or> byte c = 0x7F) s"

definition first_segment :: "string \<Rightarrow> string" where
  "first_segment s = takeWhile (\<lambda>c. c \<noteq> CHR ''/'') s"

text \<open>The remainder without its query, the raw query, and whether there is an empty query.\<close>

definition split_query :: "string \<Rightarrow> string \<times> string \<times> bool" where
  "split_query rest =
     (case cut ''?'' rest of
        None \<Rightarrow> (rest, [], False)
      | Some (a, q) \<Rightarrow> if q = [] then (a, [], True) else (a, q, False))"

definition parse_rest :: "url \<Rightarrow> string \<Rightarrow> url option" where
  "parse_rest u rest =
     (if \<not> prefix ''/'' rest \<and> u_scheme u \<noteq> [] then Some (u\<lparr>u_opaque := rest\<rparr>)
      else if \<not> prefix ''/'' rest \<and> CHR '':'' \<in> set (first_segment rest) then None
      else if (u_scheme u \<noteq> [] \<or> \<not> prefix ''///'' rest) \<and> prefix ''//'' rest then
        (let auth = first_segment (drop 2 rest); path = drop (length auth) (drop 2 rest) in
         case parse_authority auth of
           None \<Rightarrow> None
         | Some (ui, h) \<Rightarrow> set_path path (u\<lparr>u_user := ui, u_host := h\<rparr>))
      else if u_scheme u \<noteq> [] \<and> prefix ''/'' rest then set_path rest (u\<lparr>u_omit_host := True\<rparr>)
      else set_path rest u)"

definition parse_no_fragment :: "string \<Rightarrow> url option" where
  "parse_no_fragment raw =
     (if contains_ctl raw then None
      else if raw = ''*'' then Some (empty_url\<lparr>u_path := ''*''\<rparr>)
      else (case get_scheme raw of
          None \<Rightarrow> None
        | Some (sc, rest) \<Rightarrow>
            (let (path, q, fq) = split_query rest in
             parse_rest (empty_url\<lparr>u_scheme := map (\<lambda>c. char_of (ascii_lower (byte c))) sc,
                 u_force_query := fq, u_raw_query := q\<rparr>) path)))"

text \<open>\<open>url.Parse\<close>.\<close>

definition url_parse :: "string \<Rightarrow> url option" where
  "url_parse raw =
     (case cut ''#'' raw of
        None \<Rightarrow> parse_no_fragment raw
      | Some (u, frag) \<Rightarrow>
          (case parse_no_fragment u of
             None \<Rightarrow> None
           | Some x \<Rightarrow> if frag = [] then Some x else set_fragment frag x))"

section \<open>Rendering\<close>

definition valid_encoded :: "encoding \<Rightarrow> string \<Rightarrow> bool" where
  "valid_encoded m s \<longleftrightarrow>
     list_all (\<lambda>c. c \<in> set (''!$&'' @ [CHR 0x27] @ ''()*+,;=:@[]%'') \<or> \<not> should_escape m c) s"

definition escaped_path :: "url \<Rightarrow> string" where
  "escaped_path u =
     (if u_raw_path u \<noteq> [] \<and> valid_encoded Enc_path (u_raw_path u) \<and>
         unescape Enc_path (u_raw_path u) = Some (u_path u) then u_raw_path u
      else if u_path u = ''*'' then ''*''
      else escape Enc_path (u_path u))"

definition escaped_fragment :: "url \<Rightarrow> string" where
  "escaped_fragment u =
     (if u_raw_fragment u \<noteq> [] \<and> valid_encoded Enc_fragment (u_raw_fragment u) \<and>
         unescape Enc_fragment (u_raw_fragment u) = Some (u_fragment u) then u_raw_fragment u
      else escape Enc_fragment (u_fragment u))"

definition userinfo_string :: "string \<times> string option \<Rightarrow> string" where
  "userinfo_string ui = escape Enc_user (fst ui) @
     (case snd ui of None \<Rightarrow> [] | Some p \<Rightarrow> '':'' @ escape Enc_user p)"

definition authority_string :: "url \<Rightarrow> string" where
  "authority_string u =
     (if u_scheme u \<noteq> [] \<or> u_host u \<noteq> [] \<or> u_user u \<noteq> None then
        (if u_omit_host u \<and> u_host u = [] \<and> u_user u = None then []
         else (if u_host u \<noteq> [] \<or> u_path u \<noteq> [] \<or> u_user u \<noteq> None then ''//'' else []) @
              (case u_user u of None \<Rightarrow> [] | Some ui \<Rightarrow> userinfo_string ui @ ''@'') @
              escape Enc_host (u_host u))
      else [])"

text \<open>\<open>URL.String\<close>.\<close>

definition url_string :: "url \<Rightarrow> string" where
  "url_string u =
     (let sc = (if u_scheme u \<noteq> [] then u_scheme u @ '':'' else []);
          path = escaped_path u;
          front = sc @ authority_string u;
          body = (if u_opaque u \<noteq> [] then sc @ u_opaque u
             else if path \<noteq> [] \<and> hd path \<noteq> CHR ''/'' \<and> u_host u \<noteq> [] then front @ ''/'' @ path
             else if front = [] \<and> CHR '':'' \<in> set (first_segment path) then ''./'' @ path
             else front @ path)
      in body @ (if u_force_query u \<or> u_raw_query u \<noteq> [] then ''?'' @ u_raw_query u else []) @
         (if u_fragment u \<noteq> [] then ''#'' @ escaped_fragment u else []))"

section \<open>Host and port\<close>

definition split_host_port :: "string \<Rightarrow> string \<times> string" where
  "split_host_port hp =
     (let (h, p) = (case cut_last (CHR '':'') hp of
          Some (a, port) \<Rightarrow> if valid_optional_port (CHR '':'' # port) then (a, port) else (hp, [])
        | None \<Rightarrow> (hp, []))
      in (if h \<noteq> [] \<and> hd h = CHR ''['' \<and> last h = CHR '']'' then butlast (tl h) else h, p))"

definition url_hostname :: "url \<Rightarrow> string" where
  "url_hostname u = fst (split_host_port (u_host u))"

definition url_port :: "url \<Rightarrow> string" where
  "url_port u = snd (split_host_port (u_host u))"

text \<open>\<open>net.SplitHostPort\<close>, the error as \<^const>\<open>None\<close>.\<close>

definition net_split_host_port :: "string \<Rightarrow> (string \<times> string) option" where
  "net_split_host_port hp =
     (case cut_last (CHR '':'') hp of
        None \<Rightarrow> None
      | Some (a, port) \<Rightarrow>
          if hp \<noteq> [] \<and> hd hp = CHR ''['' then
            (case cut '']'' hp of
               None \<Rightarrow> None
             | Some (x, y) \<Rightarrow>
                 if y = CHR '':'' # port \<and> CHR ''['' \<notin> set (tl x) \<and> CHR ''['' \<notin> set y \<and>
                    CHR '']'' \<notin> set y
                 then Some (tl x, port) else None)
          else if CHR '':'' \<in> set a \<or> CHR ''['' \<in> set hp \<or> CHR '']'' \<in> set hp then None
          else Some (a, port))"

end
