(* ===== verification/Url_Facts.thy ===== *)
theory Url_Facts
  imports Go_Url
begin

text \<open>
  How the parser treats an absolute URL with an authority: the user information influences nothing
  but the field that holds it.
\<close>

section \<open>White space and separators\<close>

lemma strip_front_stop:
  "c \<notin> set r \<Longrightarrow> strip_front r (x @ c # y) = map_option (\<lambda>t. t @ c # y) (strip_front r x)"
  by (induction r x rule: strip_front.induct) auto

lemma lead_stop:
  "\<forall>r \<in> set rs. c \<notin> set r \<Longrightarrow> lead rs (x @ c # y) = map_option (\<lambda>t. t @ c # y) (lead rs x)"
  by (induction rs) (auto simp: strip_front_stop split: option.splits)

lemma trim_front_stop:
  assumes "\<forall>r \<in> set rs. c \<notin> set r"
  shows "trim_front rs (x @ c # y) = trim_front rs x @ c # y"
  using assms
proof (induction rs x rule: trim_front.induct)
  case (1 rs x)
  show ?case
  proof (cases "lead rs x")
    case None
    then have "lead rs (x @ c # y) = None" using lead_stop [OF "1.prems"] by simp
    with None show ?thesis by (simp add: trim_front_id)
  next
    case (Some t)
    then have "lead rs (x @ c # y) = Some (t @ c # y)" using lead_stop [OF "1.prems"] by simp
    with 1 Some show ?thesis
      by (subst (1 2) trim_front.simps) simp
  qed
qed

lemma space_runes_graphic: "graphic c \<Longrightarrow> r \<in> set space_runes \<Longrightarrow> c \<notin> set r"
  by (auto simp: space_runes_def graphic_def)

lemma trim_back_stop:
  assumes "graphic c"
  shows "trim_back space_runes (x @ c # y) = x @ c # trim_back space_runes y"
proof -
  have "\<forall>r \<in> set (map rev space_runes). c \<notin> set r"
    using space_runes_graphic [OF assms] by auto
  from trim_front_stop [OF this, of "rev y" "rev x"] show ?thesis
    by (simp add: trim_back_def)
qed

lemma trim_space_inner:
  assumes "graphic a" and "graphic c"
  shows "trim_space (a # x @ c # y) = a # x @ c # trim_back space_runes y"
proof -
  have "trim_front space_runes (a # x @ c # y) = a # x @ c # y"
    using trim_front_id [OF lead_graphic [OF assms(1)]] .
  with trim_back_stop [OF assms(2), of "a # x" y] show ?thesis by (simp add: trim_space_def)
qed

lemma cut_char_append:
  "c \<notin> set x \<Longrightarrow> cut [c] (x @ y) = map_option (\<lambda>(a, b). (x @ a, b)) (cut [c] y)"
  by (induction x) (auto simp: option.map_comp comp_def split_beta option.map_ident option.map_id
      split: option.splits)

section \<open>Absolute URLs\<close>

definition scheme_ok :: "string \<Rightarrow> bool" where
  "scheme_ok sc \<longleftrightarrow> sc \<noteq> [] \<and> is_alpha (hd sc) \<and> list_all scheme_char sc"

lemma scheme_char_props:
  assumes "scheme_char c"
  shows "graphic c" and "c \<notin> set '':/?#@''" and "\<not> byte c < 0x20" and "byte c \<noteq> 0x7F"
  using assms by (auto simp: scheme_char_def is_alpha_def is_lower_def is_upper_def is_digit_def
      in_range_def graphic_def)

lemma get_scheme_absolute:
  assumes "scheme_ok sc"
  shows "get_scheme (sc @ CHR '':'' # rest) = Some (sc, rest)"
proof -
  have colon: "\<not> scheme_char (CHR '':'')" using scheme_char_props(2) by fastforce
  have "takeWhile scheme_char (sc @ CHR '':'' # rest) = sc"
    and "dropWhile scheme_char (sc @ CHR '':'' # rest) = CHR '':'' # rest"
    using assms colon
    by (auto simp: scheme_ok_def list_all_iff takeWhile_append2 dropWhile_append2)
  with assms show ?thesis by (simp add: get_scheme_def scheme_ok_def)
qed

lemma contains_ctl_append: "contains_ctl (x @ y) \<longleftrightarrow> contains_ctl x \<or> contains_ctl y"
  by (simp add: contains_ctl_def)

lemma scheme_no_ctl: "scheme_ok sc \<Longrightarrow> \<not> contains_ctl sc"
  using scheme_char_props by (auto simp: scheme_ok_def contains_ctl_def list_all_iff list_ex_iff)

text \<open>
  \<open>pre\<close> is what stands before the host: nothing, or user information with its \<open>@\<close>, which the
  parser reads as \<open>usr\<close>.
\<close>

definition authority_prefix :: "string \<Rightarrow> (string \<times> string option) option \<Rightarrow> bool" where
  "authority_prefix pre usr \<longleftrightarrow>
     \<not> contains_ctl pre \<and> (\<forall>c \<in> set ''/?#''. c \<notin> set pre) \<and>
     (\<forall>x. CHR ''@'' \<notin> set x \<longrightarrow>
        parse_authority (pre @ x) = map_option (\<lambda>h. (usr, h)) (parse_host x))"

definition absolute_base :: "string \<Rightarrow> string \<Rightarrow> bool \<Rightarrow> url" where
  "absolute_base sc q fq = empty_url\<lparr>u_scheme := map (\<lambda>c. char_of (ascii_lower (byte c))) sc,
     u_force_query := fq, u_raw_query := q\<rparr>"

definition parse_after_host :: "string \<Rightarrow> (string \<times> string option) option \<Rightarrow> string \<Rightarrow> url option" where
  "parse_after_host sc usr t =
     (if contains_ctl t then None
      else let (path, q, fq) = split_query t in
        case parse_host (first_segment path) of None \<Rightarrow> None
        | Some h \<Rightarrow> set_path (drop (length (first_segment path)) path)
            ((absolute_base sc q fq)\<lparr>u_user := usr, u_host := h\<rparr>))"

lemma authority_prefix_none: "authority_prefix [] None"
proof -
  have "parse_authority x = map_option (\<lambda>h. (None, h)) (parse_host x)" if "CHR ''@'' \<notin> set x" for x
    using that cut_last_None_iff [of "CHR ''@''" x] by (simp add: parse_authority_def)
  then show ?thesis by (simp add: authority_prefix_def contains_ctl_def)
qed

lemma valid_userinfo_chars:
  assumes "valid_userinfo ui" and "c \<in> set ui"
  shows "c \<notin> set ''/?#''" and "\<not> byte c < 0x20" and "byte c \<noteq> 0x7F"
  using assms by (auto simp: valid_userinfo_def list_all_iff is_alpha_def is_lower_def is_upper_def
      is_digit_def in_range_def)

lemma authority_prefix_userinfo:
  assumes "parse_userinfo ui = Some u"
  shows "authority_prefix (ui @ ''@'') (Some u)"
proof -
  have valid: "valid_userinfo ui" using assms by (auto simp: parse_userinfo_def split: if_splits)
  have "\<not> contains_ctl ui" and "\<forall>c \<in> set ''/?#''. c \<notin> set ui"
    using valid_userinfo_chars [OF valid] by (auto simp: contains_ctl_def list_ex_iff)
  moreover have "parse_authority (ui @ ''@'' @ x) = map_option (\<lambda>h. (Some u, h)) (parse_host x)"
    if "CHR ''@'' \<notin> set x" for x
  proof -
    have "cut_last (CHR ''@'') (ui @ ''@'' @ x) = Some (ui, x)"
      using that by (simp add: cut_last_Some_iff)
    with assms show ?thesis by (auto simp: parse_authority_def split: option.splits)
  qed
  ultimately show ?thesis by (simp add: authority_prefix_def contains_ctl_def)
qed

lemma first_segment_append:
  "CHR ''/'' \<notin> set x \<Longrightarrow> first_segment (x @ y) = x @ first_segment y"
  by (induction x) (auto simp: first_segment_def)

lemma split_query_append:
  assumes "CHR ''?'' \<notin> set x"
  shows "split_query (x @ y) = (x @ fst (split_query y), snd (split_query y))"
  using cut_char_append [OF assms, of y] by (auto simp: split_query_def split: option.splits)

lemma drop_first_segment: "drop (length x + n) (x @ y) = drop n y"
  by simp

lemma parse_no_fragment_absolute:
  assumes sc: "scheme_ok sc" and pre: "authority_prefix pre usr"
    and at: "CHR ''@'' \<notin> set (first_segment (fst (split_query t)))"
  shows "parse_no_fragment (sc @ ''://'' @ pre @ t) = parse_after_host sc usr t"
proof -
  let ?raw = "sc @ ''://'' @ pre @ t"
  obtain path q fq where sq: "split_query t = (path, q, fq)" by (cases "split_query t") auto
  have slash: "CHR ''/'' \<notin> set pre" "CHR ''?'' \<notin> set pre" and no_ctl: "\<not> contains_ctl pre"
    using pre by (simp_all add: authority_prefix_def)
  have ctl: "contains_ctl ?raw \<longleftrightarrow> contains_ctl t"
    using scheme_no_ctl [OF sc] no_ctl by (simp add: contains_ctl_append) (simp add: contains_ctl_def)
  have star: "?raw \<noteq> ''*''" by (cases sc) auto
  have gs: "get_scheme ?raw = Some (sc, ''//'' @ pre @ t)"
    using get_scheme_absolute [OF sc] by simp
  have q: "split_query (''//'' @ pre @ t) = (''//'' @ pre @ path, q, fq)"
    using split_query_append [of "''//'' @ pre" t] slash sq by simp
  have seg: "first_segment (pre @ path) = pre @ first_segment path"
    using first_segment_append [OF slash(1)] .
  have auth: "parse_authority (pre @ first_segment path) =
      map_option (\<lambda>h. (usr, h)) (parse_host (first_segment path))"
    using pre at sq by (simp add: authority_prefix_def)
  have scheme: "u_scheme (absolute_base sc q fq) \<noteq> []"
    using sc by (simp add: absolute_base_def scheme_ok_def)
  have rest: "parse_rest (absolute_base sc q fq) (''//'' @ pre @ path) =
      (case parse_host (first_segment path) of None \<Rightarrow> None
        | Some h \<Rightarrow> set_path (drop (length (first_segment path)) path)
            ((absolute_base sc q fq)\<lparr>u_user := usr, u_host := h\<rparr>))"
    using scheme by (simp add: parse_rest_def seg auth Let_def split: option.splits)
  show ?thesis
  proof (cases "contains_ctl t")
    case True
    then show ?thesis by (simp only: parse_no_fragment_def parse_after_host_def ctl if_True)
  next
    case False
    have "parse_no_fragment ?raw = parse_rest (absolute_base sc q fq) (''//'' @ pre @ path)"
      unfolding parse_no_fragment_def absolute_base_def
      by (simp only: ctl False star gs q if_False option.case prod.case Let_def)
    with rest show ?thesis by (simp add: parse_after_host_def False sq)
  qed
qed

text \<open>The parser's answer with other user information differs in that field only.\<close>

lemma set_path_user:
  "set_path p (u\<lparr>u_user := x\<rparr>) = map_option (\<lambda>v. v\<lparr>u_user := x\<rparr>) (set_path p u)"
  by (cases "unescape Enc_path p") (simp_all add: set_path_def)

lemma parse_after_host_user:
  "parse_after_host sc usr t = map_option (\<lambda>v. v\<lparr>u_user := usr\<rparr>) (parse_after_host sc None t)"
proof -
  have none: "(absolute_base sc q fq)\<lparr>u_user := None, u_host := h\<rparr> =
      (absolute_base sc q fq)\<lparr>u_host := h\<rparr>" for q fq h
    by (simp add: absolute_base_def empty_url_def)
  have swap: "(absolute_base sc q fq)\<lparr>u_user := usr, u_host := h\<rparr> =
      ((absolute_base sc q fq)\<lparr>u_host := h\<rparr>)\<lparr>u_user := usr\<rparr>" for q fq h
    by simp
  show ?thesis
    unfolding parse_after_host_def
    by (auto simp: Let_def set_path_user none swap split: prod.splits option.splits simp del: url.simps)
qed

section \<open>Fragments\<close>

definition parse_absolute :: "string \<Rightarrow> (string \<times> string option) option \<Rightarrow> string \<Rightarrow> url option" where
  "parse_absolute sc usr t =
     (case cut ''#'' t of
        None \<Rightarrow> parse_after_host sc usr t
      | Some (a, frag) \<Rightarrow>
          (case parse_after_host sc usr a of None \<Rightarrow> None
           | Some v \<Rightarrow> if frag = [] then Some v else set_fragment frag v))"

definition host_part :: "string \<Rightarrow> string" where
  "host_part t = until_any t ''/?#''"

lemma prefix_takeWhile: "prefix x t \<Longrightarrow> \<forall>c \<in> set x. P c \<Longrightarrow> prefix x (takeWhile P t)"
  by (auto simp: prefix_def takeWhile_append2)

lemma host_part_segment:
  assumes "prefix a t" and "CHR ''#'' \<notin> set a"
  shows "set (first_segment (fst (split_query a))) \<subseteq> set (host_part t)"
proof -
  let ?x = "first_segment (fst (split_query a))"
  have q: "CHR ''?'' \<notin> set (fst (split_query a)) \<and> prefix (fst (split_query a)) a"
    using cut_char_None_iff [of "CHR ''?''" a]
    by (auto simp: split_query_def cut_char_Some_iff prefix_def split: option.splits)
  have x: "prefix ?x (fst (split_query a))" unfolding first_segment_def by (rule takeWhile_is_prefix)
  have "CHR ''/'' \<notin> set ?x" by (auto simp: first_segment_def dest: set_takeWhileD)
  moreover have "set ?x \<subseteq> set (fst (split_query a))" using x by (rule set_mono_prefix)
  moreover have "set (fst (split_query a)) \<subseteq> set a" using q set_mono_prefix by blast
  ultimately have "\<forall>c \<in> set ?x. c \<notin> set ''/?#''" using assms(2) q by auto
  moreover have "prefix ?x t" using x q assms(1) by (meson prefix_order.trans)
  ultimately have "prefix ?x (host_part t)"
    unfolding host_part_def until_any_def by (intro prefix_takeWhile)
  then show ?thesis by (rule set_mono_prefix)
qed

lemma url_parse_absolute:
  assumes sc: "scheme_ok sc" and pre: "authority_prefix pre usr"
    and at: "CHR ''@'' \<notin> set (host_part t)"
  shows "url_parse (sc @ ''://'' @ pre @ t) = parse_absolute sc usr t"
proof -
  have "CHR ''#'' \<notin> set sc"
    using sc scheme_char_props(2) by (fastforce simp: scheme_ok_def list_all_iff)
  moreover have "CHR ''#'' \<notin> set pre" using pre by (simp add: authority_prefix_def)
  ultimately have "CHR ''#'' \<notin> set (sc @ ''://'' @ pre)" by simp
  from cut_char_append [OF this, of t]
  have cut: "cut ''#'' (sc @ ''://'' @ pre @ t) =
      map_option (\<lambda>(a, b). (sc @ ''://'' @ pre @ a, b)) (cut ''#'' t)"
    by (simp add: case_prod_unfold)
  show ?thesis
  proof (cases "cut ''#'' t")
    case None
    then have "CHR ''#'' \<notin> set t" by (simp add: cut_char_None_iff)
    then have "CHR ''@'' \<notin> set (first_segment (fst (split_query t)))"
      using host_part_segment [of t t] at by blast
    from parse_no_fragment_absolute [OF sc pre this] None cut show ?thesis
      by (simp add: url_parse_def parse_absolute_def)
  next
    case (Some af)
    obtain a f where af: "af = (a, f)" by (cases af)
    with Some have "CHR ''#'' \<notin> set a" "prefix a t" by (auto simp: cut_char_Some_iff prefix_def)
    then have "CHR ''@'' \<notin> set (first_segment (fst (split_query a)))"
      using host_part_segment [of a t] at by blast
    from parse_no_fragment_absolute [OF sc pre this] Some af cut show ?thesis
      by (simp add: url_parse_def parse_absolute_def)
  qed
qed

lemma parse_absolute_user:
  "parse_absolute sc usr t = map_option (\<lambda>v. v\<lparr>u_user := usr\<rparr>) (parse_absolute sc None t)"
proof -
  have frag: "set_fragment f (v\<lparr>u_user := usr\<rparr>) =
      map_option (\<lambda>v. v\<lparr>u_user := usr\<rparr>) (set_fragment f v)" for f v
    by (cases "unescape Enc_fragment f") (simp_all add: set_fragment_def)
  show ?thesis
    unfolding parse_absolute_def parse_after_host_user [of sc usr]
    by (auto simp: frag split: option.splits)
qed

end
