(* ===== verification/Config_Facts.thy ===== *)
theory Config_Facts
  imports Config Url_Facts
begin

text \<open>
  What \<open>Load\<close> guarantees of a configuration it returns, and what it reports when it does not.
\<close>

section \<open>Values that went through validation\<close>

definition http_url :: "unicode_case \<Rightarrow> string \<Rightarrow> bool" where
  "http_url uc raw \<longleftrightarrow>
     (case url_parse raw of None \<Rightarrow> False
      | Some u \<Rightarrow> u_host u \<noteq> [] \<and> to_lower uc (u_scheme u) \<in> {''http'', ''https''})"

definition amqp_url :: "unicode_case \<Rightarrow> string \<Rightarrow> bool" where
  "amqp_url uc raw \<longleftrightarrow>
     (case url_parse raw of None \<Rightarrow> False
      | Some u \<Rightarrow> to_lower uc (u_scheme u) \<in> {''amqp'', ''amqps''} \<and> url_hostname u \<noteq> [] \<and>
          (url_port u = [] \<or> validAMQPPort (url_port u)))"

lemma validateURL_None_iff: "validateURL uc name raw = None \<longleftrightarrow> http_url uc raw"
  by (simp add: validateURL_def http_url_def Let_def split: option.splits)

lemma validateAMQPURL_None_iff: "validateAMQPURL uc raw = None \<longleftrightarrow> amqp_url uc raw"
  by (auto simp: validateAMQPURL_def amqp_url_def split: option.splits)

lemma opt_err_Nil_iff [simp]: "opt_err e = [] \<longleftrightarrow> e = None"
  by (simp add: opt_err_def split: option.splits)

lemma int_var_Nil:
  assumes "int_var env name d chk = (n, [])"
  shows "n = d \<or> chk n = None \<and> min_int64 \<le> n \<and> n \<le> max_int64"
  using assms
  by (auto simp: int_var_def Let_def dest: atoi_range split: if_splits option.splits)

lemma int_var_range:
  assumes "int_var env name d chk = (n, es)"
  shows "n = d \<or> chk n = None \<and> min_int64 \<le> n \<and> n \<le> max_int64"
  using assms
  by (auto simp: int_var_def Let_def dest: atoi_range split: if_splits option.splits)

lemma required_errs_Nil_iff: "required_errs vs = [] \<longleftrightarrow> (\<forall>(n, v) \<in> set vs. v \<noteq> [])"
  by (induction vs) (auto simp: required_errs_def List.map_filter_def split: if_splits)

lemma required_errs_mem:
  "(name, []) \<in> set vs \<Longrightarrow>
     Err_fmt ''%s is required and must be non-empty'' [A_str name] \<in> set (required_errs vs)"
  by (induction vs) (auto simp: required_errs_def List.map_filter_def)

section \<open>Durations do not overflow where a maximum is configured\<close>

lemma wrap64_seconds:
  "0 \<le> s \<Longrightarrow> s \<le> 9223372036 \<Longrightarrow> wrap64 (s * second) = s * second"
  by (rule wrap64_id) (auto simp: second_def min_int64_def max_int64_def)

lemma rabbitMQConnectTimeout_seconds:
  "\<exists>n. fst (rabbitMQConnectTimeout env) = n * second \<and> 1 \<le> n \<and> n \<le> 300"
proof -
  obtain n es where *: "int_var env ''RABBITMQ_CONNECT_TIMEOUT_SECONDS''
      defaultRabbitMQConnectTimeoutSeconds
      (\<lambda>value. if value < 1 then
             Some (Err_fmt ''RABBITMQ_CONNECT_TIMEOUT_SECONDS must be > 0 (got %d)'' [A_int value])
           else if maxRabbitMQConnectTimeoutSeconds < value then
             Some (Err_fmt ''RABBITMQ_CONNECT_TIMEOUT_SECONDS must be <= %d (got %d)''
               [A_int maxRabbitMQConnectTimeoutSeconds, A_int value])
           else None) = (n, es)" (is "?iv = _")
    by (cases ?iv) auto
  from int_var_range [OF *] have "1 \<le> n \<and> n \<le> 300"
    by (auto simp: defaultRabbitMQConnectTimeoutSeconds_def maxRabbitMQConnectTimeoutSeconds_def
        split: if_splits)
  moreover from this have "wrap64 (n * second) = n * second" by (intro wrap64_seconds) auto
  moreover have "fst (rabbitMQConnectTimeout env) = wrap64 (n * second)"
    using * by (simp add: rabbitMQConnectTimeout_def)
  ultimately show ?thesis by auto
qed

lemma rabbitMQConnectTimeout_range:
  "second \<le> fst (rabbitMQConnectTimeout env) \<and> fst (rabbitMQConnectTimeout env) \<le> 300 * second"
  using rabbitMQConnectTimeout_seconds [of env] by (auto simp: second_def)

lemma load_ollama_timeout_range:
  "1 \<le> fst (load_ollama_timeout env) \<and> fst (load_ollama_timeout env) \<le> 3600"
proof -
  obtain n es where *: "load_ollama_timeout env = (n, es)" by (cases "load_ollama_timeout env")
  from int_var_range [OF this [unfolded load_ollama_timeout_def]] show ?thesis
    unfolding * by (auto simp: defaultOllamaTimeoutSeconds_def maxOllamaTimeoutSeconds_def
        split: if_splits)
qed

lemma rabbitMQPrefetch_range:
  "1 \<le> fst (rabbitMQPrefetch env) \<and> fst (rabbitMQPrefetch env) \<le> 65535"
proof -
  obtain n es where *: "rabbitMQPrefetch env = (n, es)" by (cases "rabbitMQPrefetch env")
  from int_var_range [OF this [unfolded rabbitMQPrefetch_def]] show ?thesis
    unfolding * by (auto simp: defaultRabbitMQPrefetch_def maxRabbitMQPrefetch_def split: if_splits)
qed

lemma load_ollama_max_tokens_range: "1 \<le> fst (load_ollama_max_tokens env)"
proof -
  obtain n es where *: "load_ollama_max_tokens env = (n, es)" by (cases "load_ollama_max_tokens env")
  from int_var_range [OF this [unfolded load_ollama_max_tokens_def]] show ?thesis
    unfolding * by (auto simp: defaultOllamaMaxTokens_def split: if_splits)
qed

lemma load_ollama_max_output_chars_range: "0 \<le> fst (load_ollama_max_output_chars env)"
proof -
  obtain n es where *: "load_ollama_max_output_chars env = (n, es)"
    by (cases "load_ollama_max_output_chars env")
  from int_var_range [OF this [unfolded load_ollama_max_output_chars_def]] show ?thesis
    unfolding * by (auto split: if_splits)
qed

definition temperature_ok :: "float64 \<Rightarrow> bool" where
  "temperature_ok t \<longleftrightarrow> (case t of F_fin r \<Rightarrow> 0 \<le> r \<and> r \<le> 2 | _ \<Rightarrow> False)"

lemma load_ollama_temperature_ok: "temperature_ok (fst (load_ollama_temperature pf env))"
proof -
  have "temperature_ok defaultOllamaTemperature"
    by (simp add: temperature_ok_def defaultOllamaTemperature_def)
  moreover have "temperature_ok t"
    if "\<not> is_nan t" "\<not> is_inf t" "\<not> float_less t 0" "\<not> float_greater t 2" for t
    using that by (cases t) (auto simp: temperature_ok_def is_nan_def is_inf_def)
  ultimately show ?thesis
    by (auto simp: load_ollama_temperature_def Let_def split: option.splits)
qed

section \<open>Names and prompts\<close>

lemma rabbitMQName_ok:
  assumes "rabbitMQName env name fallback = (n, [])"
    and "fallback \<noteq> []" and "length fallback \<le> maxRabbitMQNameBytes"
  shows "n \<noteq> [] \<and> length n \<le> maxRabbitMQNameBytes"
  using assms by (auto simp: rabbitMQName_def Let_def split: option.splits if_splits)

lemma load_ollama_prompt_not_blank: "load_ollama_prompt env \<noteq> []"
  by (simp add: load_ollama_prompt_def Let_def DefaultOllamaSystemPrompt_def)

section \<open>Handles\<close>

definition handle_ok :: "string \<Rightarrow> bool" where
  "handle_ok h \<longleftrightarrow>
     (case cut ''@'' h of None \<Rightarrow> False
      | Some (loc, domain) \<Rightarrow> loc \<noteq> [] \<and> domain \<noteq> [] \<and> CHR ''@'' \<notin> set domain)"

lemma unescape_host_no_at:
  assumes "m = Enc_host \<or> m = Enc_zone"
  shows "unescape m s = Some t \<Longrightarrow> CHR ''@'' \<notin> set t"
  using assms
proof (induction m s arbitrary: t rule: unescape.induct)
  case (2 m c s)
  have at: "should_escape m (CHR ''@'')" and at': "should_escape Enc_host (CHR ''@'')"
    using "2.prems"(2) by (auto simp: should_escape_def is_alpha_def is_lower_def is_upper_def
        is_digit_def in_range_def)
  show ?case
  proof (cases "c = CHR ''%''")
    case True
    with "2.prems"(1) obtain a b u t' where s: "s = a # b # u"
      and ok: "is_hex a" "is_hex b" "escape_allowed m a b"
      and t': "unescape m u = Some t'" "t = char_of (16 * unhex a + unhex b) # t'"
      by (auto split: list.splits if_splits)
    have "char_of (16 * unhex a + unhex b) \<noteq> CHR ''@''"
    proof
      assume eq: "char_of (16 * unhex a + unhex b) = CHR ''@''"
      have "unhex a < 16 \<and> unhex b < 16"
        using ok by (auto simp: is_hex_def unhex_def is_digit_def in_range_def)
      moreover have "(16 * unhex a + unhex b) mod 256 = 64"
        using arg_cong [OF eq, of byte] by simp
      ultimately have v: "16 * unhex a + unhex b = 64" by simp
      then have "unhex a < 8" by simp
      moreover have "[a, b] \<noteq> ''25''"
        using v by (auto simp: unhex_def is_digit_def in_range_def)
      moreover have "should_escape Enc_host (char_of (64 :: nat))" using eq v at' by simp
      ultimately show False
        using ok(3) "2.prems"(2) v by (auto simp: escape_allowed_def Let_def)
    qed
    with "2.IH"(1) True s ok t' "2.prems"(2) show ?thesis by auto
  next
    case False
    show ?thesis
    proof (cases "c = CHR ''+''")
      case True
      with 2 False show ?thesis by auto
    next
      case plus: False
      with 2 False at show ?thesis
        by (auto simp: is_ascii_def split: if_splits)
    qed
  qed
qed simp

lemma parse_host_no_at:
  assumes "parse_host h = Some x"
  shows "CHR ''@'' \<notin> set x"
proof -
  note no = unescape_host_no_at [OF disjI1 [OF refl]] unescape_host_no_at [OF disjI2 [OF refl]]
  show ?thesis
    using assms unfolding parse_host_def
    by (auto simp del: unescape.simps dest: no split: if_splits option.splits prod.splits)
qed

lemma parse_authority_no_at: "parse_authority a = Some (ui, h) \<Longrightarrow> CHR ''@'' \<notin> set h"
  by (auto simp: parse_authority_def dest: parse_host_no_at split: option.splits)

lemma set_path_host: "set_path p u = Some v \<Longrightarrow> u_host v = u_host u"
  by (auto simp: set_path_def)

lemma parse_rest_no_at:
  assumes "parse_rest u rest = Some v" and "u_host u = []"
  shows "CHR ''@'' \<notin> set (u_host v)"
  using assms
  by (auto simp: parse_rest_def Let_def dest!: set_path_host dest: parse_authority_no_at
      split: if_splits option.splits)

lemma parse_no_fragment_no_at:
  assumes "parse_no_fragment raw = Some v"
  shows "CHR ''@'' \<notin> set (u_host v)"
proof (cases "raw = ''*''")
  case True
  with assms show ?thesis
    unfolding parse_no_fragment_def by (simp add: empty_url_def split: if_splits) auto
next
  case False
  with assms obtain sc rest path q fq where "parse_rest (empty_url\<lparr>u_scheme := sc,
      u_force_query := fq, u_raw_query := q\<rparr>) path = Some v"
    unfolding parse_no_fragment_def
    by (auto split: if_splits option.splits prod.splits)
  then show ?thesis by (rule parse_rest_no_at) (simp add: empty_url_def)
qed

lemma url_parse_no_at:
  assumes "url_parse raw = Some u"
  shows "CHR ''@'' \<notin> set (u_host u)"
proof (cases "cut ''#'' raw")
  case None
  with assms have "parse_no_fragment raw = Some u" by (simp add: url_parse_def)
  then show ?thesis by (rule parse_no_fragment_no_at)
next
  case (Some uf)
  obtain r f where uf: "uf = (r, f)" by (cases uf)
  with assms Some obtain v where v: "parse_no_fragment r = Some v"
    by (simp add: url_parse_def split: option.splits)
  with assms Some uf have "u_host u = u_host v"
    by (auto simp add: url_parse_def set_fragment_def split: if_splits)
  with parse_no_fragment_no_at [OF v] show ?thesis by simp
qed

lemma set_butlast_tl: "set (butlast (tl h)) \<subseteq> set h"
  by (cases h) (auto dest: in_set_butlastD)

lemma split_host_port_subset: "set (fst (split_host_port hp)) \<subseteq> set hp"
proof -
  obtain h p where hp: "(case cut_last (CHR '':'') hp of
      Some (a, port) \<Rightarrow> if valid_optional_port (CHR '':'' # port) then (a, port) else (hp, [])
    | None \<Rightarrow> (hp, [])) = (h, p)" (is "?c = _") by (cases ?c)
  then have "set h \<subseteq> set hp"
    by (auto simp: cut_last_Some_iff split: option.splits if_splits)
  moreover have "fst (split_host_port hp) \<in> {h, butlast (tl h)}"
    unfolding split_host_port_def hp by simp
  ultimately show ?thesis using set_butlast_tl [of h] by auto
qed

lemma url_hostname_subset: "set (url_hostname u) \<subseteq> set (u_host u)"
  by (simp add: url_hostname_def split_host_port_subset)

lemma instanceHostname_no_at: "CHR ''@'' \<notin> set (instanceHostname inst)"
proof (cases "url_parse inst")
  case (Some u)
  from url_parse_no_at [OF Some] have "CHR ''@'' \<notin> set (url_hostname u)"
    using url_hostname_subset by blast
  with Some show ?thesis by (simp add: instanceHostname_def)
qed (simp add: instanceHostname_def)

lemma handle_ok_full:
  assumes "cut ''@'' h = Some (loc, domain)" "loc \<noteq> []" "domain \<noteq> []"
    and "\<not> 1 < count_list h (CHR ''@'')"
  shows "handle_ok h"
proof -
  from assms(1) have "h = loc @ CHR ''@'' # domain" by (simp add: cut_char_Some_iff)
  with assms(4) have "count_list domain (CHR ''@'') = 0" by simp
  then have "CHR ''@'' \<notin> set domain" by (simp add: count_list_0_iff)
  with assms show ?thesis by (simp add: handle_ok_def)
qed

lemma handle_ok_short:
  "CHR ''@'' \<notin> set h \<Longrightarrow> h \<noteq> [] \<Longrightarrow> instanceHostname inst \<noteq> [] \<Longrightarrow>
     handle_ok (h @ ''@'' @ instanceHostname inst)"
  using instanceHostname_no_at [of inst] by (simp add: handle_ok_def cut_char)

lemma normalizeRecipient_handle:
  assumes "normalizeRecipient raw inst = Inr r"
  shows "handle_ok r"
proof -
  define h where "h = trim_prefix (trim_space raw) ''@''"
  note def = normalizeRecipient_def [of raw inst, unfolded Let_def, folded h_def]
  from assms def have h: "h \<noteq> []" "\<not> 1 < count_list h (CHR ''@'')"
    by (metis Inl_Inr_False)+
  show ?thesis
  proof (cases "cut ''@'' h")
    case None
    then have "CHR ''@'' \<notin> set h" by (simp add: cut_char_None_iff)
    moreover have "instanceHostname inst \<noteq> []" and "r = h @ ''@'' @ instanceHostname inst"
      using assms h None unfolding def by (auto split: if_splits)
    ultimately show ?thesis using handle_ok_short h by simp
  next
    case (Some ld)
    obtain loc domain where ld: "ld = (loc, domain)" by (cases ld)
    have "loc \<noteq> []" and "domain \<noteq> []" and "r = h"
      using assms h Some ld unfolding def by (auto split: if_splits)
    then show ?thesis using handle_ok_full h Some ld by simp
  qed
qed

section \<open>Key prefix\<close>

definition clean_path :: "string \<Rightarrow> bool" where
  "clean_path p \<longleftrightarrow> (p = [] \<or> [] \<notin> set (split_on (CHR ''/'') p))"

lemma clean_path_ends:
  assumes "clean_path p" and "p \<noteq> []"
  shows "hd p \<noteq> CHR ''/''" and "last p \<noteq> CHR ''/''"
proof -
  show "hd p \<noteq> CHR ''/''" using assms by (cases p) (auto simp: clean_path_def)
  show "last p \<noteq> CHR ''/''"
  proof
    assume "last p = CHR ''/''"
    with assms(2) obtain q where q: "p = q @ ''/''" by (metis append_butlast_last_id)
    have "[] \<in> set (split_on (CHR ''/'') (q @ ''/''))"
      by (simp add: split_on_concat)
    with assms q show False by (simp add: clean_path_def)
  qed
qed

lemma clean_path_join:
  assumes "\<And>x. x \<in> set xs \<Longrightarrow> x \<noteq> [] \<and> CHR ''/'' \<notin> set x"
  shows "clean_path (join ''/'' xs)"
proof (cases "xs = []")
  case False
  then have "split_on (CHR ''/'') (join ''/'' xs) = xs" by (rule split_join) (use assms in blast)
  with assms show ?thesis by (auto simp: clean_path_def)
qed (simp add: clean_path_def)

lemma cfg_normalizePrefix_clean: "clean_path (cfg_normalizePrefix raw)"
  unfolding cfg_normalizePrefix_def
  by (rule clean_path_join) (auto dest: split_on_no_sep)

section \<open>What Load returns\<close>

definition s3_ok :: "unicode_case \<Rightarrow> s3_config \<Rightarrow> bool" where
  "s3_ok uc c \<longleftrightarrow> http_url uc (s3_Endpoint c) \<and> s3_Bucket c \<noteq> [] \<and> s3_AccessKey c \<noteq> [] \<and>
     s3_SecretKey c \<noteq> [] \<and> clean_path (s3_PathPrefix c) \<and>
     (\<exists>n. 0 < n \<and> n \<le> max_int64 \<and> s3_Timeout c = wrap64 (n * second))"

definition ollama_ok :: "unicode_case \<Rightarrow> ollama_config \<Rightarrow> bool" where
  "ollama_ok uc c \<longleftrightarrow> http_url uc (ol_BaseURL c) \<and> ol_Model c \<noteq> [] \<and> ol_SystemPrompt c \<noteq> [] \<and>
     second \<le> ol_Timeout c \<and> ol_Timeout c \<le> 3600 * second \<and> temperature_ok (ol_Temperature c) \<and>
     1 \<le> ol_MaxTokens c \<and> 0 \<le> ol_MaxOutputChars c"

definition amqp_name :: "string \<Rightarrow> bool" where
  "amqp_name n \<longleftrightarrow> n \<noteq> [] \<and> length n \<le> 255"

definition rabbitmq_ok :: "unicode_case \<Rightarrow> rabbitmq_config \<Rightarrow> bool" where
  "rabbitmq_ok uc c \<longleftrightarrow> amqp_url uc (rq_URL c) \<and> amqp_name (rq_InputExchange c) \<and>
     rq_InputExchangeType c \<in> {''direct'', ''topic'', ''fanout'', ''headers''} \<and>
     amqp_name (rq_InputRoutingKey c) \<and> amqp_name (rq_Queue c) \<and>
     1 \<le> rq_Prefetch c \<and> rq_Prefetch c \<le> 65535 \<and>
     second \<le> rq_ConnectTimeout c \<and> rq_ConnectTimeout c \<le> 300 * second"

definition config_ok :: "unicode_case \<Rightarrow> config \<Rightarrow> bool" where
  "config_ok uc c \<longleftrightarrow>
     http_url uc (cf_GotoSocialInstance c) \<and> cf_GotoSocialUser c \<noteq> [] \<and>
     cf_GotoSocialToken c \<noteq> [] \<and>
     cf_GotoSocialAudience c \<in> {AudienceGlobal, AudienceLocal, AudienceDirect} \<and>
     (if cf_GotoSocialAudience c = AudienceDirect then handle_ok (cf_GotoSocialRecipient c)
      else cf_GotoSocialRecipient c = []) \<and>
     s3_ok uc (cf_S3 c) \<and> ollama_ok uc (cf_Ollama c) \<and> rabbitmq_ok uc (cf_RabbitMQ c)"

lemma load_ollama_ok:
  assumes "load_ollama pf uc env = (c, [])"
  shows "ollama_ok uc c"
proof -
  have "wrap64 (fst (load_ollama_timeout env) * second) = fst (load_ollama_timeout env) * second"
    using load_ollama_timeout_range [of env] by (intro wrap64_seconds) auto
  moreover have "second \<le> fst (load_ollama_timeout env) * second"
      "fst (load_ollama_timeout env) * second \<le> 3600 * second"
    using load_ollama_timeout_range [of env] by (simp_all add: second_def)
  ultimately show ?thesis
    using assms load_ollama_temperature_ok [of pf env] load_ollama_max_tokens_range [of env]
      load_ollama_max_output_chars_range [of env] load_ollama_prompt_not_blank [of env]
    by (auto simp: load_ollama_def ollama_ok_def validateURL_None_iff split: prod.splits if_splits)
qed

lemma loadRabbitMQConfig_ok:
  assumes "loadRabbitMQConfig uc env = (c, [])"
  shows "rabbitmq_ok uc c"
proof -
  have fallback: "defaultRabbitMQInputExchange \<noteq> []" "defaultRabbitMQInputRoutingKey \<noteq> []"
    "defaultRabbitMQQueue \<noteq> []" "length defaultRabbitMQInputExchange \<le> maxRabbitMQNameBytes"
    "length defaultRabbitMQInputRoutingKey \<le> maxRabbitMQNameBytes"
    "length defaultRabbitMQQueue \<le> maxRabbitMQNameBytes"
    by (simp_all add: defaultRabbitMQInputExchange_def defaultRabbitMQInputRoutingKey_def
        defaultRabbitMQQueue_def maxRabbitMQNameBytes_def)
  have name: "amqp_name n" if "rabbitMQName env v d = (n, [])" "d \<noteq> []"
      "length d \<le> maxRabbitMQNameBytes" for n v d
    using rabbitMQName_ok [OF that] by (simp add: amqp_name_def maxRabbitMQNameBytes_def)
  have url: "amqp_url uc u" if "rabbitMQURL uc env = (u, [])" for u
    using that by (auto simp: rabbitMQURL_def Let_def validateAMQPURL_None_iff split: option.splits)
  have type: "t \<in> {''direct'', ''topic'', ''fanout'', ''headers''}"
    if "rabbitMQExchangeType uc env = (t, [])" for t
    using that by (auto simp: rabbitMQExchangeType_def Let_def
        defaultRabbitMQInputExchangeType_def split: if_splits)
  show ?thesis
    using assms rabbitMQPrefetch_range [of env] rabbitMQConnectTimeout_range [of env] fallback
    unfolding loadRabbitMQConfig_def rabbitmq_ok_def
    by (auto split: prod.splits intro: name url dest: type)
qed

lemma load_audience_ok:
  "load_audience uc env = (a, []) \<Longrightarrow> a \<in> {AudienceGlobal, AudienceLocal, AudienceDirect}"
  by (auto simp: load_audience_def Let_def split: if_splits)

lemma load_recipient_ok:
  "load_recipient env a inst = (r, []) \<Longrightarrow>
     if a = AudienceDirect then handle_ok r else r = []"
  by (auto simp: load_recipient_def dest: normalizeRecipient_handle split: if_splits sum.splits)

lemma load_s3_timeout_seconds:
  "\<exists>n. 0 < n \<and> n \<le> max_int64 \<and> fst (load_s3_timeout env) = wrap64 (n * second)"
proof -
  obtain n es where *: "int_var env ''S3_TIMEOUT_SECONDS'' defaultS3TimeoutSeconds
      (\<lambda>seconds. if seconds \<le> 0
         then Some (Err_fmt ''S3_TIMEOUT_SECONDS must be > 0 (got %d)'' [A_int seconds])
         else None) = (n, es)" (is "?iv = _")
    by (cases ?iv) auto
  from int_var_range [OF *] have "0 < n \<and> n \<le> max_int64"
    by (auto simp: defaultS3TimeoutSeconds_def max_int64_def split: if_splits)
  moreover have "fst (load_s3_timeout env) = wrap64 (n * second)"
    using * by (simp add: load_s3_timeout_def)
  ultimately show ?thesis by blast
qed

lemma load_s3_ok:
  assumes "load_s3 env = (c, [])"
  shows "clean_path (s3_PathPrefix c) \<and>
    (\<exists>n. 0 < n \<and> n \<le> max_int64 \<and> s3_Timeout c = wrap64 (n * second))"
proof -
  have "s3_Timeout c = fst (load_s3_timeout env)" and "snd (load_s3_timeout env) = []"
    and "s3_PathPrefix c = cfg_normalizePrefix (getEnv env ''S3_PATH_PREFIX'' [])"
    using assms by (auto simp: load_s3_def split_beta)
  then show ?thesis
    using load_s3_timeout_seconds [of env] by (simp add: cfg_normalizePrefix_clean)
qed

lemma Load_config_ok:
  assumes "Load pf uc env = Inr c"
  shows "config_ok uc c"
  using assms unfolding Load_def config_ok_def s3_ok_def
  by (auto simp: Let_def required_errs_Nil_iff validateURL_None_iff
      dest: load_s3_ok load_ollama_ok loadRabbitMQConfig_ok load_audience_ok load_recipient_ok
      split: prod.splits if_splits)

section \<open>What Load reports\<close>

definition load_parts_errs :: "(string \<Rightarrow> float64 option) \<Rightarrow> unicode_case \<Rightarrow> env \<Rightarrow> errs" where
  "load_parts_errs pf uc env =
     (let inst = trimmed_env env ''GOTOSOCIAL_INSTANCE'' [] in
      (if inst \<noteq> [] then opt_err (validateURL uc ''GOTOSOCIAL_INSTANCE'' inst) else []) @
      opt_err (validateURL uc ''S3_ENDPOINT'' (trimmed_env env ''S3_ENDPOINT'' defaultS3Endpoint)) @
      snd (load_audience uc env) @ snd (load_recipient env (fst (load_audience uc env)) inst) @
      snd (load_s3_timeout env) @ snd (load_ollama pf uc env) @ snd (loadRabbitMQConfig uc env))"

definition required_names :: "string list" where
  "required_names = [''GOTOSOCIAL_INSTANCE'', ''GOTOSOCIAL_USER'', ''GOTOSOCIAL_TOKEN'',
     ''S3_BUCKET'', ''S3_ACCESS_KEY'', ''S3_SECRET_KEY'']"

definition load_errs :: "(string \<Rightarrow> float64 option) \<Rightarrow> unicode_case \<Rightarrow> env \<Rightarrow> errs" where
  "load_errs pf uc env =
     required_errs (map (\<lambda>n. (n, trimmed_env env n [])) required_names) @ load_parts_errs pf uc env"

text \<open>\<open>Load\<close> fails exactly when one of its parts has something to report.\<close>

lemma Load_Inl: "load_errs pf uc env \<noteq> [] \<Longrightarrow> Load pf uc env = Inl (load_errs pf uc env)"
  by (simp add: Load_def load_errs_def load_parts_errs_def required_names_def load_s3_def Let_def
      split_beta)

lemma Load_Inr: "load_errs pf uc env = [] \<Longrightarrow> \<exists>c. Load pf uc env = Inr c"
  by (simp add: Load_def load_errs_def load_parts_errs_def required_names_def load_s3_def Let_def
      split_beta)

lemma Load_Inl_iff: "Load pf uc env = Inl es \<longleftrightarrow> load_errs pf uc env = es \<and> es \<noteq> []"
  using Load_Inl [of pf uc env] Load_Inr [of pf uc env] by (cases "load_errs pf uc env = []") auto

lemma load_errs_missing:
  assumes "n \<in> set required_names" and "trimmed_env env n [] = []"
  shows "Err_fmt ''%s is required and must be non-empty'' [A_str n] \<in> set (load_errs pf uc env)"
proof -
  have "(n, []) \<in> set (map (\<lambda>n. (n, trimmed_env env n [])) required_names)"
    using assms by force
  from required_errs_mem [OF this] show ?thesis unfolding load_errs_def by simp
qed

section \<open>Secrets\<close>

definition secret_names :: "string list" where
  "secret_names = [''GOTOSOCIAL_TOKEN'', ''S3_ACCESS_KEY'', ''S3_SECRET_KEY'']"

text \<open>
  Two environments that differ in secrets only: the three secret variables may hold anything as
  long as they are blank in both or in neither, and the broker URL may be anything at all.
\<close>

definition same_but_secrets :: "env \<Rightarrow> env \<Rightarrow> bool" where
  "same_but_secrets env env' \<longleftrightarrow>
     (\<forall>n. n \<notin> set (''RABBITMQ_URL'' # secret_names) \<longrightarrow> env n = env' n) \<and>
     (\<forall>n \<in> set secret_names. trimmed_env env n [] = [] \<longleftrightarrow> trimmed_env env' n [] = [])"

text \<open>The four messages about the broker URL, which have no operands.\<close>

definition broker_url_messages :: errs where
  "broker_url_messages =
     [Err_fmt ''RABBITMQ_URL must include a valid port (1-65535)'' [],
      Err_fmt ''RABBITMQ_URL must be a valid amqp:// or amqps:// URI with a host'' [],
      Err_fmt ''RABBITMQ_URL must use the amqp:// or amqps:// scheme'' [],
      Err_fmt ''RABBITMQ_URL must include a host'' []]"

text \<open>What is left of the messages without those four.\<close>

definition other_messages :: "errs \<Rightarrow> errs" where
  "other_messages = filter (\<lambda>e. e \<notin> set broker_url_messages)"

lemma rabbitMQURL_messages: "set (snd (rabbitMQURL uc env)) \<subseteq> set broker_url_messages"
  by (auto simp: rabbitMQURL_def validateAMQPURL_def Let_def broker_url_messages_def err_amqp_port_def
      err_amqp_uri_def err_amqp_scheme_def err_amqp_host_def split: option.splits if_splits)

lemma rabbitMQURL_no_others: "other_messages (snd (rabbitMQURL uc env)) = []"
  using rabbitMQURL_messages [of uc env] by (auto simp: other_messages_def filter_empty_conv)

lemma other_messages_append: "other_messages (a @ b) = other_messages a @ other_messages b"
  by (simp add: other_messages_def)

lemma required_errs_cong:
  assumes "\<And>n. n \<in> set ns \<Longrightarrow> f n = [] \<longleftrightarrow> g n = []"
  shows "required_errs (map (\<lambda>n. (n, f n)) ns) = required_errs (map (\<lambda>n. (n, g n)) ns)"
  using assms by (induction ns) (auto simp: required_errs_def List.map_filter_def)

lemma getEnv_cong: "env n = env' n \<Longrightarrow> getEnv env n d = getEnv env' n d"
  by (simp add: getEnv_def)

lemma load_errs_same_but_secrets:
  assumes "same_but_secrets env env'"
  shows "other_messages (load_errs pf uc env) = other_messages (load_errs pf uc env')"
    and "env ''RABBITMQ_URL'' = env' ''RABBITMQ_URL'' \<Longrightarrow> load_errs pf uc env = load_errs pf uc env'"
proof -
  have pub: "n \<notin> set (''RABBITMQ_URL'' # secret_names) \<Longrightarrow> env n = env' n" for n
    using assms unfolding same_but_secrets_def by blast
  have eqs: "env ''GOTOSOCIAL_INSTANCE'' = env' ''GOTOSOCIAL_INSTANCE''"
    "env ''S3_ENDPOINT'' = env' ''S3_ENDPOINT''"
    "env ''GOTOSOCIAL_AUDIENCE'' = env' ''GOTOSOCIAL_AUDIENCE''"
    "env ''GOTOSOCIAL_RECIPIENT'' = env' ''GOTOSOCIAL_RECIPIENT''"
    "env ''S3_TIMEOUT_SECONDS'' = env' ''S3_TIMEOUT_SECONDS''"
    "env ''OLLAMA_ENABLED'' = env' ''OLLAMA_ENABLED''"
    "env ''OLLAMA_TIMEOUT_SECONDS'' = env' ''OLLAMA_TIMEOUT_SECONDS''"
    "env ''OLLAMA_TEMPERATURE'' = env' ''OLLAMA_TEMPERATURE''"
    "env ''OLLAMA_MAX_TOKENS'' = env' ''OLLAMA_MAX_TOKENS''"
    "env ''OLLAMA_MAX_OUTPUT_CHARS'' = env' ''OLLAMA_MAX_OUTPUT_CHARS''"
    "env ''OLLAMA_SYSTEM_PROMPT'' = env' ''OLLAMA_SYSTEM_PROMPT''"
    "env ''OLLAMA_BASE_URL'' = env' ''OLLAMA_BASE_URL''"
    "env ''OLLAMA_MODEL'' = env' ''OLLAMA_MODEL''"
    "env ''RABBITMQ_INPUT_EXCHANGE'' = env' ''RABBITMQ_INPUT_EXCHANGE''"
    "env ''RABBITMQ_INPUT_EXCHANGE_TYPE'' = env' ''RABBITMQ_INPUT_EXCHANGE_TYPE''"
    "env ''RABBITMQ_INPUT_ROUTING_KEY'' = env' ''RABBITMQ_INPUT_ROUTING_KEY''"
    "env ''RABBITMQ_QUEUE'' = env' ''RABBITMQ_QUEUE''"
    "env ''RABBITMQ_PREFETCH'' = env' ''RABBITMQ_PREFETCH''"
    "env ''RABBITMQ_CONNECT_TIMEOUT_SECONDS'' = env' ''RABBITMQ_CONNECT_TIMEOUT_SECONDS''"
    by (rule pub; simp add: secret_names_def)+
  have s3: "load_s3_timeout env = load_s3_timeout env'"
    by (simp add: load_s3_timeout_def int_var_def getEnv_def eqs)
  have aud: "load_audience uc env = load_audience uc env'"
    by (simp add: load_audience_def getEnv_def eqs)
  have rec: "load_recipient env a i = load_recipient env' a i" for a i
    by (simp add: load_recipient_def getEnv_def eqs)
  have oll: "load_ollama pf uc env = load_ollama pf uc env'"
    by (simp add: load_ollama_def load_ollama_enabled_def load_ollama_timeout_def
        load_ollama_temperature_def load_ollama_max_tokens_def load_ollama_max_output_chars_def
        load_ollama_prompt_def int_var_def getEnv_def eqs)
  let ?rest = "snd (loadRabbitMQConfig uc env)" and ?rest' = "snd (loadRabbitMQConfig uc env')"
  obtain es where rab: "?rest = snd (rabbitMQURL uc env) @ es" "?rest' = snd (rabbitMQURL uc env') @ es"
    by (simp add: loadRabbitMQConfig_def rabbitMQName_def rabbitMQExchangeType_def
        rabbitMQPrefetch_def rabbitMQConnectTimeout_def int_var_def getEnv_def eqs split_beta)
  obtain ps where parts: "load_parts_errs pf uc env = ps @ ?rest" "load_parts_errs pf uc env' = ps @ ?rest'"
    unfolding load_parts_errs_def by (simp add: s3 aud rec oll getEnv_def eqs Let_def)
  have "trimmed_env env n [] = [] \<longleftrightarrow> trimmed_env env' n [] = []"
    if "n \<in> set required_names" for n
  proof (cases "n \<in> set secret_names")
    case True
    with assms show ?thesis unfolding same_but_secrets_def by blast
  next
    case False
    with that have "env n = env' n"
      by (intro pub) (auto simp: required_names_def)
    then show ?thesis by (simp add: getEnv_def)
  qed
  then have req: "required_errs (map (\<lambda>n. (n, trimmed_env env n [])) required_names) =
      required_errs (map (\<lambda>n. (n, trimmed_env env' n [])) required_names)"
    by (rule required_errs_cong)
  show "other_messages (load_errs pf uc env) = other_messages (load_errs pf uc env')"
    unfolding load_errs_def parts rab req by (simp add: other_messages_append rabbitMQURL_no_others)
  show "load_errs pf uc env = load_errs pf uc env'" if "env ''RABBITMQ_URL'' = env' ''RABBITMQ_URL''"
  proof -
    have "rabbitMQURL uc env = rabbitMQURL uc env'" by (simp add: rabbitMQURL_def getEnv_def that)
    then show ?thesis unfolding load_errs_def parts rab req by simp
  qed
qed

section \<open>Unbounded and blank values\<close>

lemma load_s3_timeout_value:
  assumes "atoi (trimmed_env env ''S3_TIMEOUT_SECONDS'' []) = Some n" and "0 < n"
  shows "load_s3_timeout env = (wrap64 (n * second), [])"
proof -
  have "trimmed_env env ''S3_TIMEOUT_SECONDS'' [] \<noteq> []"
    using assms(1) by (auto simp: atoi_def parse_digits_def)
  with assms show ?thesis by (simp add: load_s3_timeout_def int_var_def)
qed

lemma wrap64_seconds_iff:
  assumes "0 < n" and "n \<le> max_int64"
  shows "wrap64 (n * second) = n * second \<longleftrightarrow> n \<le> 9223372036"
proof
  assume "wrap64 (n * second) = n * second"
  then have "n * second \<le> max_int64" using wrap64_range [of "n * second"] by simp
  then show "n \<le> 9223372036" by (simp add: second_def max_int64_def)
next
  assume "n \<le> 9223372036"
  with assms(1) show "wrap64 (n * second) = n * second" by (simp add: wrap64_seconds)
qed

lemma url_parse_Nil: "url_parse [] = Some empty_url"
  by (simp add: url_parse_def parse_no_fragment_def contains_ctl_def get_scheme_def split_query_def
      parse_rest_def set_path_def first_segment_def escape_def empty_url_def)

lemma validateAMQPURL_Nil: "validateAMQPURL uc [] = Some err_amqp_scheme"
  by (simp add: validateAMQPURL_def url_parse_Nil) (simp add: empty_url_def to_lower_def map_case_def)

text \<open>A broker URL of white space only is neither replaced by the default nor non-empty.\<close>

lemma rabbitMQURL_blank:
  assumes "env ''RABBITMQ_URL'' = Some v" and "v \<noteq> []" and "trim_space v = []"
  shows "rabbitMQURL uc env = ([], [err_amqp_scheme])"
  using assms by (simp add: rabbitMQURL_def getEnv_def validateAMQPURL_Nil)

section \<open>Redaction\<close>

lemma host_part_prefix: "prefix x y \<Longrightarrow> set (host_part x) \<subseteq> set (host_part y)"
proof -
  assume "prefix x y"
  then have "prefix (host_part x) y"
    unfolding host_part_def until_any_def by (meson prefix_order.trans takeWhile_is_prefix)
  then have "prefix (host_part x) (host_part y)"
    unfolding host_part_def until_any_def by (rule prefix_takeWhile) (auto dest: set_takeWhileD)
  then show ?thesis by (rule set_mono_prefix)
qed

lemma trim_space_absolute:
  assumes "scheme_ok sc" and "pre = [] \<or> (\<exists>ui. pre = ui @ ''@'')"
  shows "trim_space (sc @ ''://'' @ pre @ t) = sc @ ''://'' @ pre @ trim_back space_runes t"
proof -
  obtain a sc' where sc: "sc = a # sc'" and a: "graphic a"
    using assms(1) scheme_char_props(1) by (cases sc) (auto simp: scheme_ok_def)
  have slash: "graphic (CHR ''/'')" and at: "graphic (CHR ''@'')" by (simp_all add: graphic_def)
  from assms(2) show ?thesis
  proof
    assume "pre = []"
    with trim_space_inner [OF a slash, of "sc' @ '':/''" t] sc show ?thesis by simp
  next
    assume "\<exists>ui. pre = ui @ ''@''"
    then obtain ui where "pre = ui @ ''@''" by blast
    with trim_space_inner [OF a at, of "sc' @ ''://'' @ ui" t] sc show ?thesis by simp
  qed
qed

definition redact :: "url \<Rightarrow> string" where
  "redact u =
     (if u_scheme u = [] \<or> u_host u = [] then ''<invalid>''
      else url_string (u\<lparr>u_user := None, u_raw_query := [], u_force_query := False,
                         u_fragment := [], u_raw_fragment := []\<rparr>))"

lemma redact_user [simp]: "redact (u\<lparr>u_user := x\<rparr>) = redact u"
  by (simp add: redact_def)

lemma RedactedAMQPURL_absolute:
  assumes sc: "scheme_ok sc" and pre: "authority_prefix pre usr"
    and shape: "pre = [] \<or> (\<exists>ui. pre = ui @ ''@'')" and at: "CHR ''@'' \<notin> set (host_part t)"
  shows "RedactedAMQPURL (sc @ ''://'' @ pre @ t) =
    (case parse_absolute sc None (trim_back space_runes t) of None \<Rightarrow> ''<invalid>'' | Some u \<Rightarrow> redact u)"
proof -
  have "CHR ''@'' \<notin> set (host_part (trim_back space_runes t))"
    using at host_part_prefix [OF trim_back_prefix [of space_runes t]] by blast
  from url_parse_absolute [OF sc pre this]
  have "url_parse (trim_space (sc @ ''://'' @ pre @ t)) =
      map_option (\<lambda>v. v\<lparr>u_user := usr\<rparr>) (parse_absolute sc None (trim_back space_runes t))"
    using trim_space_absolute [OF sc shape, of t] parse_absolute_user [of sc usr] by simp
  then have "RedactedAMQPURL (sc @ ''://'' @ pre @ t) =
      (case map_option (\<lambda>v. v\<lparr>u_user := usr\<rparr>) (parse_absolute sc None (trim_back space_runes t)) of
         None \<Rightarrow> ''<invalid>'' | Some u \<Rightarrow> redact u)"
    by (simp only: RedactedAMQPURL_def redact_def)
  then show ?thesis by (simp add: option.case_eq_if option.map_sel del: redact_user)
      (auto simp: option.case_eq_if)
qed

lemma RedactedAMQPURL_userinfo:
  assumes "scheme_ok sc" and "parse_userinfo ui = Some u" and "CHR ''@'' \<notin> set (host_part t)"
  shows "RedactedAMQPURL (sc @ ''://'' @ ui @ ''@'' @ t) = RedactedAMQPURL (sc @ ''://'' @ t)"
  using RedactedAMQPURL_absolute [OF assms(1) authority_prefix_userinfo [OF assms(2)] _ assms(3)]
    RedactedAMQPURL_absolute [OF assms(1) authority_prefix_none _ assms(3)]
  by simp

section \<open>A sample environment\<close>

definition sample_env :: env where
  "sample_env = map_of
     [(''GOTOSOCIAL_INSTANCE'', ''https://a.b''), (''GOTOSOCIAL_USER'', ''u''),
      (''GOTOSOCIAL_TOKEN'', ''t''), (''S3_BUCKET'', ''b''), (''S3_ACCESS_KEY'', ''k''),
      (''S3_SECRET_KEY'', ''s'')]"

definition ascii_case :: unicode_case where
  "ascii_case = \<lparr>uc_upper = id, uc_lower = id\<rparr>"

lemma sample_required: "required_errs (map (\<lambda>n. (n, trimmed_env sample_env n [])) required_names) = []"
  by code_simp

lemma sample_urls:
  "validateURL ascii_case ''GOTOSOCIAL_INSTANCE'' (trimmed_env sample_env ''GOTOSOCIAL_INSTANCE'' []) = None"
  "validateURL ascii_case ''S3_ENDPOINT'' (trimmed_env sample_env ''S3_ENDPOINT'' defaultS3Endpoint) = None"
  by code_simp+

lemma sample_audience: "load_audience ascii_case sample_env = (AudienceGlobal, [])"
  by code_simp

lemma sample_recipient: "load_recipient sample_env AudienceGlobal inst = ([], [])"
  by (simp add: load_recipient_def AudienceGlobal_def AudienceDirect_def)

lemma sample_s3_timeout: "snd (load_s3_timeout sample_env) = []"
  by code_simp

lemma sample_ollama: "snd (load_ollama pf ascii_case sample_env) = []"
  by code_simp

lemma sample_rabbitmq: "snd (loadRabbitMQConfig ascii_case sample_env) = []"
  by code_simp

lemma sample_errs: "load_errs pf ascii_case sample_env = []"
  by (simp add: load_errs_def load_parts_errs_def sample_required sample_urls sample_audience
      sample_recipient sample_s3_timeout sample_ollama sample_rabbitmq Let_def)

end
