(* ===== verification/Config_Properties.thy ===== *)
theory Config_Properties
  imports Config_Facts
begin

text \<open>
  The properties of \<open>internal/config/config.go\<close>.
\<close>

text \<open>
  Property C11. A configuration that \<open>Load\<close> returns is well formed field by field: absolute http(s) and
  amqp(s) URLs, non-empty credentials, a legal audience with a \<open>user@domain\<close> recipient exactly when it
  is direct, AMQP names of 1 to 255 bytes and a legal exchange type, the prefetch, the token limit, the
  output limit, the temperature and the time-outs of Ollama and of the broker within their bounds, and a
  path prefix without empty segments. Of the S3 time-out it says only what the code ensures, a positive
  number of seconds as a 64-bit duration (which may wrap, see C34), and it does not say that the path
  prefix is free of two dots in a row, which \<open>Load\<close> does not check.
\<close>

theorem Load_valid:
  assumes "Load pf uc env = Inr c"
  shows "config_ok uc c"
  using assms by (rule Load_config_ok)

theorem Load_valid_witness:
  "\<exists>c. Load (\<lambda>_. None) ascii_case sample_env = Inr c \<and> config_ok ascii_case c"
proof -
  obtain c where c: "Load (\<lambda>_. None) ascii_case sample_env = Inr c"
    using Load_Inr [OF sample_errs] by blast
  with Load_valid [OF c] show ?thesis by blast
qed

text \<open>
  Property C30. The errors are aggregated: whichever required variables are missing or blank,
  \<open>Load\<close> fails and its error names every one of them.
\<close>

theorem Load_names_missing:
  assumes "N \<noteq> {}" and "N \<subseteq> set required_names"
    and "\<And>n. n \<in> N \<Longrightarrow> trim_space (getEnv env n []) = []"
  shows "\<exists>es. Load pf uc env = Inl es \<and>
    (\<forall>n \<in> N. Err_fmt ''%s is required and must be non-empty'' [A_str n] \<in> set es)"
proof -
  have mem: "Err_fmt ''%s is required and must be non-empty'' [A_str n] \<in> set (load_errs pf uc env)"
    if "n \<in> N" for n
    using that assms(2,3) load_errs_missing [of n env pf uc] by blast
  with assms(1) have "load_errs pf uc env \<noteq> []" by fastforce
  from Load_Inl [OF this] mem show ?thesis by blast
qed

theorem Load_names_missing_witness:
  "\<forall>pf uc. \<exists>es. Load pf uc (\<lambda>_. None) = Inl es \<and>
    (\<forall>n \<in> set required_names. Err_fmt ''%s is required and must be non-empty'' [A_str n] \<in> set es)"
  by (intro allI Load_names_missing) (simp_all add: required_names_def getEnv_def)

definition load_messages :: "errs + config \<Rightarrow> errs" where
  "load_messages r = (case r of Inl es \<Rightarrow> es | Inr c \<Rightarrow> [])"

lemma load_messages_eq: "load_messages (Load pf uc env) = load_errs pf uc env"
  using Load_Inl [of pf uc env] Load_Inr [of pf uc env]
  by (cases "load_errs pf uc env = []") (auto simp: load_messages_def)

text \<open>
  Property C31. No secret is in an error. Take two environments that agree on every variable but the
  broker URL, the token and the two S3 keys, where the last three are blank in both or in neither and the
  broker URL is arbitrary: apart from four fixed messages about the broker URL, which have no operand,
  \<open>Load\<close> reports the same messages, and exactly the same ones when the broker URLs agree.
\<close>

theorem Load_errors_hide_secrets:
  assumes "same_but_secrets env env'"
  shows "filter (\<lambda>e. e \<notin>
      {Err_fmt ''RABBITMQ_URL must include a valid port (1-65535)'' [],
       Err_fmt ''RABBITMQ_URL must be a valid amqp:// or amqps:// URI with a host'' [],
       Err_fmt ''RABBITMQ_URL must use the amqp:// or amqps:// scheme'' [],
       Err_fmt ''RABBITMQ_URL must include a host'' []}) (load_messages (Load pf uc env)) =
    filter (\<lambda>e. e \<notin>
      {Err_fmt ''RABBITMQ_URL must include a valid port (1-65535)'' [],
       Err_fmt ''RABBITMQ_URL must be a valid amqp:// or amqps:// URI with a host'' [],
       Err_fmt ''RABBITMQ_URL must use the amqp:// or amqps:// scheme'' [],
       Err_fmt ''RABBITMQ_URL must include a host'' []}) (load_messages (Load pf uc env')) \<and>
    (if env ''RABBITMQ_URL'' = env' ''RABBITMQ_URL''
     then load_messages (Load pf uc env) = load_messages (Load pf uc env') else True)"
  using load_errs_same_but_secrets(1) [OF assms, of pf uc]
    load_errs_same_but_secrets(2) [OF assms, of pf uc]
  by (simp add: load_messages_eq other_messages_def broker_url_messages_def)

theorem Load_errors_hide_secrets_witness:
  "\<forall>pf. load_messages (Load pf ascii_case [''S3_SECRET_KEY'' \<mapsto> ''one'']) =
     load_messages (Load pf ascii_case [''S3_SECRET_KEY'' \<mapsto> ''two''])"
proof
  fix pf
  let ?a = "[''S3_SECRET_KEY'' \<mapsto> ''one'']" and ?b = "[''S3_SECRET_KEY'' \<mapsto> ''two'']"
  have trim: "trim_space ''one'' = ''one''" "trim_space ''two'' = ''two''"
    by (simp_all add: trim_space_graphic graphic_def)
  have same: "same_but_secrets ?a ?b"
    by (simp add: same_but_secrets_def secret_names_def getEnv_def trim)
  from Load_errors_hide_secrets [OF same, of pf ascii_case]
  show "load_messages (Load pf ascii_case ?a) = load_messages (Load pf ascii_case ?b)" by simp
qed

text \<open>
  Property C32. What is logged of the broker URL does not contain the user information: for any
  user information that the parser accepts, the redacted URL is the redaction of the URL without it.
\<close>

theorem redaction_drops_userinfo:
  assumes "scheme_ok sc" and "parse_userinfo ui = Some u" and "CHR ''@'' \<notin> set (host_part t)"
  shows "RedactedAMQPURL (sc @ ''://'' @ ui @ ''@'' @ t) = RedactedAMQPURL (sc @ ''://'' @ t)"
  using assms by (rule RedactedAMQPURL_userinfo)

theorem redaction_drops_userinfo_witness:
  "RedactedAMQPURL (''amqp'' @ ''://'' @ ''u:p'' @ ''@'' @ ''h:5/v'') =
     RedactedAMQPURL (''amqp'' @ ''://'' @ ''h:5/v'')"
proof (rule redaction_drops_userinfo)
  show "scheme_ok ''amqp''" by code_simp
  show "parse_userinfo ''u:p'' = Some (''u'', Some ''p'')" by code_simp
  show "CHR ''@'' \<notin> set (host_part ''h:5/v'')" by (simp add: host_part_def until_any_def)
qed

text \<open>
  Property C33. Whatever the environment holds, with or without errors, the numeric settings stay within
  their bounds: the Ollama time-out is 1 to 3600 and the broker's connect time-out 1 to 300 whole
  seconds, without wrap-around; the prefetch is 1 to 65535, the token limit positive, and the limit on
  the output not negative.
\<close>

theorem bounded_timeouts:
  "(\<exists>n. ol_Timeout (fst (load_ollama pf uc env)) = n * second \<and> 1 \<le> n \<and> n \<le> 3600) \<and>
   (\<exists>n. fst (rabbitMQConnectTimeout env) = n * second \<and> 1 \<le> n \<and> n \<le> 300) \<and>
   1 \<le> fst (rabbitMQPrefetch env) \<and> fst (rabbitMQPrefetch env) \<le> 65535 \<and>
   1 \<le> ol_MaxTokens (fst (load_ollama pf uc env)) \<and>
   0 \<le> ol_MaxOutputChars (fst (load_ollama pf uc env))"
proof -
  have "ol_Timeout (fst (load_ollama pf uc env)) = wrap64 (fst (load_ollama_timeout env) * second)"
    by (simp add: load_ollama_def split_beta)
  also have "\<dots> = fst (load_ollama_timeout env) * second"
    using load_ollama_timeout_range [of env] by (intro wrap64_seconds) auto
  finally show ?thesis
    using load_ollama_timeout_range [of env] rabbitMQConnectTimeout_seconds [of env]
      rabbitMQPrefetch_range [of env] load_ollama_max_tokens_range [of env]
      load_ollama_max_output_chars_range [of env]
    by (auto simp: load_ollama_def split_beta)
qed

text \<open>
  Property C34. The S3 timeout has no maximum: every positive integer is accepted without an error,
  and the timeout is the configured number of seconds exactly when that is at most 9223372036;
  above, the product wraps around.
\<close>

theorem s3_timeout_wraps:
  assumes "atoi (trim_space (getEnv env ''S3_TIMEOUT_SECONDS'' [])) = Some n" and "0 < n"
  shows "snd (load_s3_timeout env) = [] \<and>
    (fst (load_s3_timeout env) = n * second \<longleftrightarrow> n \<le> 9223372036)"
  using load_s3_timeout_value [OF assms] wrap64_seconds_iff [OF assms(2)] atoi_range [OF assms(1)]
  by simp_all

theorem s3_timeout_wraps_witness:
  "load_s3_timeout [''S3_TIMEOUT_SECONDS'' \<mapsto> ''9223372037''] = (-9223372036709551616, [])"
proof -
  let ?e = "[''S3_TIMEOUT_SECONDS'' \<mapsto> ''9223372037'']"
  have "trim_space ''9223372037'' = ''9223372037''"
    by (rule trim_space_graphic) (simp_all add: graphic_def)
  then have a: "atoi (trim_space (getEnv ?e ''S3_TIMEOUT_SECONDS'' [])) = Some 9223372037"
    by (simp add: getEnv_def atoi_def parse_digits_def digits_value_def is_digit_def in_range_def
        min_int64_def max_int64_def)
  have n: "(0::int) < 9223372037" by simp
  have "fst (load_s3_timeout ?e) = wrap64 (9223372037 * second)"
    using load_s3_timeout_value [OF a n] by simp
  also have "\<dots> = -9223372036709551616"
    by (simp add: wrap64_def second_def signed_take_bit_eq_take_bit_minus take_bit_eq_mod)
  finally show ?thesis
    using s3_timeout_wraps [OF a n] by (cases "load_s3_timeout ?e") simp
qed

text \<open>
  Property C35. A recipient that is accepted is a handle of the form \<open>user@domain\<close> with exactly one
  \<open>@\<close>; a handle with a domain is kept, and one without borrows the hostname of the instance.
\<close>

theorem recipient_normalised:
  assumes "normalizeRecipient raw inst = Inr r"
  shows "handle_ok r \<and>
    r = (let h = trim_prefix (trim_space raw) ''@'' in
         if CHR ''@'' \<in> set h then h else h @ ''@'' @ instanceHostname inst)"
proof -
  let ?h = "trim_prefix (trim_space raw) ''@''"
  have "r = (if CHR ''@'' \<in> set ?h then ?h else ?h @ ''@'' @ instanceHostname inst)"
  proof (cases "CHR ''@'' \<in> set ?h")
    case True
    then obtain l d where "cut ''@'' ?h = Some (l, d)"
      using cut_char_None_iff [of "CHR ''@''" ?h] by (cases "cut ''@'' ?h") auto
    with assms True show ?thesis by (simp add: normalizeRecipient_def Let_def split: if_splits)
  next
    case False
    then have "cut ''@'' ?h = None" by (simp add: cut_char_None_iff)
    with assms False show ?thesis by (simp add: normalizeRecipient_def Let_def split: if_splits)
  qed
  with normalizeRecipient_handle [OF assms] show ?thesis by (simp add: Let_def)
qed

theorem recipient_normalised_witness:
  "normalizeRecipient ''@papa'' ''https://a.b:8/x'' = Inr ''papa@a.b'' \<and> handle_ok ''papa@a.b''"
proof -
  have r: "normalizeRecipient ''@papa'' ''https://a.b:8/x'' = Inr ''papa@a.b''" by code_simp
  with recipient_normalised [OF r] show ?thesis by blast
qed

end
