(* ===== verification/World.thy ===== *)
theory World
  imports Go_Errors
begin

text \<open>
  What surrounds the components: time, contexts, the order of events.

  Every observation of a context and every call of something outside the program is a step. Step
  number \<open>n\<close> takes \<open>w_latency w n\<close> nanoseconds, and where two cases of a \<open>select\<close> are ready
  together \<open>w_choice w n\<close> picks one. Both are arbitrary functions, so a theorem about every world
  covers every timing of the calls and every resolution of the races. What the program does to the
  outside is a list of events, in order.
\<close>

section \<open>Events\<close>

datatype attr = At string go_arg | At_err go_error

datatype amqp_op =
    Exchange_Declare string string bool bool bool bool
  | Queue_Declare string bool bool bool bool
  | Queue_Bind string string string bool
  | Qos int int bool
  | Consume string string bool bool bool bool
  | Cancel string bool
  | Ack nat bool
  | Nack nat bool bool
  | Exchange_Declare_Passive string string bool bool bool bool
  | Queue_Declare_Passive string bool bool bool bool

datatype json = J_str string | J_num float64 | J_int int | J_bool bool | J_obj "(string \<times> json) list"

datatype http_body = Form_body string | Json_body json

record http_request =
  req_method :: string
  req_url :: string
  req_headers :: "(string \<times> string) list"
  req_body :: http_body

record http_response =
  resp_status :: int
  resp_body :: string

text \<open>Connections (and the one channel opened on each) are told apart by a number.\<close>

datatype event =
    Ev_log log_level string "attr list"
  | Ev_get string string
  | Ev_http http_request
  | Ev_sleep int
  | Ev_dial nat
  | Ev_channel nat
  | Ev_amqp nat amqp_op
  | Ev_ch_close nat
  | Ev_conn_close nat
  | Ev_ready

section \<open>The world\<close>

record world =
  w_steps :: nat
  w_clock :: int
  w_latency :: "nat \<Rightarrow> nat"
  w_choice :: "nat \<Rightarrow> bool"
  w_trace :: "event list"

definition emit :: "event \<Rightarrow> world \<Rightarrow> world" where
  "emit e w = w\<lparr>w_trace := w_trace w @ [e]\<rparr>"

definition tick :: "world \<Rightarrow> world" where
  "tick w = w\<lparr>w_steps := Suc (w_steps w), w_clock := w_clock w + int (w_latency w (w_steps w))\<rparr>"

definition log_at :: "log_level \<Rightarrow> string \<Rightarrow> attr list \<Rightarrow> world \<Rightarrow> world" where
  "log_at l msg as = emit (Ev_log l msg as)"

text \<open>
  \<open>extends P w w'\<close>: from \<open>w\<close> time only went on to reach \<open>w'\<close>, and every event in between
  satisfies \<open>P\<close>. It is the frame condition of every operation below.
\<close>

definition extends :: "(event \<Rightarrow> bool) \<Rightarrow> world \<Rightarrow> world \<Rightarrow> bool" where
  "extends P w w' \<longleftrightarrow>
     w_latency w' = w_latency w \<and> w_choice w' = w_choice w \<and>
     w_steps w \<le> w_steps w' \<and> w_clock w \<le> w_clock w' \<and>
     (\<exists>es. w_trace w' = w_trace w @ es \<and> list_all P es)"

lemma extends_refl [simp, intro]: "extends P w w"
  by (simp add: extends_def)

lemma extends_trans [trans]: "extends P u v \<Longrightarrow> extends P v w \<Longrightarrow> extends P u w"
  by (fastforce simp: extends_def)

lemma extends_mono: "extends P u v \<Longrightarrow> (\<And>e. P e \<Longrightarrow> Q e) \<Longrightarrow> extends Q u v"
  by (auto simp: extends_def list_all_iff)

lemma extends_clock: "extends P u v \<Longrightarrow> w_clock u \<le> w_clock v"
  by (simp add: extends_def)

lemma extends_steps: "extends P u v \<Longrightarrow> w_steps u \<le> w_steps v"
  by (simp add: extends_def)

lemma extends_latency: "extends P u v \<Longrightarrow> w_latency v = w_latency u"
  by (simp add: extends_def)

lemma extends_trace: "extends P u v \<Longrightarrow> \<exists>es. w_trace v = w_trace u @ es \<and> list_all P es"
  by (simp add: extends_def)

lemma tick_extends [simp, intro]: "extends P w (tick w)"
  by (simp add: extends_def tick_def)

lemma emit_extends: "P e \<Longrightarrow> extends P w (emit e w)"
  by (simp add: extends_def emit_def)

lemma log_extends [simp, intro]: "(\<And>l m as. P (Ev_log l m as)) \<Longrightarrow> extends P w (log_at l m as w)"
  by (simp add: log_at_def emit_extends)

lemma tick_fields [frame_simps]:
  "w_trace (tick w) = w_trace w" "w_latency (tick w) = w_latency w"
  "w_choice (tick w) = w_choice w" "w_steps (tick w) = Suc (w_steps w)"
  "w_clock (tick w) = w_clock w + int (w_latency w (w_steps w))"
  by (simp_all add: tick_def)

lemma emit_fields [frame_simps]:
  "w_trace (emit e w) = w_trace w @ [e]" "w_latency (emit e w) = w_latency w"
  "w_choice (emit e w) = w_choice w" "w_steps (emit e w) = w_steps w"
  "w_clock (emit e w) = w_clock w"
  by (simp_all add: emit_def)

lemma log_fields [frame_simps]:
  "w_trace (log_at l m as w) = w_trace w @ [Ev_log l m as]"
  "w_latency (log_at l m as w) = w_latency w" "w_choice (log_at l m as w) = w_choice w"
  "w_steps (log_at l m as w) = w_steps w" "w_clock (log_at l m as w) = w_clock w"
  by (simp_all add: log_at_def frame_simps)

section \<open>Contexts\<close>

text \<open>A context is done at the moment it is cancelled or at its deadline, whichever is first.\<close>

record ctx =
  ctx_cancel :: "int option"
  ctx_deadline :: "int option"

definition ctx_state :: "ctx \<Rightarrow> int \<Rightarrow> ctx_error option" where
  "ctx_state c t =
     (case (ctx_cancel c, ctx_deadline c) of
        (None, None) \<Rightarrow> None
      | (Some a, None) \<Rightarrow> if a \<le> t then Some Canceled else None
      | (None, Some d) \<Rightarrow> if d \<le> t then Some DeadlineExceeded else None
      | (Some a, Some d) \<Rightarrow>
          if a \<le> t \<and> a \<le> d then Some Canceled
          else if d \<le> t then Some DeadlineExceeded else None)"

definition ctx_done_at :: "ctx \<Rightarrow> int option" where
  "ctx_done_at c =
     (case (ctx_cancel c, ctx_deadline c) of
        (None, d) \<Rightarrow> d
      | (a, None) \<Rightarrow> a
      | (Some a, Some d) \<Rightarrow> Some (min a d))"

text \<open>\<open>ctx.Err()\<close> observes the context now; \<open>context.WithTimeout\<close> derives one.\<close>

definition ctx_err :: "ctx \<Rightarrow> world \<Rightarrow> ctx_error option \<times> world" where
  "ctx_err c w = (let w' = tick w in (ctx_state c (w_clock w'), w'))"

definition with_timeout :: "ctx \<Rightarrow> int \<Rightarrow> world \<Rightarrow> ctx" where
  "with_timeout c d w =
     c\<lparr>ctx_deadline := Some (case ctx_deadline c of None \<Rightarrow> w_clock w + d
                              | Some e \<Rightarrow> min e (w_clock w + d))\<rparr>"

lemma ctx_state_None_iff:
  "ctx_state c t = None \<longleftrightarrow> (case ctx_done_at c of None \<Rightarrow> True | Some x \<Rightarrow> t < x)"
  by (auto simp: ctx_state_def ctx_done_at_def split: option.splits)

lemma ctx_state_mono: "ctx_state c t \<noteq> None \<Longrightarrow> t \<le> u \<Longrightarrow> ctx_state c u \<noteq> None"
  by (auto simp: ctx_state_None_iff split: option.splits)

lemma ctx_state_stable: "ctx_state c t = Some e \<Longrightarrow> t \<le> u \<Longrightarrow> ctx_state c u = Some e"
  by (auto simp: ctx_state_def split: option.splits if_splits)

lemma ctx_err_extends [simp, intro]: "extends P w (snd (ctx_err c w))"
  by (simp add: ctx_err_def Let_def)

lemma ctx_err_fields [frame_simps]:
  "w_trace (snd (ctx_err c w)) = w_trace w"
  "fst (ctx_err c w) = ctx_state c (w_clock (snd (ctx_err c w)))"
  "snd (ctx_err c w) = tick w"
  by (simp_all add: ctx_err_def Let_def frame_simps)

lemma with_timeout_state: "ctx_state c t \<noteq> None \<Longrightarrow> ctx_state (with_timeout c d w) t \<noteq> None"
  by (auto simp: ctx_state_def with_timeout_def min_def split: option.splits if_splits)

section \<open>Waiting\<close>

text \<open>
  A \<open>select\<close> with two cases, each given by the time at which it becomes ready. It returns which
  case ran, after the step that waiting takes; \<^const>\<open>None\<close> if neither case ever becomes ready.
\<close>

definition select2 :: "int option \<Rightarrow> int option \<Rightarrow> world \<Rightarrow> (bool \<times> world) option" where
  "select2 a b w =
     (let w0 = tick w;
          ready = (\<lambda>x. case x of None \<Rightarrow> False | Some t \<Rightarrow> t \<le> w_clock w0);
          jump = (\<lambda>t. w0\<lparr>w_clock := t\<rparr>)
      in if ready a \<and> ready b then Some (w_choice w (w_steps w), w0)
         else if ready a then Some (True, w0)
         else if ready b then Some (False, w0)
         else (case (a, b) of
             (None, None) \<Rightarrow> None
           | (Some x, None) \<Rightarrow> Some (True, jump x)
           | (None, Some y) \<Rightarrow> Some (False, jump y)
           | (Some x, Some y) \<Rightarrow>
               if x < y then Some (True, jump x)
               else if y < x then Some (False, jump y)
               else Some (w_choice w (w_steps w), jump x)))"

lemma select2_extends: "select2 a b w = Some (r, w') \<Longrightarrow> extends P w w'"
  by (auto simp: select2_def Let_def extends_def tick_def split: option.splits if_splits)

lemma select2_steps: "select2 a b w = Some (r, w') \<Longrightarrow> w_steps w' = Suc (w_steps w)"
  by (auto simp: select2_def Let_def tick_def split: option.splits if_splits)

lemma select2_clock:
  "select2 a b w = Some (r, w') \<Longrightarrow> w_clock w + int (w_latency w (w_steps w)) \<le> w_clock w'"
  by (auto simp: select2_def Let_def tick_def split: option.splits if_splits)

lemma select2_trace: "select2 a b w = Some (r, w') \<Longrightarrow> w_trace w' = w_trace w"
  by (auto simp: select2_def Let_def tick_def split: option.splits if_splits)

text \<open>The case that ran was ready when it ran.\<close>

lemma select2_left: "select2 a b w = Some (True, w') \<Longrightarrow> \<exists>t. a = Some t \<and> t \<le> w_clock w'"
  by (auto simp: select2_def Let_def tick_def split: option.splits if_splits)

lemma select2_right: "select2 a b w = Some (False, w') \<Longrightarrow> \<exists>t. b = Some t \<and> t \<le> w_clock w'"
  by (auto simp: select2_def Let_def tick_def split: option.splits if_splits)

lemma select2_None_iff: "select2 a b w = None \<longleftrightarrow> a = None \<and> b = None"
  by (auto simp: select2_def Let_def split: option.splits)

text \<open>\<open>time.Sleep\<close> pays no attention to any context.\<close>

definition time_sleep :: "int \<Rightarrow> world \<Rightarrow> world" where
  "time_sleep d w = tick (emit (Ev_sleep d) (w\<lparr>w_clock := w_clock w + max 0 d\<rparr>))"

lemma time_sleep_fields [frame_simps]:
  "w_trace (time_sleep d w) = w_trace w @ [Ev_sleep d]"
  "w_latency (time_sleep d w) = w_latency w" "w_choice (time_sleep d w) = w_choice w"
  "w_steps (time_sleep d w) = Suc (w_steps w)"
  by (simp_all add: time_sleep_def tick_def emit_def)

lemma time_sleep_extends: "P (Ev_sleep d) \<Longrightarrow> extends P w (time_sleep d w)"
  by (simp add: extends_def time_sleep_def tick_def emit_def)

section \<open>Calls of HTTP servers\<close>

text \<open>
  What a server answers is a function of the request's context, the step and the request. The body
  is what can be read of it before it ends or fails.
\<close>

type_synonym http_client = "ctx \<Rightarrow> nat \<Rightarrow> http_request \<Rightarrow> go_error + http_response"

definition http_do ::
    "http_client \<Rightarrow> ctx \<Rightarrow> http_request \<Rightarrow> world \<Rightarrow> (go_error + http_response) \<times> world" where
  "http_do cl c rq w = (cl c (w_steps w) rq, tick (emit (Ev_http rq) w))"

lemma http_do_extends: "P (Ev_http rq) \<Longrightarrow> extends P w (snd (http_do cl c rq w))"
  by (auto simp: http_do_def intro: extends_trans [OF emit_extends tick_extends])

lemma http_do_trace [trace_simps]: "w_trace (snd (http_do cl c rq w)) = w_trace w @ [Ev_http rq]"
  by (simp add: http_do_def frame_simps)

lemma http_do_steps: "w_steps (snd (http_do cl c rq w)) = Suc (w_steps w)"
  by (simp add: http_do_def frame_simps)

end
