(* ===== verification/Summary_Store.thy ===== *)
theory Summary_Store
  imports World Config
begin

text \<open>
  \<open>internal/summarystore/store.go\<close>: the key of a summary object and the read of it. The S3 client
  of the SDK is the parameter \<open>cl_api\<close> of a client: what \<open>GetObject\<close> answers may depend on the
  context, the step and the request. Loading the SDK's configuration and building its client are
  parameters of \<open>New\<close>.
\<close>

section \<open>Types\<close>

definition ErrNotFound :: go_error where
  "ErrNotFound = Err_new ''summarystore: summary not found''"

definition store_defaultRegion :: string where
  "store_defaultRegion = ''us-east-1''"

text \<open>
  What \<open>GetObject\<close> returns without an error: no output or no body, or a body, which \<open>io.ReadAll\<close>
  reads to its end or fails on.
\<close>

datatype object_output = No_body | Body "go_error + string"

type_synonym s3_api = "ctx \<Rightarrow> nat \<Rightarrow> string \<Rightarrow> string \<Rightarrow> go_error + object_output"

record client =
  cl_api :: s3_api
  cl_bucket :: string
  cl_prefix :: string
  cl_timeout :: int

section \<open>Keys\<close>

definition store_normalizePrefix :: "string \<Rightarrow> string" where
  "store_normalizePrefix pre =
     join ''/'' (filter (\<lambda>part. part \<noteq> []) (map trim_space (split_on (CHR ''/'') pre)))"

definition checkSegment :: "string \<Rightarrow> string \<Rightarrow> go_error option" where
  "checkSegment name value =
     (if contains value ''/'' then
        Some (Err_fmt ''summarystore: %s must not contain %q'' [A_str name, A_str ''/''])
      else if contains value ''..'' then
        Some (Err_fmt ''summarystore: %s must not contain %q'' [A_str name, A_str ''..''])
      else None)"

definition BuildKey :: "unicode_case \<Rightarrow> string \<Rightarrow> string \<Rightarrow> string \<Rightarrow> go_error + string" where
  "BuildKey uc pre0 exchange0 symbol0 =
     (let pre = trim_space pre0;
          exchange = trim_space exchange0;
          symbol = trim_space symbol0
      in if exchange = [] then Inl (Err_new ''summarystore: exchange must not be empty'')
         else if symbol = [] then Inl (Err_new ''summarystore: symbol must not be empty'')
         else (case checkSegment ''exchange'' exchange of
             Some e \<Rightarrow> Inl e
           | None \<Rightarrow>
               (case checkSegment ''symbol'' symbol of
                  Some e \<Rightarrow> Inl e
                | None \<Rightarrow>
                    if contains pre ''..'' then
                      Inl (Err_new (''summarystore: path prefix must not contain '' @
                        [CHR 0x22] @ ''..'' @ [CHR 0x22]))
                    else
                      (let key = to_upper uc exchange @ ''/'' @ to_upper uc symbol @ ''/summary.md'';
                           p = store_normalizePrefix pre
                       in Inr (if p \<noteq> [] then p @ ''/'' @ key else key)))))"

section \<open>Construction\<close>

definition NewWithAPI :: "s3_config option \<Rightarrow> s3_api option \<Rightarrow> go_error + client" where
  "NewWithAPI cfg api =
     (case cfg of
        None \<Rightarrow> Inl (Err_new ''summarystore: nil S3 config'')
      | Some c \<Rightarrow>
          (case api of
             None \<Rightarrow> Inl (Err_new ''summarystore: nil S3 API'')
           | Some a \<Rightarrow> Inr \<lparr>cl_api = a, cl_bucket = s3_Bucket c,
               cl_prefix = store_normalizePrefix (s3_PathPrefix c), cl_timeout = s3_Timeout c\<rparr>))"

text \<open>
  \<open>load_default region access secret\<close> is \<open>awsconfig.LoadDefaultConfig\<close>;
  \<open>from_config awsCfg endpoint pathStyle\<close> is \<open>s3.NewFromConfig\<close> with the two options set.
\<close>

definition New_store ::
    "(string \<Rightarrow> string \<Rightarrow> string \<Rightarrow> go_error + 'aws) \<Rightarrow> ('aws \<Rightarrow> string \<Rightarrow> bool \<Rightarrow> s3_api) \<Rightarrow>
     s3_config option \<Rightarrow> go_error + client" where
  "New_store load_default from_config cfg =
     (case cfg of
        None \<Rightarrow> Inl (Err_new ''summarystore: nil S3 config'')
      | Some c \<Rightarrow>
          (let region = (if s3_Region c = [] then store_defaultRegion else s3_Region c) in
           case load_default region (s3_AccessKey c) (s3_SecretKey c) of
             Inl e \<Rightarrow> Inl (Err_wrap ''summarystore: load aws config: %w'' [] e)
           | Inr awsCfg \<Rightarrow>
               NewWithAPI cfg
                 (Some (from_config awsCfg (trim_right (s3_Endpoint c) (CHR ''/'')) True))))"

text \<open>\<open>Close\<close> is a no-op.\<close>

definition store_Close :: "client \<Rightarrow> go_error option" where
  "store_Close c = None"

section \<open>Reading\<close>

definition isNotFound :: "go_error option \<Rightarrow> bool" where
  "isNotFound err =
     (case err of
        None \<Rightarrow> False
      | Some e \<Rightarrow>
          error_as (\<lambda>x. if ext_no_such_key x then Some () else None) e \<noteq> None \<or>
          error_as (\<lambda>x. if ext_not_found x then Some () else None) e \<noteq> None \<or>
          (case error_as ext_api_code e of
             None \<Rightarrow> False | Some code \<Rightarrow> code \<in> set [''NoSuchKey'', ''NotFound'']) \<or>
          (case error_as ext_http_status e of None \<Rightarrow> False | Some s \<Rightarrow> s = 404))"

definition get :: "client \<Rightarrow> ctx \<Rightarrow> string \<Rightarrow> world \<Rightarrow> (go_error + string) \<times> world" where
  "get cl c key w =
     (let out = cl_api cl c (w_steps w) (cl_bucket cl) key;
          w1 = tick (emit (Ev_get (cl_bucket cl) key) w)
      in case out of
           Inl e \<Rightarrow> (Inl e, w1)
         | Inr No_body \<Rightarrow> (Inl (Err_fmt ''summarystore: get %q: response has no body'' [A_str key]), w1)
         | Inr (Body r) \<Rightarrow> (r, tick w1))"

definition wrapReadError :: "ctx \<Rightarrow> string \<Rightarrow> go_error \<Rightarrow> world \<Rightarrow> go_error \<times> world" where
  "wrapReadError c key err w =
     (let (ctxErr, w1) = ctx_err c w in
      (Err_wrap ''summarystore: read %q: %w'' [A_str key]
         (case ctxErr of Some ce \<Rightarrow> Err_ctx ce | None \<Rightarrow> err), w1))"

definition ReadSummary ::
    "unicode_case \<Rightarrow> client \<Rightarrow> ctx \<Rightarrow> string \<Rightarrow> string \<Rightarrow> world \<Rightarrow> (go_error + string) \<times> world" where
  "ReadSummary uc cl c exchange symbol w =
     (case BuildKey uc (cl_prefix cl) exchange symbol of
        Inl e \<Rightarrow> (Inl e, w)
      | Inr key \<Rightarrow>
          (let c' = (if 0 < cl_timeout cl then with_timeout c (cl_timeout cl) w else c);
               (r, w1) = get cl c' key w
           in case r of
                Inr body \<Rightarrow> (Inr body, w1)
              | Inl err \<Rightarrow>
                  if isNotFound (Some err) then
                    (Inl (Err_wrap ''summarystore: read %q: %w'' [A_str key] ErrNotFound), w1)
                  else
                    (let (e, w2) = wrapReadError c' key err w1 in (Inl e, w2))))"

section \<open>Keys are well formed\<close>

lemma high_byte: "128 \<le> (n::nat) \<Longrightarrow> n < 256 \<Longrightarrow> 128 \<le> byte (char_of n)"
  by simp

lemma encode_rune_small:
  assumes "c \<in> set (encode_rune r)" and "byte c < 128"
  shows "r = byte c"
proof (cases "r < 128")
  case True
  with assms(1) show ?thesis by (simp add: encode_rune_def)
next
  case False
  have "128 \<le> byte c"
  proof (cases "r < 0x800")
    case True
    then have "r div 64 < 32" by simp
    with True False assms(1) show ?thesis
      by (auto simp: encode_rune_def simp del: of_char_of intro!: high_byte)
  next
    case two: False
    then have m: "r mod 64 < 64" "r div 64 mod 64 < 64" "r div 4096 mod 64 < 64" by simp_all
    show ?thesis
    proof (cases "0x10FFFF < r \<or> 0xD800 \<le> r \<and> r \<le> 0xDFFF")
      case True
      with two False assms(1) show ?thesis by (auto simp: encode_rune_def)
    next
      case ok: False
      show ?thesis
      proof (cases "r < 0x10000")
        case True
        then have "r div 4096 < 16" by simp
        with True ok two False m assms(1) show ?thesis
          by (auto simp: encode_rune_def simp del: of_char_of intro!: high_byte)
      next
        case big: False
        from ok have "r div 262144 < 8" by auto
        with big ok two False m assms(1) show ?thesis
          by (auto simp: encode_rune_def simp del: of_char_of intro!: high_byte)
      qed
    qed
  qed
  with assms(2) show ?thesis by simp
qed

end
