(* ===== verification/Interfaces.thy ===== *)
theory Interfaces
  imports World
begin

text \<open>
  The interfaces between the consumer and what its pipeline calls. Go declares them as
  \<open>SummaryReader\<close> (\<open>internal/rabbitmq/consumer.go\<close>), \<open>Rewriter\<close>
  (\<open>internal/rewriter/rewriter.go\<close>) and \<open>Publisher\<close> (\<open>internal/messenger/messenger.go\<close>); here
  each is a locale with the operation as its parameter and the laws the consumer relies on as its
  assumptions. The components that provide them interpret them on their own models.
\<close>

section \<open>Settlements\<close>

fun is_settle :: "event \<Rightarrow> bool" where
  "is_settle (Ev_amqp n (Ack t m)) = True"
| "is_settle (Ev_amqp n (Nack t m r)) = True"
| "is_settle e = False"

text \<open>What the pipeline may do: log, read objects, call HTTP servers, sleep.\<close>

fun pipeline_event :: "event \<Rightarrow> bool" where
  "pipeline_event (Ev_log l m as) = True"
| "pipeline_event (Ev_get b k) = True"
| "pipeline_event (Ev_http r) = True"
| "pipeline_event (Ev_sleep d) = True"
| "pipeline_event e = False"

definition settlements :: "world \<Rightarrow> event list" where
  "settlements w = filter is_settle (w_trace w)"

lemma pipeline_not_settle: "pipeline_event e \<Longrightarrow> \<not> is_settle e"
  by (cases e) auto

lemma settlements_extends:
  assumes "extends pipeline_event w w'"
  shows "settlements w' = settlements w"
proof -
  obtain es where "w_trace w' = w_trace w @ es" and "list_all pipeline_event es"
    using extends_trace [OF assms] by blast
  then show ?thesis
    by (auto simp: settlements_def filter_empty_conv list_all_iff dest: pipeline_not_settle)
qed

lemma settlements_emit:
  "settlements (emit e w) = settlements w @ (if is_settle e then [e] else [])"
  by (simp add: settlements_def emit_def)

text \<open>The trace without its log lines.\<close>

fun is_log :: "event \<Rightarrow> bool" where
  "is_log (Ev_log l m as) = True"
| "is_log e = False"

definition effects :: "world \<Rightarrow> event list" where
  "effects w = filter (\<lambda>e. \<not> is_log e) (w_trace w)"

lemma effects_emit: "effects (emit e w) = effects w @ (if is_log e then [] else [e])"
  by (simp add: effects_def emit_def)

lemma effects_simps [trace_simps]:
  "effects (tick w) = effects w" "effects (log_at l m as w) = effects w"
  "effects (time_sleep d w) = effects w @ [Ev_sleep d]"
  "effects (snd (http_do cl c rq w)) = effects w @ [Ev_http rq]"
  by (simp_all add: effects_def frame_simps trace_simps)

section \<open>Operations of the pipeline\<close>

locale pipeline_op =
  fixes op :: "'i \<Rightarrow> world \<Rightarrow> 'a \<times> world"
  assumes op_extends: "extends pipeline_event w (snd (op i w))"
begin

lemma op_settlements: "settlements (snd (op i w)) = settlements w"
  by (rule settlements_extends) (rule op_extends)

lemma op_clock: "w_clock w \<le> w_clock (snd (op i w))"
  by (rule extends_clock) (rule op_extends)

lemma op_steps: "w_steps w \<le> w_steps (snd (op i w))"
  by (rule extends_steps) (rule op_extends)

text \<open>A context that is done before the call is done after it.\<close>

lemma op_done:
  "ctx_state c (w_clock w) \<noteq> None \<Longrightarrow> ctx_state c (w_clock (snd (op i w))) \<noteq> None"
  by (rule ctx_state_mono [OF _ op_clock])

end

type_synonym reader = "ctx \<times> string \<times> string \<Rightarrow> world \<Rightarrow> (go_error + string) \<times> world"
type_synonym rewriter = "ctx \<times> string \<Rightarrow> world \<Rightarrow> (go_error + string) \<times> world"
type_synonym publisher = "ctx \<times> string \<Rightarrow> world \<Rightarrow> go_error option \<times> world"

locale summary_reader = pipeline_op read for read :: reader

locale summary_publisher = pipeline_op publish for publish :: publisher

text \<open>
  The documented contract of a rewriter: a non-empty report or an error. The text it is given is
  an argument, so it cannot change it.
\<close>

locale summary_rewriter = pipeline_op rewrite for rewrite :: rewriter +
  assumes report_not_blank: "fst (rewrite i w) = Inr report \<Longrightarrow> trim_space report \<noteq> []"
begin

lemma blank_report_never: "fst (rewrite i w) = Inr r \<Longrightarrow> trim_space r = [] \<Longrightarrow> False"
  using report_not_blank by blast

end

end
