(* ===== verification/Store_Facts.thy ===== *)
theory Store_Facts
  imports Summary_Store Config_Facts Interfaces
begin

text \<open>
  Facts about \<open>internal/summarystore/store.go\<close>: the shape of keys, the single read and its errors,
  and the contract of a summary reader, which the store's client meets.
\<close>

section \<open>Case mapping keeps separators apart\<close>

lemma mod_64_high: "128 \<le> (n::nat) \<Longrightarrow> n < 192 \<Longrightarrow> n mod 64 = n - 128"
  by (simp add: le_mod_geq)

lemma decode_rune_small:
  assumes "fst (decode_rune c s) < 128"
  shows "is_ascii c"
proof (rule ccontr)
  assume "\<not> is_ascii c"
  then have c: "128 \<le> byte c" by (simp add: is_ascii_def)
  have a: "in_range 0xA0 0xBF x \<Longrightarrow> 32 \<le> byte x mod 64" for x
    using mod_64_high [of "byte x"] by (auto simp: in_range_def)
  have b: "in_range 0x90 0xBF x \<Longrightarrow> 16 \<le> byte x mod 64" for x
    using mod_64_high [of "byte x"] by (auto simp: in_range_def)
  show False
    using assms c
    by (auto simp: decode_rune_def Let_def dest!: a b split: list.splits if_splits)
qed

lemma decode_rune_small_value:
  assumes "fst (decode_rune c s) < 128"
  shows "decode_rune c s = (byte c, 0)"
  using decode_rune_small [OF assms] by simp

lemma runes_small: "r \<in> set (runes s) \<Longrightarrow> r < 128 \<Longrightarrow> \<exists>c \<in> set s. byte c = r"
proof (induction s rule: runes.induct)
  case (2 c s)
  show ?case
  proof (cases "r = fst (decode_rune c s)")
    case True
    with "2.prems" have "r = byte c" using decode_rune_small_value [of c s] by simp
    then show ?thesis by simp
  next
    case False
    with 2 obtain d where "d \<in> set (drop (snd (decode_rune c s)) s)" and "byte d = r" by auto
    then show ?thesis by (auto dest: in_set_dropD)
  qed
qed simp

lemma runes_all_small: "\<forall>r \<in> set (runes s). r < 128 \<Longrightarrow> list_all is_ascii s"
proof (induction s rule: runes.induct)
  case (2 c s)
  then have small: "fst (decode_rune c s) < 128" by simp
  with 2 show ?case using decode_rune_small [OF small] decode_rune_small_value [OF small] by simp
qed simp

text \<open>What the tables may not do: map a letter beyond ASCII to a dot or a slash. Unicode does not.\<close>

definition case_table_ok :: "unicode_case \<Rightarrow> bool" where
  "case_table_ok uc \<longleftrightarrow> (\<forall>r \<ge> 128. uc_upper uc r \<notin> {46, 47})"

lemma case_table_ok_ascii [simp]: "case_table_ok ascii_case"
  by (simp add: case_table_ok_def ascii_case_def)

lemma ascii_upper_separator: "ascii_upper r \<in> {46, 47} \<Longrightarrow> ascii_upper r = r"
  by (auto simp: ascii_upper_def split: if_splits)

lemma to_upper_separator:
  assumes ok: "case_table_ok uc" and c: "c \<in> set (to_upper uc s)" and sep: "byte c \<in> {46, 47}"
  shows "c \<in> set s"
proof (cases "list_all is_ascii s")
  case True
  with c obtain d where d: "d \<in> set s" "c = char_of (ascii_upper (byte d))"
    by (auto simp: to_upper_def map_case_def)
  then have "ascii_upper (byte d) < 128"
    using True by (auto simp: list_all_iff is_ascii_def ascii_upper_def)
  with d sep ascii_upper_separator [of "byte d"] have "byte c = byte d" by auto
  with d show ?thesis by (simp only: of_char_eq_iff)
next
  case False
  with c obtain r where r: "r \<in> set (runes s)"
    and cr: "c \<in> set (encode_rune (if r < 128 then ascii_upper r else uc_upper uc r))"
    by (auto simp: to_upper_def map_case_def)
  have "byte c < 128" using sep by auto
  from encode_rune_small [OF cr this]
  have v: "(if r < 128 then ascii_upper r else uc_upper uc r) = byte c" .
  then have "r < 128" using ok sep by (auto simp: case_table_ok_def split: if_splits)
  with v sep ascii_upper_separator [of r] have "r = byte c" by auto
  with runes_small [OF r \<open>r < 128\<close>] show ?thesis by (auto simp only: of_char_eq_iff)
qed

lemma to_upper_dots:
  assumes ok: "case_table_ok uc" and up: "to_upper uc s = ''..''"
  shows "s = ''..''"
proof -
  have asc: "list_all is_ascii s"
  proof (rule ccontr)
    assume na: "\<not> list_all is_ascii s"
    have "r < 128" if r: "r \<in> set (runes s)" for r
    proof (rule ccontr)
      assume big: "\<not> r < 128"
      obtain c where c: "c \<in> set (encode_rune (uc_upper uc r))"
        using list.set_sel(1) [OF encode_rune_not_Nil] by blast
      have "c \<in> set (to_upper uc s)"
        using na r big c by (auto simp: to_upper_def map_case_def)
      with up have dot: "byte c = 46" by auto
      with encode_rune_small [OF c] have "uc_upper uc r = 46" by simp
      with ok big show False by (auto simp: case_table_ok_def)
    qed
    with na runes_all_small show False by blast
  qed
  then have "map (\<lambda>c. char_of (ascii_upper (byte c))) s = ''..''"
    using up by (simp add: to_upper_def map_case_ascii)
  then obtain a b where s: "s = [a, b]"
    and ab: "char_of (ascii_upper (byte a)) = CHR ''.''" "char_of (ascii_upper (byte b)) = CHR ''.''"
    by (auto simp: map_eq_Cons_conv)
  have dot: "x = CHR ''.''" if "char_of (ascii_upper (byte x)) = CHR ''.''" "is_ascii x" for x
  proof -
    have "ascii_upper (byte x) < 128" using that(2) by (auto simp: is_ascii_def ascii_upper_def)
    moreover have "byte (char_of (ascii_upper (byte x)) :: char) = 46" using that(1) by simp
    ultimately have "ascii_upper (byte x) = 46" by simp
    then have "byte x = byte (CHR ''.'')" using ascii_upper_separator [of "byte x"] by simp
    then show ?thesis by (simp only: of_char_eq_iff)
  qed
  have "is_ascii a" "is_ascii b" using asc s by simp_all
  with dot ab have "a = CHR ''.''" "b = CHR ''.''" by blast+
  with s show ?thesis by simp
qed

section \<open>Keys\<close>

lemma checkSegment_None_iff:
  "checkSegment name v = None \<longleftrightarrow> CHR ''/'' \<notin> set v \<and> \<not> contains v ''..''"
  by (simp add: checkSegment_def contains_char_iff)

lemma store_segments:
  "x \<in> set (filter (\<lambda>part. part \<noteq> []) (map trim_space (split_on (CHR ''/'') p))) \<Longrightarrow>
     x \<noteq> [] \<and> CHR ''/'' \<notin> set x \<and> trim_space x = x"
  using set_trim_space by (auto dest: split_on_no_sep)

lemma store_normalizePrefix_clean: "clean_path (store_normalizePrefix p)"
  unfolding store_normalizePrefix_def
  by (rule clean_path_join) (use store_segments in blast)

lemma store_normalizePrefix_idem:
  "store_normalizePrefix (store_normalizePrefix p) = store_normalizePrefix p"
proof -
  define xs where "xs = filter (\<lambda>part. part \<noteq> []) (map trim_space (split_on (CHR ''/'') p))"
  have seg: "x \<noteq> [] \<and> CHR ''/'' \<notin> set x \<and> trim_space x = x" if "x \<in> set xs" for x
    using that store_segments unfolding xs_def by blast
  have norm: "store_normalizePrefix p = join ''/'' xs"
    by (simp add: store_normalizePrefix_def xs_def)
  show ?thesis
  proof (cases "xs = []")
    case True
    then show ?thesis unfolding norm by (simp add: store_normalizePrefix_def)
  next
    case False
    then have "split_on (CHR ''/'') (join ''/'' xs) = xs" by (rule split_join) (use seg in blast)
    moreover have "map trim_space xs = xs" by (simp add: map_idI seg)
    moreover have "filter (\<lambda>part. part \<noteq> []) xs = xs" by (simp add: filter_id_conv seg)
    ultimately show ?thesis unfolding norm by (simp add: store_normalizePrefix_def)
  qed
qed

interpretation store_prefix: normaliser store_normalizePrefix
  by unfold_locales (rule store_normalizePrefix_idem)

text \<open>The conditions under which an identity has a key, and the key.\<close>

definition identity_ok :: "string \<Rightarrow> bool" where
  "identity_ok v \<longleftrightarrow> trim_space v \<noteq> [] \<and> CHR ''/'' \<notin> set v \<and> \<not> contains (trim_space v) ''..''"

lemma slash_not_space: "CHR ''/'' \<in> set v \<Longrightarrow> CHR ''/'' \<in> set (trim_space v)"
proof -
  assume "CHR ''/'' \<in> set v"
  then obtain a b where v: "v = a @ CHR ''/'' # b" by (meson split_list)
  have g: "graphic (CHR ''/'')" by (simp add: graphic_def)
  have "trim_front space_runes v = trim_front space_runes a @ CHR ''/'' # b"
    unfolding v by (rule trim_front_stop) (use space_runes_graphic [OF g] in blast)
  then have "trim_space v = trim_front space_runes a @ CHR ''/'' # trim_back space_runes b"
    by (simp add: trim_space_def trim_back_stop [OF g])
  then show ?thesis by simp
qed

definition canonical_key :: "unicode_case \<Rightarrow> string \<Rightarrow> string \<Rightarrow> string \<Rightarrow> string" where
  "canonical_key uc pre exchange symbol =
     (let p = store_normalizePrefix (trim_space pre) in
      (if p = [] then [] else p @ ''/'') @
      to_upper uc (trim_space exchange) @ ''/'' @ to_upper uc (trim_space symbol) @ ''/summary.md'')"

lemma BuildKey_Inr_iff:
  "BuildKey uc pre ex sy = Inr key \<longleftrightarrow>
     identity_ok ex \<and> identity_ok sy \<and> \<not> contains (trim_space pre) ''..'' \<and>
     key = canonical_key uc pre ex sy"
proof -
  have set: "CHR ''/'' \<in> set (trim_space v) \<longleftrightarrow> CHR ''/'' \<in> set v" for v
    using slash_not_space [of v] set_trim_space [of v] by blast
  show ?thesis
    unfolding BuildKey_def identity_ok_def canonical_key_def checkSegment_def Let_def
      contains_char_iff set
    by (simp split: option.splits) auto
qed

lemma canonical_key_split:
  assumes "identity_ok ex" and "identity_ok sy" and ok: "case_table_ok uc"
  shows "split_on (CHR ''/'') (canonical_key uc pre ex sy) =
    (if store_normalizePrefix (trim_space pre) = [] then []
     else split_on (CHR ''/'') (store_normalizePrefix (trim_space pre))) @
    [to_upper uc (trim_space ex), to_upper uc (trim_space sy), ''summary.md'']"
proof -
  have no: "CHR ''/'' \<notin> set (to_upper uc (trim_space v))" if "identity_ok v" for v
  proof
    assume "CHR ''/'' \<in> set (to_upper uc (trim_space v))"
    then have "CHR ''/'' \<in> set (trim_space v)" by (rule to_upper_separator [OF ok]) simp
    with that set_trim_space [of v] show False by (auto simp: identity_ok_def)
  qed
  have "split_on (CHR ''/'') (to_upper uc (trim_space ex) @ CHR ''/'' #
        to_upper uc (trim_space sy) @ CHR ''/'' # ''summary.md'') =
      [to_upper uc (trim_space ex), to_upper uc (trim_space sy), ''summary.md'']"
    by (simp add: split_on_append [OF no [OF assms(1)]] split_on_append [OF no [OF assms(2)]])
  then show ?thesis by (simp add: canonical_key_def Let_def split_on_concat)
qed

lemma contains_trans: "contains s t \<Longrightarrow> s' = a @ s @ b \<Longrightarrow> contains s' t"
  unfolding contains_iff by (auto simp: sublist_def) (metis append.assoc)

lemma split_on_part: "x \<in> set (split_on c s) \<Longrightarrow> \<exists>a b. s = a @ x @ b"
proof (induction s arbitrary: x)
  case (Cons y s)
  show ?case
  proof (cases "y = c")
    case True
    with Cons show ?thesis by (auto intro: exI [of _ "[]"]) (metis Cons_eq_appendI)
  next
    case False
    obtain z zs where z: "split_on c s = z # zs" using split_on_not_Nil by (meson neq_Nil_conv)
    with False Cons.prems consider "x = y # z" | "x \<in> set zs" by auto
    then show ?thesis
    proof cases
      case 1
      have "\<exists>b. s = z @ b" using z
      proof (induction s arbitrary: z zs)
        case (Cons u s)
        then show ?case by (auto split: if_splits list.splits)
      qed simp
      with 1 show ?thesis by (metis append_Cons append_Nil)
    next
      case 2
      with z Cons.IH [of x] show ?thesis by (metis append_Cons list.set_intros(2))
    qed
  qed
qed simp

lemma store_prefix_no_dots:
  assumes "\<not> contains p ''..''" and "store_normalizePrefix p \<noteq> []"
    and x: "x \<in> set (split_on (CHR ''/'') (store_normalizePrefix p))"
  shows "x \<noteq> []" and "x \<noteq> ''..''"
proof -
  define xs where "xs = filter (\<lambda>part. part \<noteq> []) (map trim_space (split_on (CHR ''/'') p))"
  have seg: "y \<noteq> [] \<and> CHR ''/'' \<notin> set y" if "y \<in> set xs" for y
    using that store_segments unfolding xs_def by blast
  have norm: "store_normalizePrefix p = join ''/'' xs"
    by (simp add: store_normalizePrefix_def xs_def)
  with assms(2) have "xs \<noteq> []" by auto
  then have "split_on (CHR ''/'') (join ''/'' xs) = xs" by (rule split_join) (use seg in blast)
  with x norm have mem: "x \<in> set xs" by simp
  with seg show "x \<noteq> []" by blast
  from mem obtain y where y: "y \<in> set (split_on (CHR ''/'') p)" "x = trim_space y"
    by (auto simp: xs_def)
  show "x \<noteq> ''..''"
  proof
    assume "x = ''..''"
    moreover obtain a b where "y = a @ x @ b" using trim_space_sublist [of y] y(2) by blast
    moreover obtain c d where "p = c @ y @ d" using split_on_part [OF y(1)] by blast
    ultimately have "sublist ''..'' p"
      unfolding sublist_def by (metis append.assoc)
    with assms(1) show False by (simp add: contains_iff)
  qed
qed

lemma canonical_key_segments:
  assumes "identity_ok ex" and "identity_ok sy" and "case_table_ok uc"
    and "\<not> contains (trim_space pre) ''..''"
    and x: "x \<in> set (split_on (CHR ''/'') (canonical_key uc pre ex sy))"
  shows "x \<noteq> [] \<and> x \<noteq> ''..''"
proof -
  have dots: "to_upper uc (trim_space v) \<noteq> ''..''" if "identity_ok v" for v
  proof
    assume "to_upper uc (trim_space v) = ''..''"
    then have "trim_space v = ''..''" by (rule to_upper_dots [OF assms(3)])
    with that show False by (simp add: identity_ok_def contains_iff)
  qed
  consider (front) "store_normalizePrefix (trim_space pre) \<noteq> []"
      "x \<in> set (split_on (CHR ''/'') (store_normalizePrefix (trim_space pre)))"
    | (ident) v where "identity_ok v" "x = to_upper uc (trim_space v)"
    | (tail) "x = ''summary.md''"
    using x assms(1,2) by (auto simp: canonical_key_split [OF assms(1-3)] split: if_splits)
  then show ?thesis
  proof cases
    case front
    then show ?thesis using store_prefix_no_dots [OF assms(4)] by blast
  next
    case ident
    then show ?thesis using dots [OF ident(1)] ident by (simp add: identity_ok_def)
  qed simp
qed

lemma clean_path_canonical:
  assumes "identity_ok ex" and "identity_ok sy" and "case_table_ok uc"
    and "\<not> contains (trim_space pre) ''..''"
  shows "clean_path (canonical_key uc pre ex sy)"
  using canonical_key_segments [OF assms] unfolding clean_path_def by blast

section \<open>Reading\<close>

lemma get_extends: "extends pipeline_event w (snd (get cl c key w))"
  unfolding get_def
  by (auto simp: Let_def split: sum.splits object_output.splits
      intro: extends_trans [OF emit_extends tick_extends]
        extends_trans [OF extends_trans [OF emit_extends tick_extends] tick_extends])

lemma get_trace [trace_simps]:
  "w_trace (snd (get cl c key w)) = w_trace w @ [Ev_get (cl_bucket cl) key]"
  by (auto simp: get_def Let_def frame_simps split: sum.splits object_output.splits)

lemma wrapReadError_extends: "extends P w (snd (wrapReadError c key err w))"
  by (simp add: wrapReadError_def split_beta)

lemma wrapReadError_trace [trace_simps]: "w_trace (snd (wrapReadError c key err w)) = w_trace w"
  by (simp add: wrapReadError_def split_beta frame_simps)

lemma ReadSummary_extends: "extends pipeline_event w (snd (ReadSummary uc cl c ex sy w))"
proof (cases "BuildKey uc (cl_prefix cl) ex sy")
  case (Inr key)
  define c' where "c' = (if 0 < cl_timeout cl then with_timeout c (cl_timeout cl) w else c)"
  obtain r w1 where g: "get cl c' key w = (r, w1)" by (cases "get cl c' key w")
  have "extends pipeline_event w w1" using get_extends [of w cl c' key] g by simp
  then show ?thesis
    using Inr wrapReadError_extends
    by (auto simp: ReadSummary_def Let_def c'_def [symmetric] g split_beta split: sum.splits
        intro: extends_trans)
qed (simp add: ReadSummary_def)

interpretation store_reader: summary_reader "\<lambda>(c, ex, sy). ReadSummary uc cl c ex sy" for uc cl
  by unfold_locales (simp add: split_beta ReadSummary_extends)

lemma ReadSummary_trace:
  "w_trace (snd (ReadSummary uc cl c ex sy w)) = w_trace w @
    (case BuildKey uc (cl_prefix cl) ex sy of Inl e \<Rightarrow> [] | Inr key \<Rightarrow> [Ev_get (cl_bucket cl) key])"
proof (cases "BuildKey uc (cl_prefix cl) ex sy")
  case (Inr key)
  define c' where "c' = (if 0 < cl_timeout cl then with_timeout c (cl_timeout cl) w else c)"
  obtain r w1 where g: "get cl c' key w = (r, w1)" by (cases "get cl c' key w")
  then have "w_trace w1 = w_trace w @ [Ev_get (cl_bucket cl) key]"
    using get_trace [of cl c' key w] by simp
  then show ?thesis
    using Inr by (auto simp: ReadSummary_def Let_def c'_def [symmetric] g split_beta trace_simps
        split: sum.splits)
qed (simp add: ReadSummary_def)

text \<open>The error of a failed read, with the context that the read was made under.\<close>

definition read_ctx :: "client \<Rightarrow> ctx \<Rightarrow> world \<Rightarrow> ctx" where
  "read_ctx cl c w = (if 0 < cl_timeout cl then with_timeout c (cl_timeout cl) w else c)"

lemma ReadSummary_result:
  assumes "BuildKey uc (cl_prefix cl) ex sy = Inr key"
  shows "fst (ReadSummary uc cl c ex sy w) =
    (case get cl (read_ctx cl c w) key w of
       (Inr body, _) \<Rightarrow> Inr body
     | (Inl err, w1) \<Rightarrow> Inl (Err_wrap ''summarystore: read %q: %w'' [A_str key]
         (if isNotFound (Some err) then ErrNotFound
          else case ctx_state (read_ctx cl c w) (w_clock (tick w1)) of
            Some ce \<Rightarrow> Err_ctx ce | None \<Rightarrow> err)))"
  using assms
  by (simp add: ReadSummary_def read_ctx_def [symmetric] Let_def wrapReadError_def ctx_err_def
      split: prod.splits sum.splits)

lemma error_is_leaf [simp]:
  "error_is (Err_ctx x) t \<longleftrightarrow> t = Err_ctx x" "error_is (Err_new m) t \<longleftrightarrow> t = Err_new m"
  by auto

lemma ReadSummary_not_found_iff:
  assumes "BuildKey uc (cl_prefix cl) ex sy = Inr key"
    and "get cl (read_ctx cl c w) key w = (Inl err, w1)" and "\<not> error_is err ErrNotFound"
  shows "\<exists>e. fst (ReadSummary uc cl c ex sy w) = Inl e \<and>
    (error_is e ErrNotFound \<longleftrightarrow> isNotFound (Some err))"
  using assms(3) unfolding ReadSummary_result [OF assms(1)] assms(2)
  by (auto simp: ErrNotFound_def split: option.splits)

end
