(* ===== verification/Store_Properties.thy ===== *)
theory Store_Properties
  imports Store_Facts
begin

text \<open>
  The properties of \<open>internal/summarystore/store.go\<close>.
\<close>

text \<open>
  Property C16. Exactly the identities that are non-blank and contain neither a slash nor two dots
  in a row have a key (under a prefix without two dots in a row), and it is
  \<open>[prefix/]EXCHANGE/SYMBOL/summary.md\<close>.
\<close>

theorem BuildKey_spec:
  "BuildKey uc pre ex sy = Inr key \<longleftrightarrow>
     identity_ok ex \<and> identity_ok sy \<and> \<not> contains (trim_space pre) ''..'' \<and>
     key = canonical_key uc pre ex sy"
  by (rule BuildKey_Inr_iff)

text \<open>
  Property C12. A key cannot leave the bucket's prefix: it starts with no slash, none of its
  segments is empty or \<open>..\<close>, and the segments are those of the prefix followed by exactly
  exchange, symbol and \<open>summary.md\<close>.
\<close>

theorem BuildKey_contained:
  assumes "BuildKey uc pre ex sy = Inr key" and "case_table_ok uc"
  shows "hd key \<noteq> CHR ''/'' \<and>
    (\<forall>x \<in> set (split_on (CHR ''/'') key). x \<noteq> [] \<and> x \<noteq> ''..'') \<and>
    (let p = store_normalizePrefix (trim_space pre) in
     split_on (CHR ''/'') key = (if p = [] then [] else split_on (CHR ''/'') p) @
       [to_upper uc (trim_space ex), to_upper uc (trim_space sy), ''summary.md''])"
proof -
  have ok: "identity_ok ex" "identity_ok sy" "\<not> contains (trim_space pre) ''..''"
    and key: "key = canonical_key uc pre ex sy"
    using assms(1) by (simp_all add: BuildKey_Inr_iff)
  note split = canonical_key_split [OF ok(1,2) assms(2), of pre]
  have "key \<noteq> []" using split key by auto
  then have "hd key \<noteq> CHR ''/''"
    using clean_path_ends(1) clean_path_canonical [OF ok(1,2) assms(2) ok(3)] key by blast
  moreover have "\<forall>x \<in> set (split_on (CHR ''/'') key). x \<noteq> [] \<and> x \<noteq> ''..''"
    using canonical_key_segments [OF ok(1,2) assms(2) ok(3)] key by blast
  moreover have "let p = store_normalizePrefix (trim_space pre) in
     split_on (CHR ''/'') key = (if p = [] then [] else split_on (CHR ''/'') p) @
       [to_upper uc (trim_space ex), to_upper uc (trim_space sy), ''summary.md'']"
    unfolding Let_def key by (rule split)
  ultimately show ?thesis by blast
qed

theorem BuildKey_contained_witness:
  "BuildKey ascii_case ''a//b'' ''nasdaq'' '' aapl'' = Inr ''a/b/NASDAQ/AAPL/summary.md'' \<and>
   hd ''a/b/NASDAQ/AAPL/summary.md'' \<noteq> CHR ''/''"
proof -
  have k: "BuildKey ascii_case ''a//b'' ''nasdaq'' '' aapl'' = Inr ''a/b/NASDAQ/AAPL/summary.md''"
    by code_simp
  with BuildKey_contained [OF k case_table_ok_ascii] show ?thesis by blast
qed

text \<open>
  Property C36. Two identities share a key under one prefix only when they are equal up to
  surrounding white space and letter case.
\<close>

theorem BuildKey_injective:
  assumes "BuildKey uc pre ex1 sy1 = Inr key" and "BuildKey uc pre ex2 sy2 = Inr key"
    and "case_table_ok uc"
  shows "to_upper uc (trim_space ex1) = to_upper uc (trim_space ex2) \<and>
    to_upper uc (trim_space sy1) = to_upper uc (trim_space sy2)"
proof -
  have ok: "identity_ok ex1" "identity_ok sy1" "identity_ok ex2" "identity_ok sy2"
    and key: "canonical_key uc pre ex1 sy1 = canonical_key uc pre ex2 sy2"
    using assms(1,2) by (simp_all add: BuildKey_Inr_iff)
  then show ?thesis
    using canonical_key_split [OF ok(1,2) assms(3), of pre]
      canonical_key_split [OF ok(3,4) assms(3), of pre] by simp
qed

theorem BuildKey_injective_witness:
  "\<exists>key. BuildKey ascii_case [] ''nyse'' ''ibm'' = Inr key \<and>
     BuildKey ascii_case [] '' NYSE'' ''Ibm'' = Inr key \<and>
     to_upper ascii_case (trim_space ''nyse'') = to_upper ascii_case (trim_space '' NYSE'')"
proof -
  have k: "BuildKey ascii_case [] ''nyse'' ''ibm'' = Inr ''NYSE/IBM/summary.md''"
    "BuildKey ascii_case [] '' NYSE'' ''Ibm'' = Inr ''NYSE/IBM/summary.md''"
    by code_simp+
  with BuildKey_injective [OF k case_table_ok_ascii] show ?thesis by blast
qed

text \<open>
  Property C37. A read makes at most one request: one \<open>GetObject\<close> for the canonical key in the
  client's bucket when the identity has a key, and none when it has not; nothing else happens.
\<close>

theorem ReadSummary_single_get:
  "w_trace (snd (ReadSummary uc cl c ex sy w)) = w_trace w @
    (case BuildKey uc (cl_prefix cl) ex sy of Inl e \<Rightarrow> [] | Inr key \<Rightarrow> [Ev_get (cl_bucket cl) key])"
  by (rule ReadSummary_trace)

text \<open>The errors from outside the repository in an error, in the order in which they are searched.\<close>

fun ext_leaves :: "go_error \<Rightarrow> ext_error list" where
  "ext_leaves (Err_ext x) = [x]"
| "ext_leaves (Err_wrap f as e) = ext_leaves e"
| "ext_leaves (Err_join es) = concat (map ext_leaves es)"
| "ext_leaves e = []"

lemma foldr_first:
  "(\<And>e. e \<in> set es \<Longrightarrow> g e = (case List.map_filter f (l e) of [] \<Rightarrow> None | a # _ \<Rightarrow> Some a)) \<Longrightarrow>
   foldr (\<lambda>e r. case g e of None \<Rightarrow> r | Some a \<Rightarrow> Some a) es None =
     (case List.map_filter f (concat (map l es)) of [] \<Rightarrow> None | a # _ \<Rightarrow> Some a)"
  by (induction es) (auto simp: List.map_filter_def split: list.splits)

lemma error_as_leaves:
  "error_as f e = (case List.map_filter f (ext_leaves e) of [] \<Rightarrow> None | a # _ \<Rightarrow> Some a)"
proof (induction f e rule: error_as.induct)
  case (3 f es)
  then show ?case by (simp add: foldr_first [where l = ext_leaves])
qed (auto simp: List.map_filter_def split: option.splits)

lemma first_test:
  "(case List.map_filter (\<lambda>x. if P x then Some () else None) xs of [] \<Rightarrow> None | a # _ \<Rightarrow> Some a) = None
     \<longleftrightarrow> (\<forall>x \<in> set xs. \<not> P x)"
  by (induction xs) (auto simp: List.map_filter_def)

lemma isNotFound_leaves:
  "isNotFound (Some err) \<longleftrightarrow>
     (\<exists>x \<in> set (ext_leaves err). ext_no_such_key x \<or> ext_not_found x) \<or>
     (case List.map_filter ext_api_code (ext_leaves err) of
        [] \<Rightarrow> False | code # _ \<Rightarrow> code = ''NoSuchKey'' \<or> code = ''NotFound'') \<or>
     (case List.map_filter ext_http_status (ext_leaves err) of
        [] \<Rightarrow> False | status # _ \<Rightarrow> status = 404)"
proof -
  have some: "error_as (\<lambda>x. if P x then Some () else None) err \<noteq> None \<longleftrightarrow> (\<exists>x \<in> set (ext_leaves err). P x)"
    for P
    by (simp add: error_as_leaves first_test)
  show ?thesis
    unfolding isNotFound_def option.case some error_as_leaves [of ext_api_code]
      error_as_leaves [of ext_http_status]
    by (auto split: list.splits)
qed

text \<open>
  Property C17. A read that fails is reported as \<open>ErrNotFound\<close> exactly for a definitive miss: the SDK's
  error is, or wraps, a \<open>NoSuchKey\<close> or a \<open>NotFound\<close>, or the first API error in it has one of those two
  codes, or the first response error in it has status 404. Every other failure is wrapped as it is, or,
  when the context of the read is done, as the context's error; so a time-out is never a miss. (The
  SDK cannot return the repository's own sentinel.)
\<close>

theorem ReadSummary_miss:
  assumes "BuildKey uc (cl_prefix cl) ex sy = Inr key"
    and "get cl (read_ctx cl c w) key w = (Inl err, w1)" and "\<not> error_is err ErrNotFound"
  shows "let miss = (\<exists>x \<in> set (ext_leaves err). ext_no_such_key x \<or> ext_not_found x) \<or>
      (case List.map_filter ext_api_code (ext_leaves err) of
         [] \<Rightarrow> False | code # _ \<Rightarrow> code = ''NoSuchKey'' \<or> code = ''NotFound'') \<or>
      (case List.map_filter ext_http_status (ext_leaves err) of
         [] \<Rightarrow> False | status # _ \<Rightarrow> status = 404)
    in \<exists>e. fst (ReadSummary uc cl c ex sy w) = Inl e \<and> (error_is e ErrNotFound \<longleftrightarrow> miss) \<and>
      e = Err_wrap ''summarystore: read %q: %w'' [A_str key]
        (if miss then ErrNotFound
         else case ctx_state (read_ctx cl c w) (w_clock (tick w1)) of
           Some ce \<Rightarrow> Err_ctx ce | None \<Rightarrow> err)"
  using assms(3) ReadSummary_result [OF assms(1), of c w]
  unfolding assms(2) isNotFound_leaves [symmetric] Let_def
  by (auto simp: ErrNotFound_def split: option.splits)

definition sample_client :: "s3_api \<Rightarrow> client" where
  "sample_client api = \<lparr>cl_api = api, cl_bucket = ''b'', cl_prefix = [], cl_timeout = 0\<rparr>"

definition missing_object :: go_error where
  "missing_object = Err_ext \<lparr>ext_text = ''NoSuchKey'', ext_no_such_key = True, ext_not_found = False,
     ext_api_code = Some ''NoSuchKey'', ext_http_status = Some 404\<rparr>"

definition calm_world :: world where
  "calm_world = \<lparr>w_steps = 0, w_clock = 0, w_latency = (\<lambda>_. 1), w_choice = (\<lambda>_. True), w_trace = []\<rparr>"

definition open_ctx :: ctx where
  "open_ctx = \<lparr>ctx_cancel = None, ctx_deadline = None\<rparr>"

text \<open>A missing object, and a request that fails for another reason.\<close>

theorem ReadSummary_miss_witness:
  "(\<exists>e. fst (ReadSummary ascii_case (sample_client (\<lambda>_ _ _ _. Inl missing_object)) open_ctx
      ''nyse'' ''ibm'' calm_world) = Inl e \<and> error_is e ErrNotFound) \<and>
   (\<exists>e. fst (ReadSummary ascii_case (sample_client (\<lambda>_ _ _ _. Inl (plain_ext ''reset''))) open_ctx
      ''nyse'' ''ibm'' calm_world) = Inl e \<and> \<not> error_is e ErrNotFound)"
proof -
  have k: "BuildKey ascii_case (cl_prefix (sample_client api)) ''nyse'' ''ibm'' =
      Inr ''NYSE/IBM/summary.md''" for api
  proof -
    have prefix: "cl_prefix (sample_client api) = []" by (simp add: sample_client_def)
    show ?thesis unfolding prefix by code_simp
  qed
  have g: "\<exists>w1. get (sample_client (\<lambda>_ _ _ _. Inl err))
      (read_ctx (sample_client (\<lambda>_ _ _ _. Inl err)) open_ctx calm_world) key calm_world = (Inl err, w1)"
    for err key
    by (simp add: get_def sample_client_def Let_def)
  have n: "\<not> error_is missing_object ErrNotFound" "\<not> error_is (plain_ext ''reset'') ErrNotFound"
    by (simp_all add: missing_object_def plain_ext_def ErrNotFound_def)
  obtain w1 w2 where
    "get (sample_client (\<lambda>_ _ _ _. Inl missing_object)) (read_ctx (sample_client
      (\<lambda>_ _ _ _. Inl missing_object)) open_ctx calm_world) ''NYSE/IBM/summary.md'' calm_world =
      (Inl missing_object, w1)"
    "get (sample_client (\<lambda>_ _ _ _. Inl (plain_ext ''reset''))) (read_ctx (sample_client
      (\<lambda>_ _ _ _. Inl (plain_ext ''reset''))) open_ctx calm_world) ''NYSE/IBM/summary.md'' calm_world =
      (Inl (plain_ext ''reset''), w2)"
    using g by metis
  from ReadSummary_miss [OF k this(1) n(1)] ReadSummary_miss [OF k this(2) n(2)] show ?thesis
    by (auto simp: missing_object_def plain_ext_def Let_def List.map_filter_def)
qed

end
