(* ===== verification/Go_Json.thy ===== *)
theory Go_Json
  imports Go_Errors
begin

text \<open>
  \<open>encoding/json\<close> as the program uses it to read the answers of HTTP servers: \<open>Decoder.Decode\<close>
  into a struct. The decoder reads one value and ignores what follows it; it rejects invalid
  syntax and a nesting of more than 10000 arrays and objects; an object's members go to the fields
  whose names match up to letter case, the last one wins, \<open>null\<close> changes nothing, and a value of
  another type is an error. The values of the library's errors, which the program only wraps and
  logs, are a parameter (\<open>lib_errors\<close>).
\<close>

section \<open>Values\<close>

text \<open>The errors of \<open>encoding/json\<close>'s decoder and of \<open>url.Parse\<close> by the text they reject.\<close>

record lib_errors =
  le_json :: "string \<Rightarrow> go_error"
  le_url :: "string \<Rightarrow> go_error"

datatype jvalue =
    V_null
  | V_bool bool
  | V_num string
  | V_str string
  | V_arr "jvalue list"
  | V_obj "(string \<times> jvalue) list"

definition skip_ws :: "string \<Rightarrow> string" where
  "skip_ws = dropWhile (\<lambda>c. c \<in> set [CHR 0x20, CHR 0x09, CHR 0x0D, CHR 0x0A])"

lemma skip_ws_length: "length (skip_ws s) \<le> length s"
  by (simp add: skip_ws_def length_dropWhile_le)

lemma skip_ws_Cons: "skip_ws s = c # t \<Longrightarrow> length t < length s"
  using skip_ws_length [of s] by simp

section \<open>String literals\<close>

definition hex_digit :: "char \<Rightarrow> nat option" where
  "hex_digit c =
     (if in_range 48 57 c then Some (byte c - 48)
      else if in_range 97 102 c then Some (byte c - 87)
      else if in_range 65 70 c then Some (byte c - 55)
      else None)"

fun hex4 :: "string \<Rightarrow> (nat \<times> string) option" where
  "hex4 (a # b # c # d # s) =
     (case (hex_digit a, hex_digit b, hex_digit c, hex_digit d) of
        (Some p, Some q, Some r, Some t) \<Rightarrow> Some (((p * 16 + q) * 16 + r) * 16 + t, s)
      | _ \<Rightarrow> None)"
| "hex4 s = None"

lemma hex4_length: "hex4 s = Some (n, t) \<Longrightarrow> length t < length s"
  by (cases s rule: hex4.cases) (auto split: option.splits)

text \<open>The second half of a surrogate pair: \<open>\u\<close> and four digits.\<close>

definition low_half :: "nat \<Rightarrow> string \<Rightarrow> (nat \<times> string) option" where
  "low_half hi s =
     (case strip_front [CHR 0x5C, CHR ''u''] s of
        None \<Rightarrow> None
      | Some t \<Rightarrow>
          (case hex4 t of
             None \<Rightarrow> None
           | Some (lo, u) \<Rightarrow>
               if hi < 0xDC00 \<and> 0xDC00 \<le> lo \<and> lo < 0xE000
               then Some (0x10000 + (hi - 0xD800) * 0x400 + (lo - 0xDC00), u) else None))"

lemma low_half_length: "low_half hi s = Some (n, t) \<Longrightarrow> length t < length s"
  by (fastforce simp: low_half_def strip_front_Some_iff
      split: option.splits if_splits dest!: hex4_length)

definition escape_char :: "char \<Rightarrow> char option" where
  "escape_char c =
     map_of [(CHR 0x22, CHR 0x22), (CHR 0x5C, CHR 0x5C), (CHR ''/'', CHR ''/''),
       (CHR ''b'', CHR 0x08), (CHR ''f'', CHR 0x0C), (CHR ''n'', CHR 0x0A),
       (CHR ''r'', CHR 0x0D), (CHR ''t'', CHR 0x09)] c"

text \<open>One element of a literal: the bytes it stands for and what follows it.\<close>

definition literal_step :: "char \<Rightarrow> string \<Rightarrow> (string \<times> string) option" where
  "literal_step c s =
     (if c = CHR 0x5C then
        (case s of
           [] \<Rightarrow> None
         | e # t \<Rightarrow>
             if e = CHR ''u'' then
               (case hex4 t of
                  None \<Rightarrow> None
                | Some (r, u) \<Rightarrow>
                    if 0xD800 \<le> r \<and> r < 0xE000 then
                      (case low_half r u of
                         Some (p, v) \<Rightarrow> Some (encode_rune p, v)
                       | None \<Rightarrow> Some (encode_rune 0xFFFD, u))
                    else Some (encode_rune r, u))
             else (case escape_char e of None \<Rightarrow> None | Some x \<Rightarrow> Some ([x], t)))
      else if byte c < 0x20 then None
      else if byte c < 0x80 then Some ([c], s)
      else Some (encode_rune (fst (decode_rune c s)), drop (snd (decode_rune c s)) s))"

lemma literal_step_length: "literal_step c s = Some (x, t) \<Longrightarrow> length t \<le> length s"
  by (auto simp: literal_step_def split: if_splits list.splits option.splits prod.splits
      dest!: hex4_length low_half_length)

text \<open>The literal after its opening quote: its contents and what follows the closing one.\<close>

function parse_str :: "string \<Rightarrow> (string \<times> string) option" where
  "parse_str [] = None"
| "parse_str (c # s) =
     (if c = CHR 0x22 then Some ([], s)
      else (case literal_step c s of
        None \<Rightarrow> None
      | Some (x, t) \<Rightarrow>
          (case parse_str t of None \<Rightarrow> None | Some (y, u) \<Rightarrow> Some (x @ y, u))))"
  by pat_completeness auto
termination
  by (relation "measure length") (auto dest!: literal_step_length)

lemma parse_str_length: "parse_str s = Some (x, t) \<Longrightarrow> length t < length s"
proof (induction s arbitrary: x t rule: parse_str.induct)
  case (2 c s)
  then show ?case
    by (fastforce split: if_splits option.splits prod.splits dest!: literal_step_length)
qed simp

section \<open>Numbers\<close>

definition num_int :: "string \<Rightarrow> string option" where
  "num_int s =
     (case s of
        [] \<Rightarrow> None
      | c # t \<Rightarrow> if c = CHR ''0'' then Some t
                 else if is_digit c then Some (dropWhile is_digit t) else None)"

definition num_frac :: "string \<Rightarrow> string option" where
  "num_frac s =
     (case s of
        [] \<Rightarrow> Some []
      | c # t \<Rightarrow> if c = CHR ''.'' then
                   (case t of [] \<Rightarrow> None
                    | d # u \<Rightarrow> if is_digit d then Some (dropWhile is_digit u) else None)
                 else Some s)"

definition num_exp :: "string \<Rightarrow> string option" where
  "num_exp s =
     (case s of
        [] \<Rightarrow> Some []
      | c # t \<Rightarrow> if c \<in> set [CHR ''e'', CHR ''E''] then
                   (let u = (case t of [] \<Rightarrow> []
                             | d # v \<Rightarrow> if d \<in> set [CHR ''+'', CHR ''-''] then v else t)
                    in case u of [] \<Rightarrow> None
                       | d # v \<Rightarrow> if is_digit d then Some (dropWhile is_digit v) else None)
                 else Some s)"

text \<open>The text of the number and what follows it.\<close>

definition parse_num :: "string \<Rightarrow> (string \<times> string) option" where
  "parse_num s =
     (case num_int (case s of [] \<Rightarrow> [] | c # t \<Rightarrow> if c = CHR ''-'' then t else s) of
        None \<Rightarrow> None
      | Some a \<Rightarrow>
          (case num_frac a of
             None \<Rightarrow> None
           | Some b \<Rightarrow>
               (case num_exp b of
                  None \<Rightarrow> None
                | Some r \<Rightarrow> Some (take (length s - length r) s, r))))"

lemma num_int_length: "num_int s = Some t \<Longrightarrow> length t < length s"
  by (auto simp: num_int_def less_Suc_eq_le length_dropWhile_le split: list.splits if_splits)

lemma num_frac_length: "num_frac s = Some t \<Longrightarrow> length t \<le> length s"
  by (auto simp: num_frac_def le_Suc_eq length_dropWhile_le split: list.splits if_splits)

lemma num_exp_length: "num_exp s = Some t \<Longrightarrow> length t \<le> length s"
  by (auto simp: num_exp_def Let_def le_Suc_eq length_dropWhile_le split: list.splits if_splits)

lemma parse_num_length: "parse_num s = Some (x, t) \<Longrightarrow> length t < length s"
  by (cases s)
    (auto simp: parse_num_def split: option.splits if_splits
      dest!: num_int_length num_frac_length num_exp_length)

section \<open>Values\<close>

text \<open>
  \<open>d\<close> is how deep the value may still nest. What follows a member or an element is always shorter
  than what it was read from; the comparisons of lengths say so to the termination proof.
\<close>

definition lit :: "string \<Rightarrow> jvalue \<Rightarrow> string \<Rightarrow> (jvalue \<times> string) option" where
  "lit name v s = (case strip_front name s of None \<Rightarrow> None | Some t \<Rightarrow> Some (v, t))"

definition parse_key :: "string \<Rightarrow> (string \<times> string) option" where
  "parse_key s =
     (case skip_ws s of
        [] \<Rightarrow> None
      | c # t \<Rightarrow> if c = CHR 0x22 then
                   (case parse_str t of
                      None \<Rightarrow> None
                    | Some (k, u) \<Rightarrow>
                        (case skip_ws u of
                           [] \<Rightarrow> None
                         | e # v \<Rightarrow> if e = CHR '':'' then Some (k, v) else None))
                 else None)"

lemma parse_key_length: "parse_key s = Some (k, t) \<Longrightarrow> length t < length s"
  by (fastforce simp: parse_key_def split: list.splits if_splits option.splits prod.splits
      dest!: skip_ws_Cons parse_str_length)

function parse_value :: "nat \<Rightarrow> string \<Rightarrow> (jvalue \<times> string) option"
  and parse_members :: "nat \<Rightarrow> string \<Rightarrow> ((string \<times> jvalue) list \<times> string) option"
  and parse_elems :: "nat \<Rightarrow> string \<Rightarrow> (jvalue list \<times> string) option" where
  "parse_value d s =
     (case skip_ws s of
        [] \<Rightarrow> None
      | c # t \<Rightarrow>
          if c = CHR ''{'' then
            (if d = 0 then None
             else case skip_ws t of
               [] \<Rightarrow> None
             | e # u \<Rightarrow>
                 if e = CHR ''}'' then Some (V_obj [], u)
                 else (case parse_members (d - 1) t of
                     None \<Rightarrow> None | Some (ms, v) \<Rightarrow> Some (V_obj ms, v)))
          else if c = CHR ''['' then
            (if d = 0 then None
             else case skip_ws t of
               [] \<Rightarrow> None
             | e # u \<Rightarrow>
                 if e = CHR '']'' then Some (V_arr [], u)
                 else (case parse_elems (d - 1) t of
                     None \<Rightarrow> None | Some (es, v) \<Rightarrow> Some (V_arr es, v)))
          else if c = CHR 0x22 then
            (case parse_str t of None \<Rightarrow> None | Some (x, u) \<Rightarrow> Some (V_str x, u))
          else if c = CHR ''t'' then lit ''rue'' (V_bool True) t
          else if c = CHR ''f'' then lit ''alse'' (V_bool False) t
          else if c = CHR ''n'' then lit ''ull'' V_null t
          else (case parse_num (c # t) of None \<Rightarrow> None | Some (x, u) \<Rightarrow> Some (V_num x, u)))"
| "parse_members d s =
     (case parse_key s of
        None \<Rightarrow> None
      | Some (k, t) \<Rightarrow>
          if length t < length s then
            (case parse_value d t of
               None \<Rightarrow> None
             | Some (x, u) \<Rightarrow>
                 (case skip_ws u of
                    [] \<Rightarrow> None
                  | e # v \<Rightarrow>
                      if e = CHR ''}'' then Some ([(k, x)], v)
                      else if e = CHR '','' \<and> length v < length s then
                        (case parse_members d v of
                           None \<Rightarrow> None | Some (ms, r) \<Rightarrow> Some ((k, x) # ms, r))
                      else None))
          else None)"
| "parse_elems d s =
     (case parse_value d s of
        None \<Rightarrow> None
      | Some (x, u) \<Rightarrow>
          (case skip_ws u of
             [] \<Rightarrow> None
           | e # v \<Rightarrow>
               if e = CHR '']'' then Some ([x], v)
               else if e = CHR '','' \<and> length v < length s then
                 (case parse_elems d v of
                    None \<Rightarrow> None | Some (es, r) \<Rightarrow> Some (x # es, r))
               else None))"
  by pat_completeness auto
termination
  by (relation "measure (case_sum (\<lambda>(d, s). 2 * length s)
        (case_sum (\<lambda>(d, s). 2 * length s + 1) (\<lambda>(d, s). 2 * length s + 1)))")
    (auto dest!: skip_ws_Cons)

declare parse_value.simps [simp del] parse_members.simps [simp del] parse_elems.simps [simp del]

definition max_depth :: nat where
  "max_depth = 10000"

definition decode_value :: "string \<Rightarrow> (jvalue \<times> string) option" where
  "decode_value s = parse_value max_depth s"

section \<open>Decoding into a struct\<close>

text \<open>
  Field names match up to simple case folding. The names of the program are ASCII, so only the two
  code points outside ASCII that fold into it matter.
\<close>

definition fold_rune :: "nat \<Rightarrow> nat" where
  "fold_rune r = (if r = 0x17F then byte (CHR ''S'') else if r = 0x212A then byte (CHR ''K'')
                  else ascii_upper r)"

definition fold_name :: "string \<Rightarrow> nat list" where
  "fold_name s = map fold_rune (runes s)"

lemma fold_name_ascii:
  "list_all is_ascii s \<Longrightarrow> fold_name s = map (\<lambda>c. ascii_upper (byte c)) s"
  by (auto simp: fold_name_def runes_ascii fold_rune_def list_all_iff is_ascii_def)

text \<open>The members of the object, where \<open>null\<close> in its place is none.\<close>

definition decode_object :: "string \<Rightarrow> (string \<times> jvalue) list option" where
  "decode_object s =
     (case decode_value s of
        Some (V_obj ms, _) \<Rightarrow> Some ms
      | Some (V_null, _) \<Rightarrow> Some []
      | _ \<Rightarrow> None)"

definition set_str :: "jvalue \<Rightarrow> string \<Rightarrow> string option" where
  "set_str v old = (case v of V_str x \<Rightarrow> Some x | V_null \<Rightarrow> Some old | _ \<Rightarrow> None)"

definition set_bool :: "jvalue \<Rightarrow> bool \<Rightarrow> bool option" where
  "set_bool v old = (case v of V_bool x \<Rightarrow> Some x | V_null \<Rightarrow> Some old | _ \<Rightarrow> None)"

text \<open>
  The field \<open>name\<close> after all members, starting from its zero value; \<^const>\<open>None\<close> if a member that
  goes to it has another type.
\<close>

fun set_field :: "(jvalue \<Rightarrow> 'a \<Rightarrow> 'a option) \<Rightarrow> string \<Rightarrow> (string \<times> jvalue) list \<Rightarrow> 'a \<Rightarrow> 'a option" where
  "set_field upd name [] x = Some x"
| "set_field upd name ((k, v) # ms) x =
     (if fold_name k = fold_name name
      then (case upd v x of None \<Rightarrow> None | Some y \<Rightarrow> set_field upd name ms y)
      else set_field upd name ms x)"

text \<open>Every value takes at least one byte, so the comparisons of lengths above always hold.\<close>

lemma lit_length: "lit name v s = Some (x, r) \<Longrightarrow> length r \<le> length s"
  by (auto simp: lit_def strip_front_Some_iff split: option.splits)

lemma parse_value_length:
  assumes "\<And>d ms r t. length t < length s \<Longrightarrow> parse_members d t = Some (ms, r) \<Longrightarrow> length r < length t"
    and "\<And>d es r t. length t < length s \<Longrightarrow> parse_elems d t = Some (es, r) \<Longrightarrow> length r < length t"
    and p: "parse_value d s = Some (v, r)"
  shows "length r < length s"
proof -
  obtain c t where ct: "skip_ws s = c # t"
    using p by (subst (asm) parse_value.simps) (auto split: list.splits)
  then have t: "length t < length s" by (rule skip_ws_Cons)
  note p' = p [unfolded parse_value.simps [of d s] ct list.case]
  have "length r \<le> length t"
  proof (cases "c = CHR ''{'' \<or> c = CHR ''[''")
    case True
    then have "d \<noteq> 0" using p' by (auto split: if_splits)
    moreover from this obtain e u where eu: "skip_ws t = e # u"
      using p' True by (auto split: list.splits)
    moreover have "length u < length t" using eu by (rule skip_ws_Cons)
    ultimately show ?thesis
      using p' True assms(1) [OF t] assms(2) [OF t]
      by (auto split: if_splits option.splits prod.splits intro: less_imp_le)
  next
    case False
    then show ?thesis
      using p' parse_num_length [of "c # t"] parse_str_length [of t] lit_length [of _ _ t]
      by (auto simp: less_Suc_eq_le split: if_splits option.splits prod.splits intro: less_imp_le)
  qed
  with t show ?thesis by simp
qed

lemma parse_members_length:
  assumes v: "\<And>d x r t. length t < length s \<Longrightarrow> parse_value d t = Some (x, r) \<Longrightarrow> length r < length t"
    and m: "\<And>d ms r t. length t < length s \<Longrightarrow> parse_members d t = Some (ms, r) \<Longrightarrow> length r < length t"
    and p: "parse_members d s = Some (ms, r)"
  shows "length r < length s"
proof -
  obtain k t where kt: "parse_key s = Some (k, t)" "length t < length s"
    using p by (subst (asm) parse_members.simps) (auto split: option.splits if_splits)
  then obtain x u where xu: "parse_value d t = Some (x, u)"
    using p by (subst (asm) parse_members.simps) (auto split: option.splits)
  then have u: "length u < length t" using v kt by blast
  with p kt xu show ?thesis
    by (subst (asm) parse_members.simps)
      (fastforce split: list.splits if_splits option.splits dest!: skip_ws_Cons dest: m)
qed

lemma parse_elems_length:
  assumes v: "\<And>d x r. parse_value d s = Some (x, r) \<Longrightarrow> length r < length s"
    and m: "\<And>d es r t. length t < length s \<Longrightarrow> parse_elems d t = Some (es, r) \<Longrightarrow> length r < length t"
    and p: "parse_elems d s = Some (es, r)"
  shows "length r < length s"
proof -
  obtain x u where xu: "parse_value d s = Some (x, u)"
    using p by (subst (asm) parse_elems.simps) (auto split: option.splits)
  then have u: "length u < length s" using v by blast
  with p xu show ?thesis
    by (subst (asm) parse_elems.simps)
      (fastforce split: list.splits if_splits option.splits dest!: skip_ws_Cons dest: m)
qed

lemma parse_lengths:
  "(\<forall>d v r. parse_value d s = Some (v, r) \<longrightarrow> length r < length s) \<and>
   (\<forall>d ms r. parse_members d s = Some (ms, r) \<longrightarrow> length r < length s) \<and>
   (\<forall>d es r. parse_elems d s = Some (es, r) \<longrightarrow> length r < length s)"
proof (induction s rule: length_induct)
  case (1 s)
  then have ih: "parse_value d t = Some (v, r) \<Longrightarrow> length r < length t"
      "parse_members d t = Some (ms, r) \<Longrightarrow> length r < length t"
      "parse_elems d t = Some (es, r) \<Longrightarrow> length r < length t"
    if "length t < length s" for d t v ms es r using that by blast+
  have v: "parse_value d s = Some (v, r) \<Longrightarrow> length r < length s" for d v r
    by (rule parse_value_length [OF ih(2,3)]) assumption+
  have "parse_members d s = Some (ms, r) \<Longrightarrow> length r < length s" for d ms r
    by (rule parse_members_length [OF ih(1,2)]) assumption+
  moreover have "parse_elems d s = Some (es, r) \<Longrightarrow> length r < length s" for d es r
    by (rule parse_elems_length [OF v ih(3)]) assumption+
  ultimately show ?case using v by blast
qed

end
