(* ===== verification/Rewriter_Properties.thy ===== *)
theory Rewriter_Properties
  imports Rewriter Url_Facts
begin

text \<open>
  The properties of \<open>internal/rewriter/ollama.go\<close>.
\<close>

text \<open>
  Property C14. A rewrite succeeds only on a 2xx answer whose body decodes to a completed response
  that was not stopped by the token limit; the report is that response without surrounding white
  space, not empty, and within the configured number of characters.
\<close>

theorem Rewrite_report:
  assumes "fst (Rewrite le date ol c summary w) = Inr report"
  shows "report \<noteq> [] \<and> trim_space report = report \<and>
    (0 < o_maxOutputChars ol \<longrightarrow> int (rune_count report) \<le> o_maxOutputChars ol) \<and>
    (\<exists>rq resp out. o_client ol c (w_steps w) rq = Inr resp \<and>
       200 \<le> resp_status resp \<and> resp_status resp < 300 \<and>
       decode_generate (take maxResponseBytes (resp_body resp)) = Some out \<and>
       gr_Done out \<and> gr_DoneReason out \<noteq> ''length'' \<and> report = trim_space (gr_Response out))"
  using Rewrite_Inr [OF assms] by (auto simp: read_report_Inr_iff accept_report_Inr_iff)

definition sample_ollama :: "string \<Rightarrow> ollama" where
  "sample_ollama body = \<lparr>o_endpoint = ''http://ollama.example/api/generate'', o_model = ''m'',
     o_systemPrompt = ''s'', o_temperature = F_fin 1, o_maxTokens = 64, o_maxOutputChars = 10,
     o_client = (\<lambda>c n rq. Inr \<lparr>resp_status = 200, resp_body = body\<rparr>)\<rparr>"

lemma sample_url: "url_parse ''http://ollama.example/api/generate'' \<noteq> None"
  by code_simp

lemma sample_object:
  \<open>decode_object ''{"response":" Up ","done":true}'' =
     Some [(''response'', V_str '' Up ''), (''done'', V_bool True)]\<close>
  by code_simp

lemma sample_decode:
  \<open>decode_generate ''{"response":" Up ","done":true}'' =
     Some \<lparr>gr_Response = '' Up '', gr_Done = True, gr_DoneReason = []\<rparr>\<close>
  by (simp add: decode_generate_def sample_object fold_name_ascii is_ascii_def ascii_upper_def
      set_str_def set_bool_def)

lemma trim_up: "trim_space '' Up '' = ''Up''"
  by code_simp

theorem Rewrite_report_witness:
  \<open>\<forall>le date c w. fst (Rewrite le date (sample_ollama ''{"response":" Up ","done":true}'') c ''s'' w) =
     Inr ''Up'' \<and> trim_space ''Up'' = ''Up''\<close>
proof (intro allI)
  fix le date c w
  let ?body = \<open>''{"response":" Up ","done":true}''\<close>
  have "take maxResponseBytes ?body = ?body" by (simp add: maxResponseBytes_def)
  moreover have "rune_count ''Up'' = 2" by code_simp
  ultimately have "read_report le (sample_ollama ?body) \<lparr>resp_status = 200, resp_body = ?body\<rparr> =
      Inr ''Up''"
    by (simp only: read_report_Inr_iff accept_report_Inr_iff)
      (simp add: sample_decode sample_ollama_def trim_up)
  then have r: "fst (Rewrite le date (sample_ollama ?body) c ''s'' w) = Inr ''Up''"
    using sample_url
    by (auto simp: Rewrite_def marshal_request_def marshal_float_def ollama_request_def
        sample_ollama_def http_do_def Let_def)
  from Rewrite_report [OF r] r
  show "fst (Rewrite le date (sample_ollama ?body) c ''s'' w) = Inr ''Up'' \<and> trim_space ''Up'' = ''Up''"
    by simp
qed


lemma default_prompt_not_blank: "trim_space DefaultOllamaSystemPrompt \<noteq> []"
proof -
  have "take 2 DefaultOllamaSystemPrompt = ''Yo''" by code_simp
  then have "DefaultOllamaSystemPrompt = CHR ''Y'' # [] @ CHR ''o'' # drop 2 DefaultOllamaSystemPrompt"
    by (metis append_take_drop_id append_Cons append_Nil)
  moreover have "graphic (CHR ''Y'')" and "graphic (CHR ''o'')" by (simp_all add: graphic_def)
  ultimately show ?thesis by (metis trim_space_inner list.distinct(1))
qed

lemma trim_right_replicate: "trim_right (s @ replicate n c) c = trim_right s c"
  by (simp add: trim_right_def rev_replicate dropWhile_append1)
    (induction n; simp)

text \<open>
  Property C40. The system prompt that is sent is never blank. Exactly one slash separates the base
  URL from the path, however many the base URL ends with.
\<close>

theorem New_ollama_defaults:
  "trim_space (o_systemPrompt (New_ollama mk cfg)) \<noteq> [] \<and>
   (let base = trim_right (ol_BaseURL cfg) (CHR ''/'') in
    o_endpoint (New_ollama mk cfg) = base @ ''/api/generate'' \<and> \<not> suffix ''/'' base) \<and>
   o_endpoint (New_ollama mk (cfg\<lparr>ol_BaseURL := ol_BaseURL cfg @ replicate n (CHR ''/'')\<rparr>)) =
     o_endpoint (New_ollama mk cfg)"
proof -
  have "\<not> suffix ''/'' (trim_right s (CHR ''/''))" for s
    using trim_right_last [of s "CHR ''/''"] by (auto simp: suffix_def)
  then show ?thesis
    using default_prompt_not_blank
    by (simp add: New_ollama_def Let_def trim_right_replicate generatePath_def)
qed

end
