(* ===== verification/Backoff.thy ===== *)
theory Backoff
  imports Config
begin

text \<open>
  The contract of the three retry delays of the program: they start at \<open>first\<close> and double up to
  \<open>cap\<close>. \<open>ok\<close> says for which attempts the code's arithmetic keeps to it.
\<close>

locale backoff =
  fixes delay :: "nat \<Rightarrow> int" and first :: int and cap :: int and ok :: "nat \<Rightarrow> bool"
  assumes delay_0: "delay 0 = first"
    and delay_Suc: "ok (Suc n) \<Longrightarrow> delay (Suc n) = min (2 * delay n) cap"
    and first_pos: "0 < first" and first_cap: "first \<le> cap"
    and ok_Suc: "ok (Suc n) \<Longrightarrow> ok n"
begin

lemma delay_closed: "ok n \<Longrightarrow> delay n = min (first * 2 ^ n) cap"
proof (induction n)
  case 0
  then show ?case using delay_0 first_cap by simp
next
  case (Suc n)
  then have "delay n = min (first * 2 ^ n) cap" using ok_Suc by blast
  moreover have "0 < cap" using first_pos first_cap by simp
  ultimately show ?case using delay_Suc [OF Suc.prems] by (simp add: min_def)
qed

lemma delay_bounds: "ok n \<Longrightarrow> first \<le> delay n \<and> delay n \<le> cap"
  using delay_closed [of n] first_pos first_cap
    mult_left_mono [of 1 "2 ^ n :: int" first] by simp

lemma delay_mono: "ok n \<Longrightarrow> m \<le> n \<Longrightarrow> delay m \<le> delay n"
proof (induction n)
  case (Suc n)
  have "delay n \<le> delay (Suc n)"
    using delay_Suc [OF Suc.prems(1)] delay_bounds [OF ok_Suc [OF Suc.prems(1)]] first_pos by simp
  moreover have "delay m \<le> delay n" if "m \<noteq> Suc n" using Suc that ok_Suc by simp
  ultimately show ?case by (cases "m = Suc n") auto
qed simp

lemma delay_saturates: "ok n \<Longrightarrow> delay m = cap \<Longrightarrow> m \<le> n \<Longrightarrow> delay n = cap"
  using delay_mono [of n m] delay_bounds [of n] by simp

text \<open>The time a run of \<open>n\<close> failed attempts waits.\<close>

lemma delay_total: "(\<And>i. i < n \<Longrightarrow> ok i) \<Longrightarrow> (\<Sum>i<n. delay i) \<le> int n * cap"
proof (induction n)
  case (Suc n)
  have "delay n \<le> cap" using delay_bounds Suc.prems by simp
  with Suc show ?case by (simp add: algebra_simps)
qed simp

end

end
