(* ===== verification/Messenger.thy ===== *)
theory Messenger
  imports Interfaces Go_Json Backoff
begin

text \<open>
  \<open>internal/messenger/gotosocial_publisher.go\<close>: posting a status to a GoToSocial instance, with
  retries. The instance's server is the field \<open>gp_client\<close>.
\<close>

section \<open>Types and construction\<close>

definition maxPublishRetries :: nat where
  "maxPublishRetries = 3"

definition publishBackoffBase :: int where
  "publishBackoffBase = 500000000"

definition publishMaxBackoff :: int where
  "publishMaxBackoff = 30 * second"

definition httpTimeout :: int where
  "httpTimeout = 20 * second"

definition maxStatusIDBytes :: nat where
  "maxStatusIDBytes = 64 * 2 ^ 10"

record gotosocial_publisher =
  gp_instance :: string
  gp_username :: string
  gp_token :: string
  gp_audience :: audience
  gp_recipient :: string
  gp_client :: http_client

text \<open>\<open>mk_client\<close> is the HTTP client with the given timeout and the constructor's transport.\<close>

definition NewGoToSocialPublisher ::
    "(int \<Rightarrow> http_client) \<Rightarrow> string \<Rightarrow> string \<Rightarrow> string \<Rightarrow> audience \<Rightarrow> string \<Rightarrow> gotosocial_publisher" where
  "NewGoToSocialPublisher mk_client inst username token audience recipient =
     \<lparr>gp_instance = trim_suffix inst ''/'', gp_username = username, gp_token = token,
      gp_audience = audience, gp_recipient = recipient, gp_client = mk_client httpTimeout\<rparr>"

section \<open>The form\<close>

definition status_form :: "gotosocial_publisher \<Rightarrow> string \<Rightarrow> form" where
  "status_form p text =
     (let f = form_set [] ''content_type'' ''text/markdown'' in
      if gp_audience p = AudienceLocal then
        (let f = form_set f ''status'' text;
             f = form_set f ''visibility'' ''public''
         in form_set f ''local_only'' ''true'')
      else if gp_audience p = AudienceDirect then
        (let f = form_set f ''status'' (''@'' @ gp_recipient p @ '' '' @ text);
             f = form_set f ''visibility'' ''direct''
         in form_set f ''local_only'' ''false'')
      else
        (let f = form_set f ''status'' text;
             f = form_set f ''visibility'' ''public''
         in form_set f ''local_only'' ''false''))"

section \<open>Retries\<close>

text \<open>The shift is on \<open>int64\<close>, so it wraps; only a too large result is capped.\<close>

definition publishBackoff :: "nat \<Rightarrow> int" where
  "publishBackoff attempt =
     (let backoff = wrap64 (publishBackoffBase * 2 ^ attempt) in
      if publishMaxBackoff < backoff then publishMaxBackoff else backoff)"

text \<open>Any failure to decode the response is an empty identifier.\<close>

definition decodeStatusID :: "string \<Rightarrow> string" where
  "decodeStatusID body =
     (case decode_object (take maxStatusIDBytes body) of
        None \<Rightarrow> []
      | Some ms \<Rightarrow> (case set_field set_str ''id'' ms [] of None \<Rightarrow> [] | Some x \<Rightarrow> x))"

definition status_request :: "gotosocial_publisher \<Rightarrow> string \<Rightarrow> http_request" where
  "status_request p body =
     \<lparr>req_method = ''POST'', req_url = gp_instance p @ ''/api/v1/statuses'',
      req_headers = [(''Content-Type'', ''application/x-www-form-urlencoded''),
        (''Authorization'', ''Bearer '' @ gp_token p)],
      req_body = Form_body body\<rparr>"

text \<open>
  The loop of \<open>publish\<close>: \<open>n\<close> attempts are left, so the loop variable is
  \<open>maxPublishRetries - n\<close>.
\<close>

fun publish_loop ::
    "lib_errors \<Rightarrow> gotosocial_publisher \<Rightarrow> ctx \<Rightarrow> string \<Rightarrow> nat \<Rightarrow> world \<Rightarrow> (go_error + string) \<times> world" where
  "publish_loop le p c body 0 w =
     (Inl (Err_fmt ''publish failed after %d attempt(s)'' [A_int (int maxPublishRetries)]), w)"
| "publish_loop le p c body (Suc n) w =
     (let attempt = maxPublishRetries - Suc n;
          endpoint = gp_instance p @ ''/api/v1/statuses'';
          tries = [At ''attempt'' (A_int (int attempt + 1)),
                   At ''max_attempts'' (A_int (int maxPublishRetries))];
          retry = (\<lambda>lastErr w. if attempt < maxPublishRetries - 1
            then publish_loop le p c body n (time_sleep (publishBackoff attempt) w)
            else (Inl lastErr, w))
      in if url_parse endpoint = None then
           (Inl (Err_wrap ''create request: %w'' [] (le_url le endpoint)), w)
         else
           (let (r, w1) = http_do (gp_client p) c (status_request p body) w in
            case r of
              Inl e \<Rightarrow>
                (let lastErr = Err_wrap ''send status attempt %d to GoToSocial: %w''
                       [A_int (int attempt + 1)] e
                 in retry lastErr (log_at L_Warn ''publish attempt failed''
                      (tries @ [At_err lastErr]) w1))
            | Inr resp \<Rightarrow>
                if 200 \<le> resp_status resp \<and> resp_status resp < 300 then
                  (Inr (decodeStatusID (resp_body resp)),
                   log_at L_Info ''status published on GoToSocial''
                     [At ''endpoint'' (A_str endpoint)] w1)
                else
                  (let lastErr = Err_fmt ''GoToSocial API returned status %d: %s''
                         [A_int (resp_status resp), A_str (resp_body resp)]
                   in retry lastErr (log_at L_Warn ''publish attempt failed status code''
                        (tries @ [At ''status'' (A_int (resp_status resp)), At_err lastErr]) w1))))"

definition publish ::
    "lib_errors \<Rightarrow> gotosocial_publisher \<Rightarrow> ctx \<Rightarrow> string \<Rightarrow> world \<Rightarrow> (go_error + string) \<times> world" where
  "publish le p c text =
     publish_loop le p c (form_encode (status_form p text)) maxPublishRetries"

definition Publish ::
    "lib_errors \<Rightarrow> gotosocial_publisher \<Rightarrow> ctx \<Rightarrow> string \<Rightarrow> world \<Rightarrow> go_error option \<times> world" where
  "Publish le p c text w =
     (case publish le p c text w of
        (Inl e, w1) \<Rightarrow> (Some e, w1)
      | (Inr _, w1) \<Rightarrow> (None, w1))"

section \<open>Facts\<close>

lemma Publish_eq:
  "Publish le p c text w =
     (let (r, w1) = publish_loop le p c (form_encode (status_form p text)) 3 w
      in (case r of Inl e \<Rightarrow> Some e | Inr _ \<Rightarrow> None, w1))"
  by (simp add: Publish_def publish_def maxPublishRetries_def split: prod.splits sum.splits)

lemma publish_loop_extends: "extends pipeline_event w (snd (publish_loop le p c body n w))"
proof (induction n arbitrary: w)
  case (Suc n)
  have ex: "extends pipeline_event w (log_at l m as (snd (http_do cl c rq w)))" for l m as cl rq
    by (rule extends_trans [OF http_do_extends log_extends]) simp_all
  have retry: "extends pipeline_event w (snd (publish_loop le p c body n
      (time_sleep d (log_at l m as (snd (http_do cl c rq w))))))" for l m as cl rq d
    by (rule extends_trans [OF extends_trans [OF ex time_sleep_extends] Suc]) simp
  show ?case
    using ex retry
    by (auto simp: Let_def split_beta split: sum.splits)
qed simp

lemma Publish_extends: "extends pipeline_event w (snd (Publish le p c text w))"
  using publish_loop_extends [of w le p c "form_encode (status_form p text)" 3]
  by (simp add: Publish_eq split_beta)

interpretation gotosocial: summary_publisher "\<lambda>(c, text). Publish le p c text" for le p
  by unfold_locales (auto simp: Publish_extends)

text \<open>The delays the loop sleeps keep to the shared contract; the shift overflows only from 35 on.\<close>

lemma publishBackoff_eq:
  assumes "n \<le> 34"
  shows "publishBackoff n = min (publishBackoffBase * 2 ^ n) publishMaxBackoff"
proof -
  have "(2::int) ^ n \<le> 2 ^ 34" using assms by (intro power_increasing) auto
  then have "publishBackoffBase * 2 ^ n \<le> max_int64"
    by (simp add: publishBackoffBase_def max_int64_def)
  moreover have "min_int64 \<le> publishBackoffBase * 2 ^ n"
    by (rule order_trans [of _ 0]) (simp_all add: publishBackoffBase_def min_int64_def)
  ultimately show ?thesis by (simp add: publishBackoff_def wrap64_id min_def Let_def)
qed

interpretation publish_retry:
  backoff publishBackoff publishBackoffBase publishMaxBackoff "\<lambda>n. n \<le> 34"
proof unfold_locales
  show "publishBackoff (Suc n) = min (2 * publishBackoff n) publishMaxBackoff" if "Suc n \<le> 34" for n
    using that by (simp add: publishBackoff_eq publishMaxBackoff_def publishBackoffBase_def
        second_def min_def)
qed (simp_all add: publishBackoff_eq publishBackoffBase_def publishMaxBackoff_def second_def)

end
