(* ===== verification/Messenger_Properties.thy ===== *)
theory Messenger_Properties
  imports Messenger
begin

text \<open>
  The properties of \<open>internal/messenger/gotosocial_publisher.go\<close>.
\<close>

section \<open>What a publication sends\<close>

text \<open>Whether the \<open>k\<close>-th attempt of a publication that starts in \<open>w\<close> is answered with a success.\<close>

definition attempt_ok :: "gotosocial_publisher \<Rightarrow> ctx \<Rightarrow> string \<Rightarrow> world \<Rightarrow> nat \<Rightarrow> bool" where
  "attempt_ok p c text w k =
     (case gp_client p c (w_steps w + 2 * k)
        (status_request p (form_encode (status_form p text))) of
        Inl _ \<Rightarrow> False | Inr r \<Rightarrow> 200 \<le> resp_status r \<and> resp_status r < 300)"

definition attempts_made :: "(nat \<Rightarrow> bool) \<Rightarrow> nat" where
  "attempts_made good = (if good 0 then 1 else if good 1 then 2 else 3)"

lemma publishBackoff_values:
  "publishBackoff 0 = 500000000" "publishBackoff (Suc 0) = 1000000000"
  by (simp_all add: publishBackoff_eq publishBackoffBase_def publishMaxBackoff_def second_def)

definition good_answer :: "go_error + http_response \<Rightarrow> bool" where
  "good_answer r \<longleftrightarrow>
     (case r of Inl _ \<Rightarrow> False | Inr x \<Rightarrow> 200 \<le> resp_status x \<and> resp_status x < 300)"

text \<open>What the loop does with \<open>n\<close> attempts left, when \<open>good k\<close> says whether the \<open>k\<close>-th succeeds.\<close>

fun schedule :: "event \<Rightarrow> nat \<Rightarrow> (nat \<Rightarrow> bool) \<Rightarrow> event list" where
  "schedule e 0 good = []"
| "schedule e (Suc n) good =
     e # (if good 0 \<or> n = 0 then []
          else Ev_sleep (publishBackoff (maxPublishRetries - Suc n)) # schedule e n (\<lambda>k. good (Suc k)))"

lemma ex_less_Suc_shift: "(\<exists>k<Suc n. P k) \<longleftrightarrow> P 0 \<or> (\<exists>k<n. P (Suc k))"
  by (auto simp: less_Suc_eq_0_disj)

lemma publish_loop_stop:
  assumes "url_parse (gp_instance p @ ''/api/v1/statuses'') \<noteq> None"
    and "good_answer (gp_client p c (w_steps w) (status_request p body)) \<or> n = 0"
  shows "\<exists>r l m as. publish_loop le p c body (Suc n) w =
      (r, log_at l m as (snd (http_do (gp_client p) c (status_request p body) w))) \<and>
    ((\<exists>i. r = Inr i) \<longleftrightarrow> good_answer (gp_client p c (w_steps w) (status_request p body)))"
  using assms
  by (cases "gp_client p c (w_steps w) (status_request p body)")
    (auto simp: good_answer_def http_do_def maxPublishRetries_def Let_def)

lemma publish_loop_retry:
  assumes "url_parse (gp_instance p @ ''/api/v1/statuses'') \<noteq> None" and "n < 3" and "n \<noteq> 0"
    and "\<not> good_answer (gp_client p c (w_steps w) (status_request p body))"
  shows "\<exists>l m as. publish_loop le p c body (Suc n) w = publish_loop le p c body n
      (time_sleep (publishBackoff (maxPublishRetries - Suc n))
        (log_at l m as (snd (http_do (gp_client p) c (status_request p body) w))))"
proof -
  have "maxPublishRetries - Suc n < maxPublishRetries - 1"
    using assms(2,3) by (simp add: maxPublishRetries_def)
  with assms(1,4) show ?thesis
    unfolding publish_loop.simps
    by (cases "gp_client p c (w_steps w) (status_request p body)")
      (auto simp: good_answer_def http_do_def Let_def simp del: publish_loop.simps)
qed

lemma publish_loop_schedule:
  assumes url: "url_parse (gp_instance p @ ''/api/v1/statuses'') \<noteq> None" and "n \<le> 3"
    and "good = (\<lambda>k. good_answer (gp_client p c (w_steps w + 2 * k) (status_request p body)))"
  shows "((\<exists>i. fst (publish_loop le p c body n w) = Inr i) \<longleftrightarrow> (\<exists>k<n. good k)) \<and>
    effects (snd (publish_loop le p c body n w)) =
      effects w @ schedule (Ev_http (status_request p body)) n good"
  using assms(2,3)
proof (induction n arbitrary: w good)
  case (Suc n)
  show ?case
  proof (cases "good 0 \<or> n = 0")
    case True
    with Suc.prems have "good_answer (gp_client p c (w_steps w) (status_request p body)) \<or> n = 0"
      by simp
    from publish_loop_stop [OF url this, of le] obtain r l m as where
      "publish_loop le p c body (Suc n) w =
        (r, log_at l m as (snd (http_do (gp_client p) c (status_request p body) w)))"
      and "(\<exists>i. r = Inr i) \<longleftrightarrow> good 0" using Suc.prems by auto
    with True show ?thesis
      by (auto simp: trace_simps ex_less_Suc_shift simp del: publish_loop.simps)
  next
    case False
    with Suc.prems have "\<not> good_answer (gp_client p c (w_steps w) (status_request p body))"
      and n: "n < 3" "n \<noteq> 0" by auto
    then obtain l m as where eq: "publish_loop le p c body (Suc n) w = publish_loop le p c body n
      (time_sleep (publishBackoff (maxPublishRetries - Suc n))
        (log_at l m as (snd (http_do (gp_client p) c (status_request p body) w))))" (is "_ = publish_loop le p c body n ?w")
      using publish_loop_retry [OF url] by blast
    have steps: "w_steps ?w = w_steps w + 2" by (simp add: frame_simps http_do_steps)
    have "(\<lambda>k. good (Suc k)) =
        (\<lambda>k. good_answer (gp_client p c (w_steps ?w + 2 * k) (status_request p body)))"
      unfolding steps Suc.prems(2) by (simp add: algebra_simps)
    from Suc.IH [OF _ this] n False show ?thesis
      unfolding eq by (simp add: trace_simps ex_less_Suc_shift)
  qed
qed simp

text \<open>
  Property C13. A publication succeeds exactly when one of at most three attempts is answered with a
  status of the 2xx range, and it makes no attempt after that one. What it does to the outside is
  the same request once per attempt with a sleep of 0.5 s, then 1 s, in between.
\<close>

theorem Publish_attempts:
  assumes "url_parse (gp_instance p @ ''/api/v1/statuses'') \<noteq> None"
  shows "(fst (Publish le p c text w) = None \<longleftrightarrow>
      attempt_ok p c text w 0 \<or> attempt_ok p c text w 1 \<or> attempt_ok p c text w 2) \<and>
    effects (snd (Publish le p c text w)) = effects w @
      take (2 * attempts_made (attempt_ok p c text w) - 1)
      [Ev_http (status_request p (form_encode (status_form p text))), Ev_sleep 500000000,
       Ev_http (status_request p (form_encode (status_form p text))), Ev_sleep 1000000000,
       Ev_http (status_request p (form_encode (status_form p text)))]"
proof -
  let ?body = "form_encode (status_form p text)" and ?ok = "attempt_ok p c text w"
  have "?ok = (\<lambda>k. good_answer (gp_client p c (w_steps w + 2 * k) (status_request p ?body)))"
    by (simp add: attempt_ok_def good_answer_def fun_eq_iff)
  from publish_loop_schedule [OF assms order_refl this, of le]
  have "((\<exists>i. fst (publish_loop le p c ?body 3 w) = Inr i) \<longleftrightarrow> ?ok 0 \<or> ?ok 1 \<or> ?ok 2) \<and>
    effects (snd (publish_loop le p c ?body 3 w)) =
      effects w @ schedule (Ev_http (status_request p ?body)) 3 ?ok"
    by (simp add: numeral_3_eq_3 numeral_2_eq_2 ex_less_Suc_shift del: publish_loop.simps schedule.simps)
  moreover have "schedule e 3 g = take (2 * attempts_made g - 1)
      [e, Ev_sleep 500000000, e, Ev_sleep 1000000000, e]" for e g
    by (simp add: numeral_3_eq_3 attempts_made_def maxPublishRetries_def publishBackoff_values)
  moreover have "(case r of Inl e \<Rightarrow> Some e | Inr _ \<Rightarrow> None) = None \<longleftrightarrow> (\<exists>i. r = Inr i)"
    for r :: "go_error + string" by (cases r) auto
  ultimately show ?thesis by (simp add: Publish_eq split_beta del: publish_loop.simps schedule.simps)
qed

definition sample_publisher :: "(nat \<Rightarrow> int) \<Rightarrow> gotosocial_publisher" where
  "sample_publisher status = \<lparr>gp_instance = ''https://social.example'', gp_username = ''cora'',
     gp_token = ''secret'', gp_audience = AudienceDirect, gp_recipient = ''ann@social.example'',
     gp_client = (\<lambda>c n rq. Inr \<lparr>resp_status = status n, resp_body = []\<rparr>)\<rparr>"

theorem Publish_attempts_witness:
  "\<forall>le c lat ch. fst (Publish le (sample_publisher (\<lambda>n. if n = 0 then 503 else 200)) c ''hi''
     \<lparr>w_steps = 0, w_clock = 0, w_latency = lat, w_choice = ch, w_trace = []\<rparr>) = None"
  (is "\<forall>le c lat ch. fst (Publish le ?p c _ (?w lat ch)) = None")
proof (intro allI)
  fix le c lat ch
  have url: "url_parse (gp_instance ?p @ ''/api/v1/statuses'') \<noteq> None"
    unfolding sample_publisher_def gotosocial_publisher.simps by code_simp
  have "attempt_ok ?p c ''hi'' (?w lat ch) 1" by (simp add: attempt_ok_def sample_publisher_def)
  with Publish_attempts [OF url, of le c "''hi''" "?w lat ch"]
  show "fst (Publish le ?p c ''hi'' (?w lat ch)) = None" by blast
qed

text \<open>
  Property C18. The audience decides who can read a status: a direct one mentions the recipient and
  is visible to it only, a local one stays on the instance, any other is public. The server reads
  exactly these four fields out of the request's body, and the text is in it unchanged.
\<close>

theorem status_form_fields:
  "parse_query (form_encode (status_form p text)) =
     [(''content_type'', ''text/markdown''),
      (''local_only'', if gp_audience p = AudienceLocal then ''true'' else ''false''),
      (''status'', if gp_audience p = AudienceDirect then ''@'' @ gp_recipient p @ '' '' @ text else text),
      (''visibility'', if gp_audience p = AudienceDirect then ''direct'' else ''public'')]"
proof -
  have "status_form p text \<noteq> []" by (simp add: status_form_def Let_def)
  moreover have "AudienceLocal \<noteq> AudienceDirect" by (simp add: AudienceLocal_def AudienceDirect_def)
  ultimately show ?thesis
    by (simp add: parse_form_encode status_form_def)
qed

text \<open>
  Property C38. The delay before a retry is 0.5 s doubled for every attempt and at most 30 s, never
  negative, and a longer series of attempts would never wait less (up to the 34th, where the
  64-bit shift overflows).
\<close>

theorem publishBackoff_contract:
  assumes "m \<le> n" and "n \<le> 34"
  shows "publishBackoff n = min (500000000 * 2 ^ n) (30 * second) \<and>
    500000000 \<le> publishBackoff m \<and> publishBackoff m \<le> publishBackoff n \<and>
    publishBackoff n \<le> 30 * second"
  using assms publish_retry.delay_closed [of n] publish_retry.delay_bounds [of m]
    publish_retry.delay_bounds [of n] publish_retry.delay_mono [of n m]
  by (simp add: publishBackoffBase_def publishMaxBackoff_def)

theorem publishBackoff_contract_witness:
  "publishBackoff 2 = 2 * second \<and> publishBackoff 7 = 30 * second"
  using publishBackoff_contract [of 2 2] publishBackoff_contract [of 7 7] by (simp add: second_def)

end
