(* ===== verification/Machine.thy ===== *)
theory Machine
  imports World
begin

text \<open>
  Loops that need not end. The body of a loop is a function from the state before an iteration to
  \<open>Again\<close> the state before the next one, \<open>Return\<close> the result, or \<open>Block\<close> when the iteration waits
  for something that never comes. \<open>drive\<close> runs a number of iterations and keeps the state when they
  are used up, so what is proved of it covers every moment of an endless run.
\<close>

datatype ('s, 'r) iter = Again 's | Return 'r | Block

fun drive :: "('s \<Rightarrow> ('s, 'r) iter) \<Rightarrow> nat \<Rightarrow> 's \<Rightarrow> ('s, 'r) iter" where
  "drive f 0 s = Again s"
| "drive f (Suc n) s = (case f s of Again t \<Rightarrow> drive f n t | Return r \<Rightarrow> Return r | Block \<Rightarrow> Block)"

text \<open>The same as a relation: the states a loop reaches.\<close>

inductive reaches :: "('s \<Rightarrow> ('s, 'r) iter) \<Rightarrow> 's \<Rightarrow> 's \<Rightarrow> bool" for f where
  start: "reaches f s s"
| step: "reaches f s t \<Longrightarrow> f t = Again u \<Longrightarrow> reaches f s u"

inductive_cases reachesE: "reaches f s t"

lemma reaches_before: "f s = Again t \<Longrightarrow> reaches f t u \<Longrightarrow> reaches f s u"
  by (rotate_tac 1, induction rule: reaches.induct) (auto intro: reaches.intros)

lemma reaches_trans: "reaches f t u \<Longrightarrow> reaches f s t \<Longrightarrow> reaches f s u"
  by (induction rule: reaches.induct) (auto intro: reaches.intros)

lemma drive_Again_reaches: "drive f n s = Again t \<Longrightarrow> reaches f s t"
  by (induction n arbitrary: s)
    (auto intro: reaches.start reaches_before split: iter.splits)

lemma drive_Suc_Again: "drive f n s = Again t \<Longrightarrow> drive f (Suc n) s = f t"
proof (induction n arbitrary: s)
  case (Suc n)
  then obtain u where u: "f s = Again u" "drive f n u = Again t" by (auto split: iter.splits)
  have "drive f (Suc (Suc n)) s = drive f (Suc n) u"
    by (subst drive.simps(2)) (simp only: u(1) iter.case)
  with Suc.IH [OF u(2)] show ?case by simp
qed (simp split: iter.splits)

lemma reaches_drive: "reaches f s t \<Longrightarrow> \<exists>n. drive f n s = Again t"
proof (induction rule: reaches.induct)
  case (start s)
  show ?case by (rule exI [of _ 0]) simp
next
  case (step s t u)
  then show ?case using drive_Suc_Again by metis
qed

lemma drive_Return:
  "drive f n s = Return r \<Longrightarrow> \<exists>t. reaches f s t \<and> f t = Return r"
proof (induction n arbitrary: s)
  case (Suc n)
  then show ?case
    by (cases "f s") (auto intro: reaches.start dest!: Suc.IH intro: reaches_before)
qed simp

lemma drive_more:
  "drive f n s = Return r \<Longrightarrow> n \<le> m \<Longrightarrow> drive f m s = Return r"
proof (induction n arbitrary: s m)
  case (Suc n)
  then show ?case by (cases m) (auto split: iter.splits)
qed simp

section \<open>Invariants and termination\<close>

locale loop_invariant =
  fixes body :: "'s \<Rightarrow> ('s, 'r) iter" and inv :: "'s \<Rightarrow> bool" and post :: "'r \<Rightarrow> bool"
  assumes inv_again: "inv s \<Longrightarrow> body s = Again t \<Longrightarrow> inv t"
    and inv_return: "inv s \<Longrightarrow> body s = Return r \<Longrightarrow> post r"
begin

lemma reaches_inv: "reaches body s t \<Longrightarrow> inv s \<Longrightarrow> inv t"
  by (induction rule: reaches.induct) (auto intro: inv_again)

lemma drive_inv: "inv s \<Longrightarrow> drive body n s = Again t \<Longrightarrow> inv t"
  using drive_Again_reaches reaches_inv by metis

lemma drive_post: "inv s \<Longrightarrow> drive body n s = Return r \<Longrightarrow> post r"
  using drive_Return reaches_inv inv_return by metis

end

locale terminating_loop = loop_invariant body inv post
  for body :: "'s \<Rightarrow> ('s, 'r) iter" and inv post +
  fixes size_of :: "'s \<Rightarrow> nat"
  assumes no_block: "inv s \<Longrightarrow> body s \<noteq> Block"
    and decreases: "inv s \<Longrightarrow> body s = Again t \<Longrightarrow> size_of t < size_of s"
begin

lemma drive_returns: "inv s \<Longrightarrow> size_of s < n \<Longrightarrow> \<exists>r. drive body n s = Return r \<and> post r"
proof (induction n arbitrary: s)
  case (Suc n)
  show ?case
  proof (cases "body s")
    case (Again t)
    then have "size_of t < n" using decreases [OF Suc.prems(1)] Suc.prems(2) by force
    then show ?thesis using Suc.IH inv_again [OF Suc.prems(1)] Again by simp
  next
    case (Return r)
    then show ?thesis using inv_return [OF Suc.prems(1)] by simp
  next
    case Block
    then show ?thesis using no_block Suc.prems(1) by blast
  qed
qed simp

end

end
