(* ===== verification/Session.thy ===== *)
theory Session
  imports Interfaces Config Machine
begin

text \<open>
  \<open>internal/rabbitmq/session.go\<close>: one connection with its channel and its stream of deliveries, and
  the dialer. The AMQP client and the broker behind it are the parameter \<open>amqp_lib\<close>: whether an
  operation fails may depend on the step, the connection and the operation.

  A session's mutex makes each of its operations atomic; here each is one function of the world. A
  connection opens one channel only, so the number of the connection names both.
\<close>

section \<open>The client library\<close>

record delivery =
  d_tag :: nat
  d_body :: string
  d_routing_key :: string
  d_redelivered :: bool

text \<open>
  What the library is given to dial with: the heartbeat, the timeout of the dialer and the deadline
  that is set on the connection for the handshake.
\<close>

record dial_conf =
  dc_heartbeat :: int
  dc_timeout :: int
  dc_deadline :: int

text \<open>
  \<open>al_stream n i\<close> is what the \<open>i\<close>-th receive from the deliveries of connection \<open>n\<close> finds, with the
  time from which it is there: a delivery, or \<^const>\<open>None\<close> when the channel is closed. No entry means
  that nothing ever comes.
\<close>

record amqp_lib =
  al_dial :: "ctx \<Rightarrow> string \<Rightarrow> dial_conf \<Rightarrow> nat \<Rightarrow> go_error option"
  al_channel :: "nat \<Rightarrow> nat \<Rightarrow> go_error option"
  al_op :: "nat \<Rightarrow> nat \<Rightarrow> amqp_op \<Rightarrow> go_error option"
  al_ch_close :: "nat \<Rightarrow> nat \<Rightarrow> go_error option"
  al_conn_close :: "nat \<Rightarrow> nat \<Rightarrow> go_error option"
  al_stream :: "nat \<Rightarrow> nat \<Rightarrow> (int \<times> delivery option) option"

text \<open>Each call of the library is an event and takes a step.\<close>

definition amqp_call :: "amqp_lib \<Rightarrow> nat \<Rightarrow> amqp_op \<Rightarrow> world \<Rightarrow> go_error option \<times> world" where
  "amqp_call al n op w = (al_op al (w_steps w) n op, tick (emit (Ev_amqp n op) w))"

definition conn_Channel :: "amqp_lib \<Rightarrow> nat \<Rightarrow> world \<Rightarrow> go_error option \<times> world" where
  "conn_Channel al n w =
     (case al_channel al (w_steps w) n of
        Some e \<Rightarrow> (Some e, tick w)
      | None \<Rightarrow> (None, tick (emit (Ev_channel n) w)))"

definition ch_Close :: "amqp_lib \<Rightarrow> nat \<Rightarrow> world \<Rightarrow> go_error option \<times> world" where
  "ch_Close al n w = (al_ch_close al (w_steps w) n, tick (emit (Ev_ch_close n) w))"

definition conn_Close :: "amqp_lib \<Rightarrow> nat \<Rightarrow> world \<Rightarrow> go_error option \<times> world" where
  "conn_Close al n w = (al_conn_close al (w_steps w) n, tick (emit (Ev_conn_close n) w))"

section \<open>Dialing\<close>

text \<open>
  A connection is numbered by the step that opens it, so numbers are never reused. The event says
  that a connection is open; a failed dial leaves nothing behind.
\<close>

type_synonym dial_func = "ctx \<Rightarrow> string \<Rightarrow> int \<Rightarrow> world \<Rightarrow> (go_error + nat) \<times> world"

definition handshake_deadline :: "ctx \<Rightarrow> int \<Rightarrow> world \<Rightarrow> int" where
  "handshake_deadline c timeout w =
     (let deadline = w_clock w + timeout in
      case ctx_deadline c of
        Some ctxDeadline \<Rightarrow> if ctxDeadline < deadline then ctxDeadline else deadline
      | None \<Rightarrow> deadline)"

definition dialAMQP :: "amqp_lib \<Rightarrow> dial_func" where
  "dialAMQP al c rawURL timeout w =
     (let conf = \<lparr>dc_heartbeat = 10 * second, dc_timeout = timeout,
            dc_deadline = handshake_deadline c timeout w\<rparr>
      in case al_dial al c rawURL conf (w_steps w) of
           Some e \<Rightarrow> (Inl e, tick w)
         | None \<Rightarrow> (Inr (w_steps w), tick (emit (Ev_dial (w_steps w)) w)))"

section \<open>Sessions\<close>

definition errSessionClosed :: go_error where
  "errSessionClosed = Err_new ''consumer: session closed''"

text \<open>\<open>se_pos\<close> counts the receives from the deliveries.\<close>

record session =
  se_conn :: nat
  se_pos :: nat
  se_tag :: string
  se_closed :: bool

definition ack :: "amqp_lib \<Rightarrow> session \<Rightarrow> nat \<Rightarrow> world \<Rightarrow> go_error option \<times> world" where
  "ack al s tag w =
     (if se_closed s then (Some errSessionClosed, w)
      else amqp_call al (se_conn s) (Ack tag False) w)"

definition nack :: "amqp_lib \<Rightarrow> session \<Rightarrow> nat \<Rightarrow> bool \<Rightarrow> world \<Rightarrow> go_error option \<times> world" where
  "nack al s tag requeue w =
     (if se_closed s then (Some errSessionClosed, w)
      else amqp_call al (se_conn s) (Nack tag False requeue) w)"

definition cancelConsumer :: "amqp_lib \<Rightarrow> session \<Rightarrow> world \<Rightarrow> world" where
  "cancelConsumer al s w =
     (if \<not> se_closed s then snd (amqp_call al (se_conn s) (Cancel (se_tag s) False) w) else w)"

definition session_close :: "amqp_lib \<Rightarrow> session \<Rightarrow> world \<Rightarrow> go_error option \<times> session \<times> world" where
  "session_close al s w =
     (if se_closed s then (None, s, w)
      else
        (let s' = s\<lparr>se_closed := True\<rparr>;
             (chErr, w1) = ch_Close al (se_conn s) w;
             (connErr, w2) = conn_Close al (se_conn s) w1
         in (errors_join [chErr, connErr], s', w2)))"

section \<open>Waiting with a context\<close>

text \<open>The bounds of the delay between attempts, which the consumer and the probe share.\<close>

definition backoffInitial :: int where
  "backoffInitial = second"

definition backoffMax :: int where
  "backoffMax = 30 * second"

text \<open>
  \<open>sleepContext\<close> of \<open>consumer.go\<close>: a timer against the context. The consumer and the probe wait with
  it between attempts. The event records the delay that was asked for.
\<close>

type_synonym sleep_func = "ctx \<Rightarrow> int \<Rightarrow> world \<Rightarrow> ctx_error option \<times> world"

definition sleepContext :: sleep_func where
  "sleepContext c d w =
     (let w0 = emit (Ev_sleep d) w in
      case select2 (Some (w_clock w + max 0 d)) (ctx_done_at c) w0 of
        Some (True, w1) \<Rightarrow> (None, w1)
      | Some (False, w1) \<Rightarrow> ctx_err c w1
      | None \<Rightarrow> (None, w0))"

section \<open>Facts\<close>

lemma amqp_call_fields [frame_simps]:
  "w_trace (snd (amqp_call al n op w)) = w_trace w @ [Ev_amqp n op]"
  "w_steps (snd (amqp_call al n op w)) = Suc (w_steps w)"
  "w_latency (snd (amqp_call al n op w)) = w_latency w"
  "w_choice (snd (amqp_call al n op w)) = w_choice w"
  "w_clock (snd (amqp_call al n op w)) = w_clock w + int (w_latency w (w_steps w))"
  by (simp_all add: amqp_call_def frame_simps)

lemma close_fields [frame_simps]:
  "w_trace (snd (ch_Close al n w)) = w_trace w @ [Ev_ch_close n]"
  "w_steps (snd (ch_Close al n w)) = Suc (w_steps w)"
  "w_latency (snd (ch_Close al n w)) = w_latency w"
  "w_trace (snd (conn_Close al n w)) = w_trace w @ [Ev_conn_close n]"
  "w_steps (snd (conn_Close al n w)) = Suc (w_steps w)"
  "w_latency (snd (conn_Close al n w)) = w_latency w"
  by (simp_all add: ch_Close_def conn_Close_def frame_simps)

lemma amqp_call_extends: "P (Ev_amqp n op) \<Longrightarrow> extends P w (snd (amqp_call al n op w))"
  by (auto simp: amqp_call_def intro: extends_trans [OF emit_extends tick_extends])

lemma ch_Close_extends: "P (Ev_ch_close n) \<Longrightarrow> extends P w (snd (ch_Close al n w))"
  by (auto simp: ch_Close_def intro: extends_trans [OF emit_extends tick_extends])

lemma conn_Close_extends: "P (Ev_conn_close n) \<Longrightarrow> extends P w (snd (conn_Close al n w))"
  by (auto simp: conn_Close_def intro: extends_trans [OF emit_extends tick_extends])

lemma ctx_done_state: "ctx_done_at c = Some t \<Longrightarrow> t \<le> u \<Longrightarrow> ctx_state c u \<noteq> None"
  by (simp add: ctx_state_None_iff)

end
