(* ===== verification/Consumer.thy ===== *)
theory Consumer
  imports Session Summary_Store
begin

text \<open>
  \<open>internal/rabbitmq/consumer.go\<close>: the consumer. The loops of \<open>Run\<close>, \<open>consume\<close> and
  \<open>drainDeliveries\<close> are given by their bodies (\<open>run_step\<close>, \<open>consume_step\<close>, \<open>drain_step\<close>), which
  \<open>drive\<close> iterates. The process identifier and the decoder of the generated protobuf type are
  parameters, with the AMQP library in the record \<open>outside\<close>.
\<close>

section \<open>Types and construction\<close>

definition consumerTagPrefix :: string where
  "consumerTagPrefix = ''stocker-informer-''"

record stock =
  st_Symbol :: string
  st_Exchange :: string

record outside =
  ou_amqp :: amqp_lib
  ou_pid :: nat
  ou_unmarshal :: "string \<Rightarrow> go_error + stock"

record consumer =
  cs_cfg :: rabbitmq_config
  cs_summaries :: reader
  cs_rewriter :: "rewriter option"
  cs_publisher :: publisher
  cs_dial :: dial_func
  cs_sleep :: sleep_func

definition newConsumer ::
    "outside \<Rightarrow> rabbitmq_config \<Rightarrow> reader \<Rightarrow> rewriter option \<Rightarrow> publisher \<Rightarrow>
     dial_func option \<Rightarrow> sleep_func option \<Rightarrow> consumer" where
  "newConsumer ou cfg summaries summaryRewriter publisher dial sleep =
     \<lparr>cs_cfg = cfg, cs_summaries = summaries, cs_rewriter = summaryRewriter,
      cs_publisher = publisher,
      cs_dial = (case dial of None \<Rightarrow> dialAMQP (ou_amqp ou) | Some d \<Rightarrow> d),
      cs_sleep = (case sleep of None \<Rightarrow> sleepContext | Some s \<Rightarrow> s)\<rparr>"

definition New_consumer ::
    "outside \<Rightarrow> rabbitmq_config \<Rightarrow> reader \<Rightarrow> rewriter option \<Rightarrow> publisher \<Rightarrow> consumer" where
  "New_consumer ou cfg summaries summaryRewriter publisher =
     newConsumer ou cfg summaries summaryRewriter publisher
       (Some (dialAMQP (ou_amqp ou))) (Some sleepContext)"

section \<open>Log fields and delays\<close>

definition deliveryAttrs :: "delivery \<Rightarrow> attr list" where
  "deliveryAttrs d =
     [At ''routing_key'' (A_str (d_routing_key d)),
      At ''delivery_tag'' (A_int (int (d_tag d))),
      At ''redelivered'' (A_bool (d_redelivered d))]"

definition topologyAttrs :: "consumer \<Rightarrow> attr list" where
  "topologyAttrs cs =
     [At ''broker'' (A_str (RedactedAMQPURL (rq_URL (cs_cfg cs)))),
      At ''exchange'' (A_str (rq_InputExchange (cs_cfg cs))),
      At ''exchange_type'' (A_str (rq_InputExchangeType (cs_cfg cs))),
      At ''routing_key'' (A_str (rq_InputRoutingKey (cs_cfg cs))),
      At ''queue'' (A_str (rq_Queue (cs_cfg cs))),
      At ''prefetch'' (A_int (rq_Prefetch (cs_cfg cs)))]"

definition backoffDelay :: "int \<Rightarrow> int" where
  "backoffDelay failures =
     (if failures < 2 then backoffInitial
      else if 6 \<le> failures then backoffMax
      else wrap64 (backoffInitial * 2 ^ nat (failures - 1)))"

section \<open>Stock signals\<close>

definition decodeStock :: "outside \<Rightarrow> string \<Rightarrow> go_error + stock" where
  "decodeStock ou data =
     (case ou_unmarshal ou data of
        Inl e \<Rightarrow> Inl (Err_wrap ''unmarshal stock protobuf: %w'' [] e)
      | Inr stock \<Rightarrow>
          (let identity = \<lparr>st_Symbol = trim_space (st_Symbol stock),
                           st_Exchange = trim_space (st_Exchange stock)\<rparr>
           in if st_Symbol identity = [] then Inl (Err_new ''stock missing symbol field'')
              else if st_Exchange identity = [] then Inl (Err_new ''stock missing exchange field'')
              else Inr identity))"

section \<open>Settlement\<close>

definition logSettlementFailed :: "delivery \<Rightarrow> go_error \<Rightarrow> world \<Rightarrow> world" where
  "logSettlementFailed d err = log_at L_Warn ''ack delivery failed'' (deliveryAttrs d @ [At_err err])"

text \<open>A settlement's error is logged and nothing else.\<close>

definition log_failed :: "delivery \<Rightarrow> go_error option \<times> world \<Rightarrow> world" where
  "log_failed d r = (case r of (None, w) \<Rightarrow> w | (Some e, w) \<Rightarrow> logSettlementFailed d e w)"

definition settle :: "amqp_lib \<Rightarrow> ctx \<Rightarrow> session \<Rightarrow> delivery \<Rightarrow> world \<Rightarrow> world" where
  "settle al c sess d w =
     (let (err, w1) = ctx_err c w in
      if err \<noteq> None then log_failed d (nack al sess (d_tag d) True w1)
      else log_failed d (ack al sess (d_tag d) w1))"

section \<open>The pipeline\<close>

text \<open>
  What the code publishes for the summary's text: the report, or the summary when there is no
  rewriter, it fails, or its report is blank; with whether it was rewritten.
\<close>

definition rewrite_text ::
    "consumer \<Rightarrow> ctx \<Rightarrow> attr list \<Rightarrow> string \<Rightarrow> world \<Rightarrow> (string \<times> bool) \<times> world" where
  "rewrite_text cs c attrs text w =
     (case cs_rewriter cs of
        None \<Rightarrow> ((text, False), w)
      | Some rewrite \<Rightarrow>
          (case rewrite (c, text) w of
             (Inl rwErr, w1) \<Rightarrow>
               ((text, False), log_at L_Warn ''rewrite failed, publishing original summary''
                  (attrs @ [At_err rwErr, At ''summary_chars'' (A_int (int (rune_count text)))]) w1)
           | (Inr report, w1) \<Rightarrow>
               if trim_space report = [] then
                 ((text, False), log_at L_Warn
                    ''rewrite returned empty output, publishing original summary'' attrs w1)
               else ((trim_space report, True), w1)))"

definition handleDelivery ::
    "outside \<Rightarrow> consumer \<Rightarrow> ctx \<Rightarrow> session \<Rightarrow> delivery \<Rightarrow> world \<Rightarrow> world" where
  "handleDelivery ou cs c sess d w =
     (let finish = settle (ou_amqp ou) c sess d;
          (stopped, w1) = ctx_err c w
      in if stopped \<noteq> None then finish w1
         else
           (let attrs = deliveryAttrs d in
            case decodeStock ou (d_body d) of
              Inl err \<Rightarrow> finish (log_at L_Error ''decode stock failed'' (attrs @ [At_err err]) w1)
            | Inr identity \<Rightarrow>
                (let attrs = attrs @ [At ''symbol'' (A_str (st_Symbol identity)),
                                      At ''exchange'' (A_str (st_Exchange identity))]
                 in case cs_summaries cs (c, st_Exchange identity, st_Symbol identity) w1 of
                      (Inl err, w2) \<Rightarrow>
                        finish (if error_is err ErrNotFound
                          then log_at L_Warn ''summary not found'' attrs w2
                          else log_at L_Error ''read summary failed'' (attrs @ [At_err err]) w2)
                    | (Inr summary, w2) \<Rightarrow>
                        (let text = trim_space summary in
                         if text = [] then
                           finish (log_at L_Warn ''summary is empty, skipping publish'' attrs w2)
                         else
                           (let ((publishText, rewritten), w3) = rewrite_text cs c attrs text w2 in
                            case cs_publisher cs (c, publishText) w3 of
                              (Some pubErr, w4) \<Rightarrow>
                                finish (log_at L_Error ''publish failed'' (attrs @ [At_err pubErr]) w4)
                            | (None, w4) \<Rightarrow>
                                log_at L_Info ''summary published on GoToSocial''
                                  (attrs @ [At ''rewritten'' (A_bool rewritten)] @
                                   (if rewritten then
                                      [At ''summary_chars'' (A_int (int (rune_count text))),
                                       At ''report_chars'' (A_int (int (rune_count publishText)))]
                                    else []))
                                  (finish w4))))))"

section \<open>Consuming\<close>

definition next_receive :: "amqp_lib \<Rightarrow> session \<Rightarrow> (int \<times> delivery option) option" where
  "next_receive al sess = al_stream al (se_conn sess) (se_pos sess)"

definition received :: "session \<Rightarrow> session" where
  "received sess = sess\<lparr>se_pos := Suc (se_pos sess)\<rparr>"

text \<open>An iteration of \<open>drainDeliveries\<close>: its \<open>select\<close> has a default case, so it never waits.\<close>

definition drain_step ::
    "amqp_lib \<Rightarrow> session \<times> world \<Rightarrow> (session \<times> world, session \<times> world) iter" where
  "drain_step al = (\<lambda>(sess, w).
     let w1 = tick w in
     case next_receive al sess of
       None \<Rightarrow> Return (sess, w1)
     | Some (t, x) \<Rightarrow>
         if t \<le> w_clock w1 then
           (case x of
              None \<Rightarrow> Return (sess, w1)
            | Some d \<Rightarrow> Again (received sess, log_failed d (nack al (received sess) (d_tag d) True w1)))
         else Return (sess, w1))"

text \<open>
  \<open>consume\<close> is receiving until it is cancelled and then draining. Its result is whether a delivery
  arrived, and the error.
\<close>

datatype consume_state = Receiving session bool world | Draining session bool world

type_synonym consume_result = "bool \<times> go_error option \<times> session \<times> world"

definition receive_step ::
    "outside \<Rightarrow> consumer \<Rightarrow> ctx \<Rightarrow> session \<Rightarrow> bool \<Rightarrow> world \<Rightarrow> (consume_state, consume_result) iter" where
  "receive_step ou cs c sess delivered w =
     (let (err, w1) = ctx_err c w;
          stop = (\<lambda>w. Again (Draining sess delivered (cancelConsumer (ou_amqp ou) sess w)))
      in if err \<noteq> None then stop w1
         else
           (let next = next_receive (ou_amqp ou) sess in
            case select2 (map_option fst next) (ctx_done_at c) w1 of
              None \<Rightarrow> Block
            | Some (False, w2) \<Rightarrow> stop w2
            | Some (True, w2) \<Rightarrow>
                (case next of
                   Some (_, Some d) \<Rightarrow>
                     Again (Receiving (received sess) True
                       (handleDelivery ou cs c (received sess) d w2))
                 | _ \<Rightarrow> Return (delivered, Some errSessionClosed, sess, w2))))"

fun consume_step ::
    "outside \<Rightarrow> consumer \<Rightarrow> ctx \<Rightarrow> consume_state \<Rightarrow> (consume_state, consume_result) iter" where
  "consume_step ou cs c (Receiving sess delivered w) = receive_step ou cs c sess delivered w"
| "consume_step ou cs c (Draining sess delivered w) =
     (case drain_step (ou_amqp ou) (sess, w) of
        Again (sess', w') \<Rightarrow> Again (Draining sess' delivered w')
      | Return (sess', w') \<Rightarrow> Return (delivered, None, sess', w')
      | Block \<Rightarrow> Block)"

definition consume ::
    "outside \<Rightarrow> consumer \<Rightarrow> ctx \<Rightarrow> nat \<Rightarrow> session \<Rightarrow> world \<Rightarrow> (consume_state, consume_result) iter" where
  "consume ou cs c n sess w = drive (consume_step ou cs c) n (Receiving sess False w)"

section \<open>Connecting\<close>

text \<open>Calls in order, up to the first that fails.\<close>

fun amqp_calls :: "amqp_lib \<Rightarrow> nat \<Rightarrow> amqp_op list \<Rightarrow> world \<Rightarrow> go_error option \<times> world" where
  "amqp_calls al n [] w = (None, w)"
| "amqp_calls al n (op # ops) w =
     (case amqp_call al n op w of
        (Some e, w1) \<Rightarrow> (Some e, w1)
      | (None, w1) \<Rightarrow> amqp_calls al n ops w1)"

definition consumer_tag :: "nat \<Rightarrow> string" where
  "consumer_tag pid = consumerTagPrefix @ itoa pid"

definition topology_ops :: "rabbitmq_config \<Rightarrow> string \<Rightarrow> amqp_op list" where
  "topology_ops cfg tag =
     [Exchange_Declare (rq_InputExchange cfg) (rq_InputExchangeType cfg) True False False False,
      Queue_Declare (rq_Queue cfg) True False False False,
      Queue_Bind (rq_Queue cfg) (rq_InputRoutingKey cfg) (rq_InputExchange cfg) False,
      Qos (rq_Prefetch cfg) 0 False,
      Consume (rq_Queue cfg) tag False False False False]"

definition connect :: "outside \<Rightarrow> consumer \<Rightarrow> ctx \<Rightarrow> world \<Rightarrow> (go_error + session) \<times> world" where
  "connect ou cs c w =
     (case cs_dial cs c (rq_URL (cs_cfg cs)) (rq_ConnectTimeout (cs_cfg cs)) w of
        (Inl err, w1) \<Rightarrow> (Inl err, w1)
      | (Inr conn, w1) \<Rightarrow>
          (case conn_Channel (ou_amqp ou) conn w1 of
             (Some err, w2) \<Rightarrow> (Inl err, snd (conn_Close (ou_amqp ou) conn w2))
           | (None, w2) \<Rightarrow>
               (let tag = consumer_tag (ou_pid ou) in
                case amqp_calls (ou_amqp ou) conn (topology_ops (cs_cfg cs) tag) w2 of
                  (Some err, w3) \<Rightarrow>
                    (Inl err, snd (conn_Close (ou_amqp ou) conn (snd (ch_Close (ou_amqp ou) conn w3))))
                | (None, w3) \<Rightarrow>
                    (Inr \<lparr>se_conn = conn, se_pos = 0, se_tag = tag, se_closed = False\<rparr>, w3))))"

section \<open>Run\<close>

text \<open>
  The supervisor is at the head of its loop or in \<open>consume\<close>, with its two variables: the count of
  failures and whether a connection was made before (\<open>linked\<close>).
\<close>

datatype run_state = Supervising nat bool world | Consuming nat bool consume_state

type_synonym run_result = "go_error option \<times> world"

definition shutting_down :: "string \<Rightarrow> world \<Rightarrow> (run_state, run_result) iter" where
  "shutting_down msg w = Return (None, log_at L_Info msg [] w)"

text \<open>The wait before the next attempt, after \<open>failures\<close> failures in a row.\<close>

definition back_off ::
    "consumer \<Rightarrow> ctx \<Rightarrow> nat \<Rightarrow> bool \<Rightarrow> world \<Rightarrow> (run_state, run_result) iter" where
  "back_off cs c failures linked w =
     (case cs_sleep cs c (backoffDelay (int failures)) w of
        (Some _, w1) \<Rightarrow> shutting_down ''rabbitmq consumer shutting down during backoff'' w1
      | (None, w1) \<Rightarrow> Again (Supervising failures linked w1))"

definition connect_failed ::
    "consumer \<Rightarrow> ctx \<Rightarrow> nat \<Rightarrow> bool \<Rightarrow> go_error \<Rightarrow> world \<Rightarrow> (run_state, run_result) iter" where
  "connect_failed cs c failures linked err w =
     (let (stopped, w1) = ctx_err c w in
      if stopped \<noteq> None then shutting_down ''rabbitmq consumer shutting down'' w1
      else
        (let failures = failures + 1;
             attrs = [At ''attempt'' (A_int (int failures)),
                      At ''retry_in'' (A_dur (backoffDelay (int failures))), At_err err];
             level = (if failures = 1 \<or> failures mod 10 = 0 then L_Warn else L_Debug)
         in back_off cs c failures linked
              (log_at level ''rabbitmq connect failed, backing off'' attrs w1)))"

definition supervise ::
    "outside \<Rightarrow> consumer \<Rightarrow> ctx \<Rightarrow> nat \<Rightarrow> bool \<Rightarrow> world \<Rightarrow> (run_state, run_result) iter" where
  "supervise ou cs c failures linked w =
     (let (stopped, w1) = ctx_err c w in
      if stopped \<noteq> None then shutting_down ''rabbitmq consumer shutting down'' w1
      else
        (case connect ou cs c w1 of
           (Inl err, w2) \<Rightarrow> connect_failed cs c failures linked err w2
         | (Inr sess, w2) \<Rightarrow>
             (let (stopped, w3) = ctx_err c w2 in
              if stopped \<noteq> None then
                (let (_, _, w4) = session_close (ou_amqp ou) sess w3
                 in shutting_down ''rabbitmq consumer shutting down'' w4)
              else
                (let w4 = (if linked
                       then log_at L_Info ''rabbitmq consumer reconnected''
                              [At ''attempts'' (A_int (int failures))] w3
                       else log_at L_Info ''rabbitmq consumer connected'' (topologyAttrs cs) w3)
                 in Again (Consuming failures True (Receiving sess False w4))))))"

text \<open>What \<open>Run\<close> does when \<open>consume\<close> has returned.\<close>

fun after_consume ::
    "outside \<Rightarrow> consumer \<Rightarrow> ctx \<Rightarrow> nat \<Rightarrow> bool \<Rightarrow> consume_result \<Rightarrow> (run_state, run_result) iter" where
  "after_consume ou cs c failures linked (delivered, consumeErr, sess, w) =
     (let (stopped, w1) = ctx_err c w in
      if stopped \<noteq> None then
        (let (_, _, w2) = session_close (ou_amqp ou) sess w1
         in shutting_down ''rabbitmq consumer shutting down'' w2)
      else
        (let w2 = log_at L_Warn ''rabbitmq consumer connection lost''
               (case consumeErr of None \<Rightarrow> [] | Some e \<Rightarrow> [At_err e]) w1;
             (_, _, w3) = session_close (ou_amqp ou) sess w2;
             failures = (if delivered then 0 else failures) + 1
         in back_off cs c failures linked w3))"

fun run_step :: "outside \<Rightarrow> consumer \<Rightarrow> ctx \<Rightarrow> run_state \<Rightarrow> (run_state, run_result) iter" where
  "run_step ou cs c (Supervising failures linked w) = supervise ou cs c failures linked w"
| "run_step ou cs c (Consuming failures linked st) =
     (case consume_step ou cs c st of
        Again st' \<Rightarrow> Again (Consuming failures linked st')
      | Return r \<Rightarrow> after_consume ou cs c failures linked r
      | Block \<Rightarrow> Block)"

definition run_start :: "consumer \<Rightarrow> world \<Rightarrow> run_state" where
  "run_start cs w =
     Supervising 0 False (log_at L_Info ''rabbitmq consumer started'' (topologyAttrs cs) w)"

definition Run :: "outside \<Rightarrow> consumer \<Rightarrow> ctx \<Rightarrow> nat \<Rightarrow> world \<Rightarrow> (run_state, run_result) iter" where
  "Run ou cs c n w = drive (run_step ou cs c) n (run_start cs w)"

end
