(* ===== verification/Consumer_Facts.thy ===== *)
theory Consumer_Facts
  imports Consumer Backoff
begin

text \<open>
  What holds of the consumer's operations: the contracts of its two seams (dialing and waiting) and
  that the code's functions keep them, an abstract pipeline that \<open>handleDelivery\<close> refines, and the
  settlements of one delivery.
\<close>

section \<open>The seams\<close>

locale dialer =
  fixes dial :: dial_func
  assumes dial_error: "dial c u t w = (Inl e, w') \<Longrightarrow> extends (\<lambda>_. False) w w'"
    and dial_ok: "dial c u t w = (Inr n, w') \<Longrightarrow>
      extends (\<lambda>e. e = Ev_dial n) w w' \<and> w_trace w' = w_trace w @ [Ev_dial n]"
begin

lemma dial_quiet:
  assumes "dial c u t w = (Inl e, w')"
  shows "w_trace w' = w_trace w"
proof -
  obtain es where "w_trace w' = w_trace w @ es" and "list_all (\<lambda>_. False) es"
    using extends_trace [OF dial_error [OF assms]] by blast
  then show ?thesis by (cases es) auto
qed

end

locale sleeper =
  fixes sleep :: sleep_func
  assumes sleep_extends: "extends (\<lambda>e. e = Ev_sleep d) w (snd (sleep c d w))"
    and sleep_trace: "w_trace (snd (sleep c d w)) = w_trace w @ [Ev_sleep d]"
    and sleep_full: "sleep c d w = (None, w') \<Longrightarrow> w_clock w + d \<le> w_clock w'"
    and sleep_cut: "sleep c d w = (Some e, w') \<Longrightarrow> ctx_state c (w_clock w') \<noteq> None"
begin

text \<open>A wait that the context does not cut short takes its full time.\<close>

lemma sleep_through:
  assumes "sleep c d w = (r, w')" and "ctx_state c (w_clock w') = None"
  shows "r = None \<and> w_clock w + d \<le> w_clock w'"
  using assms sleep_cut sleep_full by (cases r) auto

end

lemma dialAMQP_ok: "dialAMQP al c u t w = (Inr n, w') \<Longrightarrow> n = w_steps w"
  by (auto simp: dialAMQP_def Let_def split: option.splits)

interpretation amqp: dialer "dialAMQP al" for al
  by unfold_locales
    (auto simp: dialAMQP_def Let_def frame_simps split: option.splits
      intro: extends_trans [OF emit_extends tick_extends])

lemma select2_first: "select2 (Some a) b w \<noteq> None"
  by (simp add: select2_None_iff)

lemma sleepContext_cases:
  obtains w1 where "sleepContext c d w = (None, w1)"
      "select2 (Some (w_clock w + max 0 d)) (ctx_done_at c) (emit (Ev_sleep d) w) = Some (True, w1)"
  | e w1 where "sleepContext c d w = (Some e, tick w1)" "ctx_state c (w_clock (tick w1)) = Some e"
      "select2 (Some (w_clock w + max 0 d)) (ctx_done_at c) (emit (Ev_sleep d) w) = Some (False, w1)"
proof -
  let ?s = "select2 (Some (w_clock w + max 0 d)) (ctx_done_at c) (emit (Ev_sleep d) w)"
  obtain b w1 where s: "?s = Some (b, w1)" using select2_first by fastforce
  show thesis
  proof (cases b)
    case True
    then show ?thesis using that(1) s by (simp add: sleepContext_def)
  next
    case False
    then obtain t where "ctx_done_at c = Some t" "t \<le> w_clock w1"
      using select2_right [of _ "ctx_done_at c" _ w1] s by auto
    moreover have "w_clock w1 \<le> w_clock (tick w1)" by (simp add: frame_simps)
    ultimately obtain e where e: "ctx_state c (w_clock (tick w1)) = Some e"
      using ctx_done_state [of c t "w_clock (tick w1)"] by fastforce
    then have "sleepContext c d w = (Some e, tick w1)"
      using s False by (simp add: sleepContext_def ctx_err_def Let_def)
    with that(2) s False e show ?thesis by simp
  qed
qed

interpretation timer: sleeper sleepContext
proof unfold_locales
  fix c d w
  have em: "extends (\<lambda>e. e = Ev_sleep d) w (emit (Ev_sleep d) w)" by (simp add: emit_extends)
  show "extends (\<lambda>e. e = Ev_sleep d) w (snd (sleepContext c d w))"
    by (rule sleepContext_cases [of c d w])
      (auto intro: extends_trans [OF em] select2_extends extends_trans)
  show "w_trace (snd (sleepContext c d w)) = w_trace w @ [Ev_sleep d]"
    by (rule sleepContext_cases [of c d w]) (auto simp: frame_simps dest: select2_trace)
next
  fix c d w w'
  assume "sleepContext c d w = (None, w')"
  then show "w_clock w + d \<le> w_clock w'"
    by (rule_tac sleepContext_cases [of c d w]) (auto dest!: select2_left)
next
  fix c d w e w'
  assume "sleepContext c d w = (Some e, w')"
  then show "ctx_state c (w_clock w') \<noteq> None"
    by (rule_tac sleepContext_cases [of c d w]) auto
qed

section \<open>The delay of the consumer\<close>

lemma backoffDelay_Suc:
  "backoffDelay (int (Suc (Suc n))) = min (2 * backoffDelay (int (Suc n))) backoffMax"
proof -
  have small: "wrap64 (second * 2 ^ n) = second * 2 ^ n" if "n < 5" for n
  proof (rule wrap64_id)
    have "(2::int) ^ n \<le> 2 ^ 5" using that by (intro power_increasing) auto
    then show "second * 2 ^ n \<le> max_int64" by (simp add: second_def max_int64_def)
    show "min_int64 \<le> second * 2 ^ n"
      by (rule order_trans [of _ 0]) (simp_all add: second_def min_int64_def)
  qed
  consider "n < 4" | "n = 4" | "4 < n" by linarith
  then show ?thesis
  proof cases
    case 1
    have "(2::int) ^ n \<le> 2 ^ 3" using 1 by (intro power_increasing) auto
    then show ?thesis
      using 1 small [of n] small [of "Suc n"]
      by (cases n) (auto simp: backoffDelay_def backoffInitial_def backoffMax_def second_def
          nat_add_distrib min_def)
  next
    case 2
    then show ?thesis
      using small [of 4] by (simp add: backoffDelay_def backoffInitial_def backoffMax_def second_def)
  next
    case 3
    then show ?thesis by (simp add: backoffDelay_def backoffMax_def second_def)
  qed
qed

interpretation consumer_retry:
  backoff "\<lambda>n. backoffDelay (int (Suc n))" backoffInitial backoffMax "\<lambda>_. True"
  by unfold_locales
    (simp_all only: backoffDelay_Suc, simp_all add: backoffDelay_def backoffInitial_def
      backoffMax_def second_def)

section \<open>Settling\<close>

text \<open>How a delivery is settled when the context is looked at at time \<open>t\<close>.\<close>

definition settle_event :: "ctx \<Rightarrow> session \<Rightarrow> delivery \<Rightarrow> int \<Rightarrow> event" where
  "settle_event c sess d t =
     Ev_amqp (se_conn sess)
       (if ctx_state c t = None then Ack (d_tag d) False else Nack (d_tag d) False True)"

definition handler_event :: "event \<Rightarrow> bool" where
  "handler_event e \<longleftrightarrow> pipeline_event e \<or> is_settle e"

lemma handler_event_simps [simp]:
  "handler_event (Ev_log l m as)" "handler_event (Ev_amqp n (Ack t b))"
  "handler_event (Ev_amqp n (Nack t b r))"
  by (simp_all add: handler_event_def)

lemma pipeline_handler: "extends pipeline_event w w' \<Longrightarrow> extends handler_event w w'"
  by (erule extends_mono) (simp add: handler_event_def)

lemma log_failed_extends:
  "extends handler_event w (snd r) \<Longrightarrow> extends handler_event w (log_failed d r)"
  by (auto simp: log_failed_def logSettlementFailed_def split: prod.splits option.splits
      elim: extends_trans)

lemma log_failed_fields [frame_simps]:
  "settlements (log_failed d r) = settlements (snd r)" "w_clock (log_failed d r) = w_clock (snd r)"
  "w_steps (log_failed d r) = w_steps (snd r)" "w_latency (log_failed d r) = w_latency (snd r)"
  by (auto simp: log_failed_def logSettlementFailed_def settlements_def frame_simps
      split: prod.splits option.splits)

lemma settlements_simps [trace_simps]:
  "settlements (tick w) = settlements w" "settlements (log_at l m as w) = settlements w"
  "settlements (snd (amqp_call al n op w)) =
     settlements w @ (if is_settle (Ev_amqp n op) then [Ev_amqp n op] else [])"
  by (simp_all add: settlements_def frame_simps)

lemma settle_call_extends:
  "extends handler_event w (snd (ack al sess t w))" "extends handler_event w (snd (nack al sess t r w))"
  by (auto simp: ack_def nack_def intro: amqp_call_extends)

lemma settle_extends: "extends handler_event w (settle al c sess d w)"
  by (auto simp: settle_def ctx_err_def Let_def
      intro: extends_trans [OF tick_extends log_failed_extends] settle_call_extends)

lemma settle_clock: "w_clock w \<le> w_clock (settle al c sess d w)"
  by (rule extends_clock) (rule settle_extends)

lemma settle_settlements:
  assumes "\<not> se_closed sess"
  shows "settlements (settle al c sess d w) =
    settlements w @ [settle_event c sess d (w_clock (tick w))]"
  using assms
  by (simp add: settle_def ctx_err_def Let_def ack_def nack_def frame_simps trace_simps
      settle_event_def)

section \<open>The pipeline\<close>

text \<open>
  What a delivery comes to. \<open>pipeline\<close> is the work on it up to the point where it is settled; the
  code, with its early returns, settles on every path.
\<close>

datatype outcome =
    Interrupted
  | Undecodable go_error
  | Unavailable go_error
  | Blank_summary
  | Unpublished go_error
  | Published string string bool

definition signal_attrs :: "delivery \<Rightarrow> stock \<Rightarrow> attr list" where
  "signal_attrs d identity = deliveryAttrs d @
     [At ''symbol'' (A_str (st_Symbol identity)), At ''exchange'' (A_str (st_Exchange identity))]"

definition publish_summary ::
    "consumer \<Rightarrow> ctx \<Rightarrow> attr list \<Rightarrow> string \<Rightarrow> world \<Rightarrow> outcome \<times> world" where
  "publish_summary cs c attrs text w =
     (let ((chosen, rewritten), w1) = rewrite_text cs c attrs text w in
      case cs_publisher cs (c, chosen) w1 of
        (Some e, w2) \<Rightarrow> (Unpublished e, log_at L_Error ''publish failed'' (attrs @ [At_err e]) w2)
      | (None, w2) \<Rightarrow> (Published text chosen rewritten, w2))"

definition pipeline :: "outside \<Rightarrow> consumer \<Rightarrow> ctx \<Rightarrow> delivery \<Rightarrow> world \<Rightarrow> outcome \<times> world" where
  "pipeline ou cs c d w =
     (case ctx_err c w of
        (Some _, w1) \<Rightarrow> (Interrupted, w1)
      | (None, w1) \<Rightarrow>
          (case decodeStock ou (d_body d) of
             Inl e \<Rightarrow> (Undecodable e,
               log_at L_Error ''decode stock failed'' (deliveryAttrs d @ [At_err e]) w1)
           | Inr identity \<Rightarrow>
               (case cs_summaries cs (c, st_Exchange identity, st_Symbol identity) w1 of
                  (Inl e, w2) \<Rightarrow> (Unavailable e,
                    if error_is e ErrNotFound
                    then log_at L_Warn ''summary not found'' (signal_attrs d identity) w2
                    else log_at L_Error ''read summary failed''
                      (signal_attrs d identity @ [At_err e]) w2)
                | (Inr summary, w2) \<Rightarrow>
                    if trim_space summary = [] then (Blank_summary,
                      log_at L_Warn ''summary is empty, skipping publish'' (signal_attrs d identity) w2)
                    else publish_summary cs c (signal_attrs d identity) (trim_space summary) w2)))"

text \<open>The line that reports a publication, written after the settlement.\<close>

definition announce :: "outside \<Rightarrow> delivery \<Rightarrow> outcome \<Rightarrow> world \<Rightarrow> world" where
  "announce ou d oc w =
     (case (oc, decodeStock ou (d_body d)) of
        (Published text chosen rewritten, Inr identity) \<Rightarrow>
          log_at L_Info ''summary published on GoToSocial''
            (signal_attrs d identity @ [At ''rewritten'' (A_bool rewritten)] @
             (if rewritten then
                [At ''summary_chars'' (A_int (int (rune_count text))),
                 At ''report_chars'' (A_int (int (rune_count chosen)))]
              else [])) w
      | _ \<Rightarrow> w)"

lemma handleDelivery_refines:
  "handleDelivery ou cs c sess d w =
     (let (oc, w1) = pipeline ou cs c d w
      in announce ou d oc (settle (ou_amqp ou) c sess d w1))"
  by (cases "decodeStock ou (d_body d)")
    (auto simp: handleDelivery_def pipeline_def publish_summary_def announce_def signal_attrs_def
      Let_def split: prod.splits sum.splits option.splits)

lemma announce_fields [frame_simps]:
  "settlements (announce ou d oc w) = settlements w" "w_clock (announce ou d oc w) = w_clock w"
  "effects (announce ou d oc w) = effects w"
  by (simp_all add: announce_def frame_simps trace_simps split: outcome.splits sum.splits)

lemma announce_extends: "extends handler_event w (announce ou d oc w)"
  by (simp add: announce_def split: outcome.splits sum.splits)

end
