(* ===== verification/Consumer_Loops.thy ===== *)
theory Consumer_Loops
  imports Consumer_Facts
begin

text \<open>
  The consumer over any parts that keep their contracts (the locale \<open>consumer_parts\<close>): what the
  handling of one delivery does, and the invariants of the loops of \<open>consume\<close> and \<open>Run\<close>.
\<close>

section \<open>The parts\<close>

locale consumer_parts =
  reads: summary_reader "cs_summaries cs" + pub: summary_publisher "cs_publisher cs" +
  dials: dialer "cs_dial cs" + sleeps: sleeper "cs_sleep cs" for cs :: consumer +
  fixes ou :: outside
  assumes rewriter_ok: "cs_rewriter cs = Some rw \<Longrightarrow> summary_rewriter rw"
begin

lemma rewrite_extends: "cs_rewriter cs = Some rw \<Longrightarrow> extends pipeline_event w (snd (rw i w))"
  using rewriter_ok summary_rewriter.axioms(1) pipeline_op.op_extends by fast

lemma rewrite_text_extends: "extends pipeline_event w (snd (rewrite_text cs c attrs text w))"
proof (cases "cs_rewriter cs")
  case (Some rw)
  obtain r w1 where r: "rw (c, text) w = (r, w1)" by (cases "rw (c, text) w")
  then have "extends pipeline_event w w1" using rewrite_extends [OF Some, of w "(c, text)"] by simp
  then show ?thesis
    using Some r by (auto simp: rewrite_text_def split: sum.splits elim: extends_trans)
qed (simp add: rewrite_text_def)

text \<open>What is published is the trimmed report, or the summary when there is none.\<close>

lemma rewrite_text_cases:
  assumes "rewrite_text cs c attrs text w = ((chosen, rewritten), w1)"
  shows "if rewritten
    then \<exists>rw report. cs_rewriter cs = Some rw \<and> fst (rw (c, text) w) = Inr report \<and>
      chosen = trim_space report \<and> chosen \<noteq> []
    else chosen = text \<and>
      (\<forall>rw. cs_rewriter cs = Some rw \<longrightarrow> (\<exists>e. fst (rw (c, text) w) = Inl e))"
proof (cases "cs_rewriter cs")
  case None
  with assms show ?thesis by (auto simp: rewrite_text_def)
next
  case (Some rw)
  have blank: "fst (rw (c, text) w) = Inr r \<Longrightarrow> trim_space r \<noteq> []" for r
    by (rule summary_rewriter.report_not_blank [OF rewriter_ok [OF Some]])
  show ?thesis
  proof (cases "rw (c, text) w")
    case (Pair r u)
    with Some assms blank show ?thesis
      by (cases r) (auto simp: rewrite_text_def)
  qed
qed

lemma publish_summary_extends:
  "extends pipeline_event w (snd (publish_summary cs c attrs text w))"
proof -
  obtain chosen rewritten w1 where r: "rewrite_text cs c attrs text w = ((chosen, rewritten), w1)"
    by (metis surj_pair)
  then have 1: "extends pipeline_event w w1" using rewrite_text_extends [of w c attrs "text"] by simp
  obtain e w2 where p: "cs_publisher cs (c, chosen) w1 = (e, w2)" by force
  then have 2: "extends pipeline_event w1 w2" using pub.op_extends [of w1 "(c, chosen)"] by simp
  show ?thesis
    using r p extends_trans [OF 1 2]
    by (auto simp: publish_summary_def split: option.splits elim: extends_trans)
qed

lemma pipeline_extends: "extends pipeline_event w (snd (pipeline ou cs c d w))"
proof (cases "ctx_state c (w_clock (tick w))")
  case None
  then show ?thesis
  proof (cases "decodeStock ou (d_body d)")
    case (Inr identity)
    let ?i = "(c, st_Exchange identity, st_Symbol identity)"
    obtain r w2 where r: "cs_summaries cs ?i (tick w) = (r, w2)" by force
    then have 2: "extends pipeline_event w w2"
      using reads.op_extends [of "tick w" ?i] by (auto intro: extends_trans)
    show ?thesis
      using None Inr r 2
      by (auto simp: pipeline_def ctx_err_def Let_def split: sum.splits
          intro: extends_trans [OF _ publish_summary_extends] elim: extends_trans)
  qed (simp add: pipeline_def ctx_err_def Let_def extends_trans [OF tick_extends])
qed (simp add: pipeline_def ctx_err_def Let_def)

lemma handleDelivery_extends: "extends handler_event w (handleDelivery ou cs c sess d w)"
proof -
  obtain oc w1 where "pipeline ou cs c d w = (oc, w1)" by force
  then have "extends handler_event w w1" using pipeline_extends [of w c d] pipeline_handler by simp
  then show ?thesis
    using \<open>pipeline ou cs c d w = (oc, w1)\<close>
    by (simp add: handleDelivery_refines)
      (blast intro: extends_trans settle_extends announce_extends)
qed

text \<open>A delivery is settled once, the way the context stands when the work is over.\<close>

lemma handleDelivery_settles:
  assumes "\<not> se_closed sess"
  shows "\<exists>t. w_clock w \<le> t \<and> t \<le> w_clock (handleDelivery ou cs c sess d w) \<and>
    settlements (handleDelivery ou cs c sess d w) = settlements w @ [settle_event c sess d t]"
proof -
  obtain oc w1 where p: "pipeline ou cs c d w = (oc, w1)" by force
  then have e: "extends pipeline_event w w1" using pipeline_extends [of w c d] by simp
  have h: "handleDelivery ou cs c sess d w = announce ou d oc (settle (ou_amqp ou) c sess d w1)"
    using p by (simp add: handleDelivery_refines)
  have "w_clock w \<le> w_clock (tick w1)"
    using extends_clock [OF e] by (simp add: frame_simps)
  moreover have "w_clock (tick w1) \<le> w_clock (settle (ou_amqp ou) c sess d w1)"
    using extends_clock [OF settle_call_extends(1), of "tick w1"]
      extends_clock [OF settle_call_extends(2), of "tick w1"]
    by (auto simp: settle_def ctx_err_def Let_def frame_simps)
  moreover have "settlements w1 = settlements w" by (rule settlements_extends [OF e])
  ultimately show ?thesis
    unfolding h frame_simps(1,2)
    by (intro exI [of _ "w_clock (tick w1)"])
      (simp add: settle_settlements [OF assms] announce_fields)
qed

end

section \<open>Every delivery is settled once, in order\<close>

text \<open>The deliveries a session took from its stream, starting with the \<open>p\<close>-th receive.\<close>

definition taken :: "amqp_lib \<Rightarrow> nat \<Rightarrow> session \<Rightarrow> delivery list" where
  "taken al p sess =
     List.map_filter (\<lambda>i. Option.bind (al_stream al (se_conn sess) i) snd) [p..<se_pos sess]"

lemma taken_received:
  "next_receive al sess = Some (t, Some d) \<Longrightarrow> p \<le> se_pos sess \<Longrightarrow>
     taken al p (received sess) = taken al p sess @ [d]"
  by (simp add: taken_def received_def next_receive_def List.map_filter_def)

lemma taken_Nil: "taken al (se_pos sess) sess = []"
  by (simp add: taken_def List.map_filter_def)

lemma received_fields [simp]:
  "se_conn (received sess) = se_conn sess" "se_closed (received sess) = se_closed sess"
  "se_pos (received sess) = Suc (se_pos sess)" "se_tag (received sess) = se_tag sess"
  by (simp_all add: received_def)

definition settles :: "nat \<Rightarrow> event \<Rightarrow> delivery \<Rightarrow> bool" where
  "settles n e d \<longleftrightarrow>
     e = Ev_amqp n (Ack (d_tag d) False) \<or> e = Ev_amqp n (Nack (d_tag d) False True)"

text \<open>From \<open>w0\<close> on, the settlements are those of the deliveries taken, one for each.\<close>

definition settled_since :: "amqp_lib \<Rightarrow> session \<Rightarrow> world \<Rightarrow> session \<Rightarrow> world \<Rightarrow> bool" where
  "settled_since al sess0 w0 sess w \<longleftrightarrow>
     se_conn sess = se_conn sess0 \<and> \<not> se_closed sess \<and> se_pos sess0 \<le> se_pos sess \<and>
     (\<exists>es. settlements w = settlements w0 @ es \<and>
        list_all2 (settles (se_conn sess0)) es (taken al (se_pos sess0) sess))"

fun consume_inv :: "amqp_lib \<Rightarrow> session \<Rightarrow> world \<Rightarrow> consume_state \<Rightarrow> bool" where
  "consume_inv al sess0 w0 (Receiving sess delivered w) = settled_since al sess0 w0 sess w"
| "consume_inv al sess0 w0 (Draining sess delivered w) = settled_since al sess0 w0 sess w"

definition consume_post :: "amqp_lib \<Rightarrow> session \<Rightarrow> world \<Rightarrow> consume_result \<Rightarrow> bool" where
  "consume_post al sess0 w0 = (\<lambda>(delivered, err, sess, w). settled_since al sess0 w0 sess w)"

lemma settled_since_start: "\<not> se_closed sess \<Longrightarrow> settled_since al sess w sess w"
  by (simp add: settled_since_def taken_Nil)

lemma settled_since_same:
  "settled_since al sess0 w0 sess w \<Longrightarrow> settlements w' = settlements w \<Longrightarrow>
     settled_since al sess0 w0 sess w'"
  by (simp add: settled_since_def)

lemma settled_since_next:
  assumes "settled_since al sess0 w0 sess w" and "next_receive al sess = Some (t, Some d)"
    and "settlements w' = settlements w @ [e]" and "settles (se_conn sess) e d"
  shows "settled_since al sess0 w0 (received sess) w'"
proof -
  from assms(1) obtain es where es: "settlements w = settlements w0 @ es"
    "list_all2 (settles (se_conn sess0)) es (taken al (se_pos sess0) sess)"
    and s: "se_conn sess = se_conn sess0" "\<not> se_closed sess" "se_pos sess0 \<le> se_pos sess"
    by (auto simp: settled_since_def)
  have "list_all2 (settles (se_conn sess0)) (es @ [e]) (taken al (se_pos sess0) (received sess))"
    using es(2) assms(4) s taken_received [OF assms(2) s(3)] by (simp add: list_all2_appendI)
  then show ?thesis using es(1) assms(3) s by (auto simp: settled_since_def)
qed

lemma cancelConsumer_settlements: "settlements (cancelConsumer al sess w) = settlements w"
  by (simp add: cancelConsumer_def trace_simps)

lemma settle_event_settles: "settles (se_conn sess) (settle_event c sess d t) d"
  by (simp add: settles_def settle_event_def)

lemma drain_step_settles:
  assumes "settled_since al sess0 w0 sess w"
  shows "drain_step al (sess, w) \<noteq> Block"
    and "drain_step al (sess, w) = Again (sess', w') \<Longrightarrow> settled_since al sess0 w0 sess' w'"
    and "drain_step al (sess, w) = Return (sess', w') \<Longrightarrow> settled_since al sess0 w0 sess' w'"
proof -
  show "drain_step al (sess, w) \<noteq> Block"
    by (auto simp: drain_step_def Let_def split: option.splits)
  show "settled_since al sess0 w0 sess' w'" if "drain_step al (sess, w) = Return (sess', w')"
    using that assms
    by (auto simp: drain_step_def Let_def trace_simps elim!: settled_since_same
        split: option.splits if_splits)
  assume a: "drain_step al (sess, w) = Again (sess', w')"
  then obtain t d where n: "next_receive al sess = Some (t, Some d)" and "sess' = received sess"
    and w': "w' = log_failed d (nack al (received sess) (d_tag d) True (tick w))"
    by (auto simp: drain_step_def Let_def split: option.splits if_splits)
  moreover have "settlements w' = settlements w @ [Ev_amqp (se_conn sess) (Nack (d_tag d) False True)]"
    using assms by (simp add: w' frame_simps nack_def settled_since_def trace_simps)
  ultimately show "settled_since al sess0 w0 sess' w'"
    using settled_since_next [OF assms n] by (simp add: settles_def)
qed

context consumer_parts begin

lemma receive_step_cases:
  assumes "receive_step ou cs c sess delivered w = r"
  obtains (cancelled) w1 where "r = Again (Draining sess delivered (cancelConsumer (ou_amqp ou) sess w1))"
      "extends (\<lambda>_. False) w w1" "ctx_state c (w_clock w1) \<noteq> None"
  | (handled) w1 t d where "next_receive (ou_amqp ou) sess = Some (t, Some d)"
      "r = Again (Receiving (received sess) True (handleDelivery ou cs c (received sess) d w1))"
      "extends (\<lambda>_. False) w w1"
  | (ended) w1 where "r = Return (delivered, Some errSessionClosed, sess, w1)"
      "extends (\<lambda>_. False) w w1" "ctx_state c (w_clock (tick w)) = None"
  | (blocked) "r = Block" "next_receive (ou_amqp ou) sess = None" "ctx_done_at c = None"
proof (cases "ctx_state c (w_clock (tick w))")
  case (Some e)
  then show thesis
    using assms cancelled [of "tick w"] by (simp add: receive_step_def ctx_err_def)
next
  case None
  let ?next = "next_receive (ou_amqp ou) sess"
  have r: "r = (case select2 (map_option fst ?next) (ctx_done_at c) (tick w) of
      None \<Rightarrow> Block
    | Some (False, w2) \<Rightarrow> Again (Draining sess delivered (cancelConsumer (ou_amqp ou) sess w2))
    | Some (True, w2) \<Rightarrow>
        (case ?next of
           Some (_, Some d) \<Rightarrow>
             Again (Receiving (received sess) True (handleDelivery ou cs c (received sess) d w2))
         | _ \<Rightarrow> Return (delivered, Some errSessionClosed, sess, w2)))"
    using assms None by (simp add: receive_step_def ctx_err_def Let_def)
  show thesis
  proof (cases "select2 (map_option fst ?next) (ctx_done_at c) (tick w)")
    case None
    then have "r = Block" using r by simp
    moreover have "?next = None" and "ctx_done_at c = None"
      using None by (simp_all add: select2_None_iff)
    ultimately show ?thesis by (rule blocked)
  next
    case (Some a)
    obtain b w2 where a: "a = (b, w2)" by force
    have ex: "extends (\<lambda>_. False) w w2"
      using Some a select2_extends extends_trans [OF tick_extends] by blast
    show ?thesis
    proof (cases b)
      case True
      then show ?thesis
        using r Some a ex handled [of _ _ w2] ended [of w2] None
        by (cases ?next; cases "snd (the ?next)") (auto split: prod.splits)
    next
      case False
      then obtain t where "ctx_done_at c = Some t" "t \<le> w_clock w2"
        using select2_right [of _ "ctx_done_at c" _ w2] Some a by auto
      then have "ctx_state c (w_clock w2) \<noteq> None" by (rule ctx_done_state)
      then show ?thesis using r Some a False ex cancelled [of w2] by simp
    qed
  qed
qed

lemma receive_step_settles:
  assumes "settled_since (ou_amqp ou) sess0 w0 sess w"
  shows "receive_step ou cs c sess delivered w = Again st \<Longrightarrow> consume_inv (ou_amqp ou) sess0 w0 st"
    and "receive_step ou cs c sess delivered w = Return r \<Longrightarrow> consume_post (ou_amqp ou) sess0 w0 r"
proof -
  have quiet: "settled_since (ou_amqp ou) sess0 w0 sess u" if "extends (\<lambda>_. False) w u" for u
    using settled_since_same [OF assms] settlements_extends [OF extends_mono [OF that]] by blast
  have handled: "settled_since (ou_amqp ou) sess0 w0 (received sess)
      (handleDelivery ou cs c (received sess) d u)"
    if "next_receive (ou_amqp ou) sess = Some (t, Some d)" "extends (\<lambda>_. False) w u" for t d u
  proof -
    have "\<not> se_closed (received sess)" using assms by (simp add: settled_since_def)
    from handleDelivery_settles [OF this, of u c d] obtain t' where
      "settlements (handleDelivery ou cs c (received sess) d u) =
        settlements u @ [settle_event c (received sess) d t']" by blast
    then show ?thesis
      using settled_since_next [OF quiet [OF that(2)] that(1)]
        settle_event_settles [of "received sess" c d t'] by simp
  qed
  show "consume_inv (ou_amqp ou) sess0 w0 st" if "receive_step ou cs c sess delivered w = Again st"
    using receive_step_cases [OF that]
    by cases (auto intro: handled settled_since_same [OF quiet] cancelConsumer_settlements)
  show "consume_post (ou_amqp ou) sess0 w0 r" if "receive_step ou cs c sess delivered w = Return r"
    using receive_step_cases [OF that] by cases (auto simp: consume_post_def intro: quiet)
qed

end

sublocale consumer_parts \<subseteq> settling:
  loop_invariant "consume_step ou cs c" "consume_inv (ou_amqp ou) sess0 w0"
    "consume_post (ou_amqp ou) sess0 w0" for c sess0 w0
proof unfold_locales
  fix s t
  assume "consume_inv (ou_amqp ou) sess0 w0 s" and "consume_step ou cs c s = Again t"
  then show "consume_inv (ou_amqp ou) sess0 w0 t"
    by (cases s) (auto split: iter.splits prod.splits intro: receive_step_settles drain_step_settles)
next
  fix s r
  assume "consume_inv (ou_amqp ou) sess0 w0 s" and "consume_step ou cs c s = Return r"
  then show "consume_post (ou_amqp ou) sess0 w0 r"
  proof (cases s)
    case (Receiving sess delivered w)
    then show ?thesis
      using receive_step_settles(2) \<open>consume_inv _ _ _ s\<close> \<open>consume_step _ _ _ s = _\<close> by simp
  next
    case (Draining sess delivered w)
    then show ?thesis
      using \<open>consume_inv _ _ _ s\<close> \<open>consume_step _ _ _ s = _\<close>
      by (auto simp: consume_post_def split: iter.splits prod.splits intro: drain_step_settles)
  qed
qed

end
