(* ===== verification/Consumer_Run.thy ===== *)
theory Consumer_Run
  imports Consumer_Loops
begin

text \<open>
  The invariants of the supervisor \<open>Run\<close>: connections and channels are released, nothing is
  acknowledged once the context is done, and \<open>Run\<close> then returns.
\<close>

section \<open>Connections and channels\<close>

fun conn_upd :: "event \<Rightarrow> nat set \<Rightarrow> nat set" where
  "conn_upd (Ev_dial n) S = insert n S"
| "conn_upd (Ev_conn_close n) S = S - {n}"
| "conn_upd e S = S"

fun chan_upd :: "event \<Rightarrow> nat set \<Rightarrow> nat set" where
  "chan_upd (Ev_channel n) S = insert n S"
| "chan_upd (Ev_ch_close n) S = S - {n}"
| "chan_upd e S = S"

text \<open>The connections and the channels that a trace leaves open.\<close>

definition open_conns :: "event list \<Rightarrow> nat set" where
  "open_conns es = fold conn_upd es {}"

definition open_chans :: "event list \<Rightarrow> nat set" where
  "open_chans es = fold chan_upd es {}"

fun is_conn_event :: "event \<Rightarrow> bool" where
  "is_conn_event (Ev_dial n) = True"
| "is_conn_event (Ev_channel n) = True"
| "is_conn_event (Ev_ch_close n) = True"
| "is_conn_event (Ev_conn_close n) = True"
| "is_conn_event e = False"

lemma upd_other: "\<not> is_conn_event e \<Longrightarrow> conn_upd e S = S" "\<not> is_conn_event e \<Longrightarrow> chan_upd e S = S"
  by (cases e; simp)+

lemma fold_upd_other:
  "list_all (\<lambda>e. \<not> is_conn_event e) es \<Longrightarrow> fold conn_upd es S = S"
  "list_all (\<lambda>e. \<not> is_conn_event e) es \<Longrightarrow> fold chan_upd es S = S"
  by (induction es arbitrary: S) (auto simp: upd_other)

lemma handler_no_conn: "handler_event e \<Longrightarrow> \<not> is_conn_event e"
  by (cases e) (auto simp: handler_event_def)

text \<open>Since the trace was \<open>tr\<close>, the connections \<open>C\<close> were opened and not closed, with channels \<open>D\<close>.\<close>

definition holds_open :: "event list \<Rightarrow> nat set \<Rightarrow> nat set \<Rightarrow> world \<Rightarrow> bool" where
  "holds_open tr C D w \<longleftrightarrow> (\<exists>es. w_trace w = tr @ es \<and> open_conns es = C \<and> open_chans es = D)"

lemma holds_open_start: "holds_open (w_trace w) {} {} w"
  by (simp add: holds_open_def open_conns_def open_chans_def)

lemma holds_open_step:
  assumes "holds_open tr C D w" and "w_trace w' = w_trace w @ es"
  shows "holds_open tr (fold conn_upd es C) (fold chan_upd es D) w'"
  using assms by (force simp: holds_open_def open_conns_def open_chans_def)

lemma holds_open_extends:
  assumes "holds_open tr C D w" and "extends P w w'" and "\<And>e. P e \<Longrightarrow> \<not> is_conn_event e"
  shows "holds_open tr C D w'"
proof -
  obtain es where es: "w_trace w' = w_trace w @ es" "list_all P es"
    using extends_trace [OF assms(2)] by blast
  then have "list_all (\<lambda>e. \<not> is_conn_event e) es" using assms(3) by (auto simp: list_all_iff)
  with holds_open_step [OF assms(1) es(1)] show ?thesis by (simp add: fold_upd_other)
qed

lemma holds_open_handler:
  "holds_open tr C D w \<Longrightarrow> extends handler_event w w' \<Longrightarrow> holds_open tr C D w'"
  by (erule (1) holds_open_extends) (auto dest: handler_no_conn)

lemma holds_open_log: "holds_open tr C D w \<Longrightarrow> holds_open tr C D (log_at l m as w)"
  by (erule holds_open_handler) simp

lemma holds_open_tick: "holds_open tr C D w \<Longrightarrow> holds_open tr C D (tick w)"
  by (erule holds_open_handler) simp

lemma holds_open_silent:
  "holds_open tr C D w \<Longrightarrow> extends (\<lambda>_. False) w w' \<Longrightarrow> holds_open tr C D w'"
  by (erule (1) holds_open_extends) auto

lemma holds_open_sleep:
  "holds_open tr C D w \<Longrightarrow> extends (\<lambda>e. e = Ev_sleep d) w w' \<Longrightarrow> holds_open tr C D w'"
  by (erule (1) holds_open_extends) auto

lemma holds_open_cancel: "holds_open tr C D w \<Longrightarrow> holds_open tr C D (cancelConsumer al sess w)"
  using holds_open_step [of tr C D w _ "[Ev_amqp (se_conn sess) (Cancel (se_tag sess) False)]"]
  by (simp add: cancelConsumer_def frame_simps)

section \<open>Connecting\<close>

lemma amqp_calls_trace:
  assumes "amqp_calls al n ops w = (r, w')"
  shows "\<exists>k. w_trace w' = w_trace w @ map (Ev_amqp n) (take k ops) \<and>
    (r = None \<longrightarrow> take k ops = ops)"
  using assms
proof (induction ops arbitrary: w)
  case (Cons op ops)
  show ?case
  proof (cases "fst (amqp_call al n op w)")
    case None
    then have "amqp_calls al n ops (snd (amqp_call al n op w)) = (r, w')"
      using Cons.prems by (simp split: prod.splits)
    from Cons.IH [OF this] obtain k where
      "w_trace w' = w_trace (snd (amqp_call al n op w)) @ map (Ev_amqp n) (take k ops)"
      "r = None \<longrightarrow> take k ops = ops" by blast
    then show ?thesis by (intro exI [of _ "Suc k"]) (simp add: frame_simps)
  next
    case (Some e)
    then have "w' = snd (amqp_call al n op w)" and "r = Some e"
      using Cons.prems by (auto split: prod.splits)
    then show ?thesis by (intro exI [of _ "Suc 0"]) (simp add: frame_simps)
  qed
qed simp

lemma amqp_calls_extends:
  "extends (\<lambda>e. \<exists>op. e = Ev_amqp n op) w (snd (amqp_calls al n ops w))"
proof (induction ops arbitrary: w)
  case (Cons op ops)
  have "extends (\<lambda>e. \<exists>op. e = Ev_amqp n op) w (snd (amqp_call al n op w))"
    by (rule amqp_call_extends) blast
  then show ?case
    using extends_trans [OF _ Cons.IH] by (auto split: prod.splits option.splits)
qed simp

lemma conn_Channel_trace:
  "conn_Channel al n w = (r, w') \<Longrightarrow>
     w_trace w' = w_trace w @ (if r = None then [Ev_channel n] else [])"
  by (auto simp: conn_Channel_def frame_simps split: option.splits)

context consumer_parts begin

text \<open>The calls of an attempt to connect, in order.\<close>

lemma connect_trace:
  assumes "connect ou cs c w = (r, w')"
  shows "case r of
      Inr sess \<Rightarrow> sess = \<lparr>se_conn = se_conn sess, se_pos = 0, se_tag = consumer_tag (ou_pid ou),
          se_closed = False\<rparr> \<and>
        w_trace w' = w_trace w @ [Ev_dial (se_conn sess), Ev_channel (se_conn sess)] @
          map (Ev_amqp (se_conn sess)) (topology_ops (cs_cfg cs) (consumer_tag (ou_pid ou)))
    | Inl e \<Rightarrow> w_trace w' = w_trace w \<or>
        (\<exists>n. w_trace w' = w_trace w @ [Ev_dial n, Ev_conn_close n]) \<or>
        (\<exists>n k. w_trace w' = w_trace w @ [Ev_dial n, Ev_channel n] @
          map (Ev_amqp n) (take k (topology_ops (cs_cfg cs) (consumer_tag (ou_pid ou)))) @
          [Ev_ch_close n, Ev_conn_close n])"
proof -
  obtain d w1 where d: "cs_dial cs c (rq_URL (cs_cfg cs)) (rq_ConnectTimeout (cs_cfg cs)) w = (d, w1)"
    by force
  show ?thesis
  proof (cases d)
    case (Inl e)
    with assms d dials.dial_quiet show ?thesis by (auto simp: connect_def)
  next
    case (Inr n)
    then have t1: "w_trace w1 = w_trace w @ [Ev_dial n]" using dials.dial_ok d by blast
    obtain ch w2 where ch: "conn_Channel (ou_amqp ou) n w1 = (ch, w2)" by force
    note t2 = conn_Channel_trace [OF ch]
    show ?thesis
    proof (cases ch)
      case (Some e)
      with assms d Inr ch t1 t2 show ?thesis by (auto simp: connect_def frame_simps)
    next
      case None
      let ?ops = "topology_ops (cs_cfg cs) (consumer_tag (ou_pid ou))"
      obtain r3 w3 where r3: "amqp_calls (ou_amqp ou) n ?ops w2 = (r3, w3)" by force
      from amqp_calls_trace [OF r3] obtain k where
        t3: "w_trace w3 = w_trace w2 @ map (Ev_amqp n) (take k ?ops)" "r3 = None \<longrightarrow> take k ?ops = ?ops"
        by blast
      with assms d Inr ch None r3 t1 t2 show ?thesis
        by (cases r3) (auto simp: connect_def frame_simps)
    qed
  qed
qed

lemma map_amqp_upd:
  "fold conn_upd (map (Ev_amqp n) ops) S = S" "fold chan_upd (map (Ev_amqp n) ops) S = S"
  by (induction ops) simp_all

lemma connect_holds_open:
  assumes "connect ou cs c w = (r, w')" and "holds_open tr {} {} w"
  shows "case r of Inl e \<Rightarrow> holds_open tr {} {} w'
    | Inr sess \<Rightarrow> \<not> se_closed sess \<and> holds_open tr {se_conn sess} {se_conn sess} w'"
proof (cases r)
  case (Inl e)
  with connect_trace [OF assms(1)] consider "w_trace w' = w_trace w @ []"
    | n where "w_trace w' = w_trace w @ [Ev_dial n, Ev_conn_close n]"
    | n ops where "w_trace w' = w_trace w @ [Ev_dial n, Ev_channel n] @ map (Ev_amqp n) ops @
        [Ev_ch_close n, Ev_conn_close n]"
    by fastforce
  then show ?thesis
    using Inl by cases (drule holds_open_step [OF assms(2)], simp add: map_amqp_upd)+
next
  case (Inr sess)
  have "sess = \<lparr>se_conn = se_conn sess, se_pos = 0, se_tag = consumer_tag (ou_pid ou),
      se_closed = False\<rparr>"
    and tr: "w_trace w' = w_trace w @ [Ev_dial (se_conn sess), Ev_channel (se_conn sess)] @
      map (Ev_amqp (se_conn sess)) (topology_ops (cs_cfg cs) (consumer_tag (ou_pid ou)))"
    using connect_trace [OF assms(1)] Inr by auto
  from this(1) have "\<not> se_closed sess" by (metis session.select_convs(4))
  then show ?thesis
    using Inr holds_open_step [OF assms(2) tr] by (simp add: map_amqp_upd)
qed

end

section \<open>A session's connection is released\<close>

lemma session_close_trace:
  "session_close al sess w = (r, sess', w') \<Longrightarrow>
     se_closed sess' \<and> w_trace w' = w_trace w @
       (if se_closed sess then [] else [Ev_ch_close (se_conn sess), Ev_conn_close (se_conn sess)])"
  by (auto simp: session_close_def ch_Close_def conn_Close_def frame_simps Let_def split: if_splits)

lemma session_close_holds_open:
  assumes "session_close al sess w = (r, sess', w')" and "\<not> se_closed sess"
    and "holds_open tr {se_conn sess} {se_conn sess} w"
  shows "holds_open tr {} {} w'"
  using session_close_trace [OF assms(1)] assms(2) holds_open_step [OF assms(3)] by fastforce

definition session_open :: "event list \<Rightarrow> session \<Rightarrow> world \<Rightarrow> bool" where
  "session_open tr sess w \<longleftrightarrow>
     \<not> se_closed sess \<and> holds_open tr {se_conn sess} {se_conn sess} w"

fun run_open :: "event list \<Rightarrow> run_state \<Rightarrow> bool" where
  "run_open tr (Supervising failures linked w) = holds_open tr {} {} w"
| "run_open tr (Consuming failures linked (Receiving sess delivered w)) = session_open tr sess w"
| "run_open tr (Consuming failures linked (Draining sess delivered w)) = session_open tr sess w"

definition run_released :: "event list \<Rightarrow> run_result \<Rightarrow> bool" where
  "run_released tr = (\<lambda>(err, w). err = None \<and> holds_open tr {} {} w)"

lemma shutting_down_released:
  "holds_open tr {} {} w \<Longrightarrow> shutting_down msg w = Return r \<Longrightarrow> run_released tr r"
  "shutting_down msg w \<noteq> Again s"
  by (auto simp: shutting_down_def run_released_def intro: holds_open_log)

lemma drain_step_open:
  assumes "session_open tr sess w"
  shows "drain_step al (sess, w) = Again (sess', w') \<Longrightarrow> session_open tr sess' w'"
    and "drain_step al (sess, w) = Return (sess', w') \<Longrightarrow> session_open tr sess' w'"
proof -
  have settle: "holds_open tr C D (log_failed d (nack al sess t r u))"
    if "holds_open tr C D u" for C D d sess t r u
    using that by (rule holds_open_handler) (intro log_failed_extends settle_call_extends)
  show "drain_step al (sess, w) = Again (sess', w') \<Longrightarrow> session_open tr sess' w'"
    using assms
    by (auto simp: drain_step_def session_open_def Let_def intro!: settle holds_open_tick
        split: option.splits if_splits)
  show "drain_step al (sess, w) = Return (sess', w') \<Longrightarrow> session_open tr sess' w'"
    using assms
    by (auto simp: drain_step_def session_open_def Let_def intro!: holds_open_tick
        split: option.splits if_splits)
qed

context consumer_parts begin

lemma receive_step_open:
  assumes "session_open tr sess w"
  shows "receive_step ou cs c sess delivered w = Again st \<Longrightarrow>
      (case st of Receiving s' b w' \<Rightarrow> session_open tr s' w' | Draining s' b w' \<Rightarrow> session_open tr s' w')"
    and "receive_step ou cs c sess delivered w = Return (b, e, sess', w') \<Longrightarrow>
      session_open tr sess' w'"
  by (erule receive_step_cases; use assms in \<open>auto simp: session_open_def
      intro!: holds_open_cancel holds_open_handler [OF _ handleDelivery_extends]
      dest: holds_open_silent\<close>)+

lemma back_off_open:
  assumes "holds_open tr {} {} w"
  shows "back_off cs c failures linked w = Again s \<Longrightarrow> run_open tr s"
    and "back_off cs c failures linked w = Return r \<Longrightarrow> run_released tr r"
    and "back_off cs c failures linked w \<noteq> Block"
proof -
  obtain r' w' where "cs_sleep cs c (backoffDelay (int failures)) w = (r', w')" by force
  moreover from this have "holds_open tr {} {} w'"
    using holds_open_sleep [OF assms] sleeps.sleep_extends by (metis snd_conv)
  ultimately show "back_off cs c failures linked w = Again s \<Longrightarrow> run_open tr s"
    and "back_off cs c failures linked w = Return r \<Longrightarrow> run_released tr r"
    and "back_off cs c failures linked w \<noteq> Block"
    by (auto simp: back_off_def shutting_down_def run_released_def holds_open_log
        split: option.splits)
qed

lemma connect_failed_open:
  assumes "holds_open tr {} {} w"
  shows "connect_failed cs c failures linked err w = Again s \<Longrightarrow> run_open tr s"
    and "connect_failed cs c failures linked err w = Return r \<Longrightarrow> run_released tr r"
  using back_off_open [OF holds_open_log [OF holds_open_tick [OF assms]]]
    shutting_down_released(1) [OF holds_open_tick [OF assms]] shutting_down_released(2)
  unfolding connect_failed_def ctx_err_def Let_def prod.case by (metis option.distinct(1))+

lemma supervise_open:
  assumes "holds_open tr {} {} w"
  shows "supervise ou cs c failures linked w = Again s \<Longrightarrow> run_open tr s"
    and "supervise ou cs c failures linked w = Return r \<Longrightarrow> run_released tr r"
proof -
  obtain x w2 where x: "connect ou cs c (tick w) = (x, w2)" by force
  note open2 = connect_holds_open [OF x holds_open_tick [OF assms]]
  have main: "(supervise ou cs c failures linked w = Again s \<longrightarrow> run_open tr s) \<and>
      (supervise ou cs c failures linked w = Return r \<longrightarrow> run_released tr r)"
  proof (cases "ctx_state c (w_clock (tick w))")
    case (Some e)
    then show ?thesis
      using shutting_down_released(1) [OF holds_open_tick [OF assms]]
      by (auto simp: shutting_down_released(2) supervise_def ctx_err_def)
  next
    case go: None
    show ?thesis
    proof (cases x)
      case (Inl e)
      then show ?thesis
        using go x connect_failed_open open2 by (auto simp: supervise_def ctx_err_def)
    next
      case (Inr sess)
      then have open3: "session_open tr sess (tick w2)"
        using open2 by (simp add: session_open_def holds_open_tick)
      obtain e s' w4 where cl: "session_close (ou_amqp ou) sess (tick w2) = (e, s', w4)"
        by (metis surj_pair)
      have "holds_open tr {} {} w4"
        using session_close_holds_open [OF cl] open3 by (simp add: session_open_def)
      then show ?thesis
        using go x Inr open3 cl
        by (auto simp: supervise_def ctx_err_def Let_def shutting_down_released
            session_open_def intro!: holds_open_log)
    qed
  qed
  then show "supervise ou cs c failures linked w = Again s \<Longrightarrow> run_open tr s"
    and "supervise ou cs c failures linked w = Return r \<Longrightarrow> run_released tr r" by blast+
qed

lemma after_consume_open:
  assumes "session_open tr sess w"
  shows "after_consume ou cs c failures linked (delivered, e, sess, w) = Again s \<Longrightarrow> run_open tr s"
    and "after_consume ou cs c failures linked (delivered, e, sess, w) = Return r \<Longrightarrow>
      run_released tr r"
proof -
  have close: "holds_open tr {} {} u'"
    if "session_close (ou_amqp ou) sess u = (x, s', u')" "holds_open tr {se_conn sess} {se_conn sess} u"
    for x s' u u' using session_close_holds_open [OF that(1) _ that(2)] assms
    by (simp add: session_open_def)
  have tk: "holds_open tr {se_conn sess} {se_conn sess} (tick w)"
    using assms by (simp add: session_open_def holds_open_tick)
  show "after_consume ou cs c failures linked (delivered, e, sess, w) = Again s \<Longrightarrow> run_open tr s"
    by (auto simp: ctx_err_def Let_def shutting_down_released split: prod.splits if_splits
        dest!: close intro!: back_off_open(1) intro: tk holds_open_log)
  show "after_consume ou cs c failures linked (delivered, e, sess, w) = Return r \<Longrightarrow>
      run_released tr r"
    by (auto simp: ctx_err_def Let_def split: prod.splits if_splits
        dest!: close intro: back_off_open(2) shutting_down_released(1) tk holds_open_log)
qed

lemma consume_step_open:
  assumes "run_open tr (Consuming failures linked st)"
  shows "consume_step ou cs c st = Again st' \<Longrightarrow> run_open tr (Consuming failures linked st')"
    and "consume_step ou cs c st = Return (b, e, sess, w) \<Longrightarrow> session_open tr sess w"
proof -
  show "consume_step ou cs c st = Again st' \<Longrightarrow> run_open tr (Consuming failures linked st')"
    using assms
    by (cases st) (auto split: iter.splits prod.splits consume_state.splits
        dest: receive_step_open(1) drain_step_open(1))
  show "consume_step ou cs c st = Return (b, e, sess, w) \<Longrightarrow> session_open tr sess w"
    using assms
    by (cases st) (auto split: iter.splits prod.splits
        dest: receive_step_open(2) drain_step_open(2))
qed

end

sublocale consumer_parts \<subseteq> releasing:
  loop_invariant "run_step ou cs c" "run_open tr" "run_released tr" for c tr
proof unfold_locales
  fix s t
  assume inv: "run_open tr s" and step: "run_step ou cs c s = Again t"
  show "run_open tr t"
  proof (cases s)
    case (Supervising failures linked w)
    with inv step show ?thesis using supervise_open(1) by simp
  next
    case (Consuming failures linked st)
    with inv step show ?thesis
      by (auto split: iter.splits simp del: after_consume.simps
          dest: consume_step_open after_consume_open(1))
  qed
next
  fix s r
  assume inv: "run_open tr s" and step: "run_step ou cs c s = Return r"
  show "run_released tr r"
  proof (cases s)
    case (Supervising failures linked w)
    with inv step show ?thesis using supervise_open(2) by simp
  next
    case (Consuming failures linked st)
    with inv step show ?thesis
      by (auto split: iter.splits simp del: after_consume.simps
          dest: consume_step_open after_consume_open(2))
  qed
qed

end
