(* ===== verification/Consumer_Stop.thy ===== *)
theory Consumer_Stop
  imports Consumer_Run
begin

text \<open>
  What a cancelled context does to the consumer: nothing is acknowledged any more, and \<open>Run\<close>
  returns after a bounded number of iterations.
\<close>

section \<open>Time goes on\<close>

abbreviation goes_on :: "world \<Rightarrow> world \<Rightarrow> bool" where
  "goes_on \<equiv> extends (\<lambda>_. True)"

lemma goes_onI: "extends P w w' \<Longrightarrow> goes_on w w'"
  by (erule extends_mono) simp

fun consume_world :: "consume_state \<Rightarrow> world" where
  "consume_world (Receiving sess delivered w) = w"
| "consume_world (Draining sess delivered w) = w"

fun run_world :: "run_state \<Rightarrow> world" where
  "run_world (Supervising failures linked w) = w"
| "run_world (Consuming failures linked st) = consume_world st"

lemma amqp_calls_goes_on: "goes_on w (snd (amqp_calls al n ops w))"
  by (rule goes_onI [OF amqp_calls_extends])

lemma library_goes_on:
  "goes_on w (snd (amqp_call al n op w))" "goes_on w (snd (ch_Close al n w))"
  "goes_on w (snd (conn_Close al n w))" "goes_on w (snd (conn_Channel al n w))"
  by (auto intro: amqp_call_extends ch_Close_extends conn_Close_extends)
    (auto simp: conn_Channel_def intro: extends_trans [OF emit_extends tick_extends]
      split: option.splits)

lemma session_close_goes_on: "goes_on w (snd (snd (session_close al sess w)))"
  using extends_trans [OF library_goes_on(2) library_goes_on(3)]
  by (simp add: session_close_def Let_def split_beta)

lemma closed_later:
  "ctx_state c (w_clock w) = Some e \<Longrightarrow>
     \<exists>e. ctx_state c (w_clock (snd (snd (session_close al sess w)))) = Some e"
  using ctx_state_mono extends_clock [OF session_close_goes_on] by blast

lemma cancelConsumer_goes_on: "goes_on w (cancelConsumer al sess w)"
  by (simp add: cancelConsumer_def library_goes_on)

context consumer_parts begin

lemma connect_goes_on: "goes_on w (snd (connect ou cs c w))"
proof -
  obtain r w1 where d: "cs_dial cs c (rq_URL (cs_cfg cs)) (rq_ConnectTimeout (cs_cfg cs)) w = (r, w1)"
    by force
  then have 1: "goes_on w w1"
    by (cases r) (auto dest!: dials.dial_error dials.dial_ok intro: goes_onI)
  show ?thesis
  proof (cases r)
    case (Inr n)
    obtain e w2 where ch: "conn_Channel (ou_amqp ou) n w1 = (e, w2)" by force
    then have 2: "goes_on w w2"
      using extends_trans [OF 1 library_goes_on(4)] by (metis snd_conv)
    obtain e3 w3 where calls:
      "amqp_calls (ou_amqp ou) n (topology_ops (cs_cfg cs) (consumer_tag (ou_pid ou))) w2 = (e3, w3)"
      by force
    then have 3: "goes_on w w3"
      using extends_trans [OF 2 amqp_calls_goes_on] by (metis snd_conv)
    show ?thesis
      using d Inr ch calls extends_trans [OF 2 library_goes_on(3)] 3
        extends_trans [OF extends_trans [OF 3 library_goes_on(2)] library_goes_on(3)]
      by (simp add: connect_def split: option.splits)
  qed (use d 1 in \<open>simp add: connect_def\<close>)
qed

lemma back_off_cases:
  assumes "back_off cs c failures linked w = r"
  obtains (waited) w' where "r = Again (Supervising failures linked w')" "goes_on w w'"
      "w_clock w + backoffDelay (int failures) \<le> w_clock w'"
      "w_trace w' = w_trace w @ [Ev_sleep (backoffDelay (int failures))]"
  | (cut) w' where "r = Return (None, w')" "ctx_state c (w_clock w') \<noteq> None"
proof -
  obtain e w' where sl: "cs_sleep cs c (backoffDelay (int failures)) w = (e, w')" by force
  moreover have "goes_on w w'"
    using sleeps.sleep_extends [of "backoffDelay (int failures)" w c] sl by (auto intro: goes_onI)
  moreover have "w_trace w' = w_trace w @ [Ev_sleep (backoffDelay (int failures))]"
    using sleeps.sleep_trace [of c "backoffDelay (int failures)" w] sl by simp
  ultimately show thesis
    using assms waited cut sleeps.sleep_full sleeps.sleep_cut
    by (cases e) (auto simp: back_off_def shutting_down_def frame_simps)
qed

text \<open>
  An iteration of the supervisor that does not end it: the context was not done at its head, and it
  either waits after a failure or starts consuming.
\<close>

lemma supervise_cases:
  assumes "supervise ou cs c failures linked w = r"
  obtains (stopped) w' where "r = Return (None, w')" "ctx_state c (w_clock w') \<noteq> None"
  | (retry) w1 w' where "ctx_state c (w_clock (tick w)) = None" "goes_on (tick w) w1"
      "r = Again (Supervising (failures + 1) linked w')" "goes_on w1 w'"
      "w_clock w1 + backoffDelay (int (failures + 1)) \<le> w_clock w'"
      "w_trace w' = w_trace w1 @ [Ev_sleep (backoffDelay (int (failures + 1)))]"
  | (consuming) sess w' where "ctx_state c (w_clock (tick w)) = None" "goes_on (tick w) w'"
      "r = Again (Consuming failures True (Receiving sess False w'))"
proof (cases "ctx_state c (w_clock (tick w))")
  case (Some e)
  then show thesis
    using assms stopped by (auto simp: supervise_def ctx_err_def shutting_down_def frame_simps)
next
  case go: None
  obtain x w2 where x: "connect ou cs c (tick w) = (x, w2)" by force
  then have 2: "goes_on (tick w) w2" using connect_goes_on [of "tick w" c] by simp
  have 3: "goes_on (tick w) (tick w2)" by (rule extends_trans [OF 2]) simp
  have 4: "goes_on (tick w) (log_at l m as (tick w2))" for l m as by (rule extends_trans [OF 3]) simp
  show thesis
  proof (cases x)
    case (Inl e)
    then have r: "r = connect_failed cs c failures linked e w2"
      using assms go x by (simp add: supervise_def ctx_err_def)
    show thesis
    proof (cases "ctx_state c (w_clock (tick w2))")
      case None
      then obtain l m as where "r = back_off cs c (failures + 1) linked (log_at l m as (tick w2))"
        using r by (simp add: connect_failed_def ctx_err_def Let_def)
      from back_off_cases [OF this [symmetric]] show thesis
        by cases (auto intro: stopped retry [OF go 4])
    qed (use r stopped in \<open>auto simp: connect_failed_def ctx_err_def shutting_down_def frame_simps\<close>)
  next
    case (Inr sess)
    show thesis
    proof (cases "ctx_state c (w_clock (tick w2))")
      case None
      then show thesis
        using assms go x Inr consuming [OF go 4]
        by (auto simp: supervise_def ctx_err_def Let_def split: if_splits)
    next
      case (Some e)
      then show thesis
        using assms go x Inr stopped closed_later
        by (auto simp: supervise_def ctx_err_def Let_def shutting_down_def frame_simps split_beta)
    qed
  qed
qed

lemma after_consume_cases:
  assumes "after_consume ou cs c failures linked (delivered, e, sess, w) = r"
  obtains (stopped) w' where "r = Return (None, w')" "ctx_state c (w_clock w') \<noteq> None"
  | (retry) w1 w' where "ctx_state c (w_clock (tick w)) = None" "goes_on (tick w) w1"
      "r = Again (Supervising ((if delivered then 0 else failures) + 1) linked w')" "goes_on w1 w'"
      "w_clock w1 + backoffDelay (int ((if delivered then 0 else failures) + 1)) \<le> w_clock w'"
      "w_trace w' = w_trace w1 @
         [Ev_sleep (backoffDelay (int ((if delivered then 0 else failures) + 1)))]"
proof (cases "ctx_state c (w_clock (tick w))")
  case (Some x)
  then show thesis
    using assms stopped closed_later
    by (auto simp: ctx_err_def Let_def shutting_down_def frame_simps split_beta)
next
  case None
  define w2 where "w2 = log_at L_Warn ''rabbitmq consumer connection lost''
      (case e of None \<Rightarrow> [] | Some e \<Rightarrow> [At_err e]) (tick w)"
  define w3 where "w3 = snd (snd (session_close (ou_amqp ou) sess w2))"
  have "goes_on (tick w) w3"
    unfolding w3_def w2_def by (rule extends_trans [OF log_extends session_close_goes_on]) simp
  moreover have "r = back_off cs c ((if delivered then 0 else failures) + 1) linked w3"
    using assms None by (simp add: ctx_err_def Let_def w2_def w3_def split_beta)
  ultimately show thesis
    using back_off_cases [of c "(if delivered then 0 else failures) + 1" linked w3 r]
    by (metis None retry stopped)
qed

lemma receive_step_goes_on:
  assumes "receive_step ou cs c sess delivered w = Again st"
  shows "goes_on (tick w) (consume_world st)"
    and "ctx_state c (w_clock (tick w)) = None \<or>
      (\<exists>s b u. st = Draining s b u \<and> ctx_state c (w_clock u) \<noteq> None)"
    and "\<And>s b u. st = Draining s b u \<Longrightarrow> ctx_state c (w_clock u) \<noteq> None"
proof -
  let ?next = "next_receive (ou_amqp ou) sess"
  have main: "goes_on (tick w) (consume_world st) \<and>
    (ctx_state c (w_clock (tick w)) = None \<or>
      (\<exists>s b u. st = Draining s b u \<and> ctx_state c (w_clock u) \<noteq> None)) \<and>
    (\<forall>s b u. st = Draining s b u \<longrightarrow> ctx_state c (w_clock u) \<noteq> None)"
  proof -
    have cancel: "ctx_state c (w_clock u) \<noteq> None \<Longrightarrow>
        ctx_state c (w_clock (cancelConsumer (ou_amqp ou) sess u)) \<noteq> None" for u
      using ctx_state_mono [OF _ extends_clock [OF cancelConsumer_goes_on]] by blast
    show ?thesis
    proof (cases "ctx_state c (w_clock (tick w))")
      case (Some x)
      then have "st = Draining sess delivered (cancelConsumer (ou_amqp ou) sess (tick w))"
        using assms by (simp add: receive_step_def ctx_err_def)
      with Some cancel [of "tick w"] show ?thesis by (simp add: cancelConsumer_goes_on)
    next
      case None
      then obtain b w2 where s: "select2 (map_option fst ?next) (ctx_done_at c) (tick w) = Some (b, w2)"
        using assms
        by (cases "select2 (map_option fst ?next) (ctx_done_at c) (tick w)")
          (auto simp: receive_step_def ctx_err_def)
      have ex: "goes_on (tick w) w2" using select2_extends [OF s] .
      show ?thesis
      proof (cases b)
        case True
        then obtain d where "st = Receiving (received sess) True
            (handleDelivery ou cs c (received sess) d w2)"
          using assms None s
          by (auto simp: receive_step_def ctx_err_def split: option.splits prod.splits)
        then show ?thesis
          using None extends_trans [OF ex goes_onI [OF handleDelivery_extends]] by simp
      next
        case False
        then obtain t where "ctx_done_at c = Some t" "t \<le> w_clock w2"
          using select2_right [of _ "ctx_done_at c" _ w2] s by auto
        then have "ctx_state c (w_clock w2) \<noteq> None" by (rule ctx_done_state)
        then show ?thesis
          using assms None s False cancel extends_trans [OF ex cancelConsumer_goes_on]
          by (auto simp: receive_step_def ctx_err_def)
      qed
    qed
  qed
  then show "goes_on (tick w) (consume_world st)"
    and "ctx_state c (w_clock (tick w)) = None \<or>
      (\<exists>s b u. st = Draining s b u \<and> ctx_state c (w_clock u) \<noteq> None)"
    and "\<And>s b u. st = Draining s b u \<Longrightarrow> ctx_state c (w_clock u) \<noteq> None" by blast+
qed

end

lemma drain_step_goes_on:
  assumes "drain_step al (sess, w) = Again (sess', w')"
  shows "goes_on w w' \<and> sess' = received sess \<and>
    (\<exists>t d. next_receive al sess = Some (t, Some d) \<and>
      w' = log_failed d (nack al (received sess) (d_tag d) True (tick w)))"
proof -
  obtain t d where n: "next_receive al sess = Some (t, Some d)" "sess' = received sess"
      "w' = log_failed d (nack al (received sess) (d_tag d) True (tick w))"
    using assms by (auto simp: drain_step_def Let_def split: option.splits if_splits)
  moreover have "extends handler_event (tick w) w'"
    unfolding n(3) by (intro log_failed_extends settle_call_extends)
  then have "goes_on w w'"
    using goes_onI extends_trans [OF tick_extends] by blast
  ultimately show ?thesis by blast
qed

section \<open>Returning after a cancellation\<close>

text \<open>Every step takes time, and draining starts only when the context is done.\<close>

definition lively :: "world \<Rightarrow> bool" where
  "lively w \<longleftrightarrow> (\<forall>n. 1 \<le> w_latency w n)"

lemma lively_goes_on: "lively w \<Longrightarrow> goes_on w w' \<Longrightarrow> lively w'"
  by (simp add: lively_def extends_latency)

lemma lively_tick: "lively w \<Longrightarrow> w_clock w < w_clock (tick w)"
  by (simp add: lively_def frame_simps) (metis less_eq_Suc_le of_nat_0_less_iff One_nat_def)

fun stop_inv :: "ctx \<Rightarrow> run_state \<Rightarrow> bool" where
  "stop_inv c (Supervising failures linked w) = lively w"
| "stop_inv c (Consuming failures linked (Receiving sess delivered w)) = lively w"
| "stop_inv c (Consuming failures linked (Draining sess delivered w)) =
     (lively w \<and> ctx_state c (w_clock w) \<noteq> None)"

text \<open>
  A bound on the iterations that are left when the context is done at \<open>T\<close> and no connection
  delivers more than \<open>N\<close> messages.
\<close>

fun stop_size :: "int \<Rightarrow> nat \<Rightarrow> run_state \<Rightarrow> nat" where
  "stop_size T N (Supervising failures linked w) = (N + 3) * nat (T - w_clock w)"
| "stop_size T N (Consuming failures linked (Receiving sess delivered w)) =
     (N + 3) * nat (T - w_clock w) + N + 2"
| "stop_size T N (Consuming failures linked (Draining sess delivered w)) = N + 1 - se_pos sess"

definition delivers_at_most :: "amqp_lib \<Rightarrow> nat \<Rightarrow> bool" where
  "delivers_at_most al N \<longleftrightarrow> (\<forall>n i t d. N \<le> i \<longrightarrow> al_stream al n i \<noteq> Some (t, Some d))"

lemma size_drop:
  assumes "T - u < T - w" and "u < T \<or> w < (T::int)"
  shows "(N + 3) * nat (T - u) + N + 2 < (N + 3) * nat (T - w)"
proof -
  have "nat (T - u) + 1 \<le> nat (T - w)" using assms by linarith
  then have "(N + 3) * (nat (T - u) + 1) \<le> (N + 3) * nat (T - w)" by (rule mult_left_mono) simp
  then show ?thesis by (simp add: algebra_simps)
qed

context consumer_parts begin

lemma after_consume_stop:
  assumes "lively w"
  shows "after_consume ou cs c failures linked (b, e, sess, w) \<noteq> Block"
    and "after_consume ou cs c failures linked (b, e, sess, w) = Return r \<Longrightarrow> fst r = None"
    and "after_consume ou cs c failures linked (b, e, sess, w) = Again t \<Longrightarrow>
      \<exists>f u. t = Supervising f linked u \<and> lively u \<and> w_clock w \<le> w_clock u \<and>
        ctx_state c (w_clock (tick w)) = None"
proof -
  have live: "w_clock w < w_clock (tick w)" "lively (tick w)"
    using assms lively_tick lively_goes_on by auto
  have main: "after_consume ou cs c failures linked (b, e, sess, w) \<noteq> Block \<and>
    (\<forall>r. after_consume ou cs c failures linked (b, e, sess, w) = Return r \<longrightarrow> fst r = None) \<and>
    (\<forall>t. after_consume ou cs c failures linked (b, e, sess, w) = Again t \<longrightarrow>
      (\<exists>f u. t = Supervising f linked u \<and> lively u \<and> w_clock w \<le> w_clock u \<and>
        ctx_state c (w_clock (tick w)) = None))"
  proof (cases rule: after_consume_cases [OF refl, of c failures linked b e sess w])
    case (2 w1 w')
    have "goes_on (tick w) w'" by (rule extends_trans [OF 2(2) 2(4)])
    then have "lively w'" and "w_clock w \<le> w_clock w'"
      using lively_goes_on live extends_clock by fastforce+
    with 2(1,3) show ?thesis by simp
  qed simp
  then show "after_consume ou cs c failures linked (b, e, sess, w) \<noteq> Block"
    and "after_consume ou cs c failures linked (b, e, sess, w) = Return r \<Longrightarrow> fst r = None"
    and "after_consume ou cs c failures linked (b, e, sess, w) = Again t \<Longrightarrow>
      \<exists>f u. t = Supervising f linked u \<and> lively u \<and> w_clock w \<le> w_clock u \<and>
        ctx_state c (w_clock (tick w)) = None" by blast+
qed

lemma receiving_stop:
  fixes failures linked sess delivered w
  defines "s \<equiv> Consuming failures linked (Receiving sess delivered w)"
  assumes live: "lively w" and T: "ctx_done_at c = Some T"
    and N: "delivers_at_most (ou_amqp ou) N"
  shows "run_step ou cs c s \<noteq> Block"
    and "run_step ou cs c s = Again t \<Longrightarrow> stop_inv c t \<and> stop_size T N t < stop_size T N s"
    and "run_step ou cs c s = Return r \<Longrightarrow> fst r = None"
proof -
  have tick: "w_clock w < w_clock (tick w)" "lively (tick w)"
    using live lively_tick lively_goes_on by auto
  show "run_step ou cs c s \<noteq> Block"
  proof (cases rule: receive_step_cases [OF refl, of c sess delivered w])
    case (3 w1)
    then have "lively w1" using lively_goes_on [OF live goes_onI] by blast
    from after_consume_stop(1) [OF this] show ?thesis
      using 3 by (simp add: s_def del: after_consume.simps)
  qed (use T in \<open>simp_all add: s_def del: after_consume.simps\<close>)
  show "fst r = None" if "run_step ou cs c s = Return r"
  proof (cases rule: receive_step_cases [OF refl, of c sess delivered w])
    case (3 w1)
    then have "lively w1" using lively_goes_on [OF live goes_onI] by blast
    from after_consume_stop(2) [OF this] show ?thesis
      using 3 that by (simp add: s_def del: after_consume.simps)
  qed (use that in \<open>simp_all add: s_def del: after_consume.simps\<close>)
  show "stop_inv c t \<and> stop_size T N t < stop_size T N s" if step: "run_step ou cs c s = Again t"
  proof (cases "receive_step ou cs c sess delivered w")
    case (Again st)
    note facts = receive_step_goes_on [OF Again]
    have t: "t = Consuming failures linked st" using step Again by (simp add: s_def)
    have live': "lively (consume_world st)" using lively_goes_on [OF tick(2) facts(1)] .
    show ?thesis
    proof (cases st)
      case (Receiving s' b u)
      then have "ctx_state c (w_clock (tick w)) = None" using facts(2) by auto
      then have "w_clock w < T" using T tick(1) by (simp add: ctx_state_None_iff)
      moreover have "w_clock w < w_clock u"
        using tick(1) extends_clock [OF facts(1)] Receiving by simp
      ultimately show ?thesis
        using size_drop [of T "w_clock u" "w_clock w" N] live' Receiving by (simp add: t s_def)
    next
      case (Draining s' b u)
      then show ?thesis using facts(3) [OF Draining] live' by (simp add: t s_def)
    qed
  next
    case (Return r)
    then obtain b e s' u where r: "r = (b, e, s', u)" by (metis surj_pair)
    have ex: "extends (\<lambda>_. False) w u"
      by (rule receive_step_cases [OF Return]) (auto simp: r)
    then have "lively u" and le: "w_clock w \<le> w_clock u"
      using lively_goes_on [OF live goes_onI] extends_clock by blast+
    from after_consume_stop(3) [OF this(1), of c failures linked b e s' t] obtain f v where
      "t = Supervising f linked v" "lively v" "w_clock u \<le> w_clock v"
      using step Return by (auto simp: s_def r simp del: after_consume.simps)
    moreover from this(3) le have "nat (T - w_clock v) \<le> nat (T - w_clock w)" by simp
    then have "(N + 3) * nat (T - w_clock v) \<le> (N + 3) * nat (T - w_clock w)"
      by (rule mult_left_mono) simp
    then have "(N + 3) * nat (T - w_clock v) < (N + 3) * nat (T - w_clock w) + N + 2" by linarith
    ultimately show ?thesis by (simp only: s_def stop_inv.simps stop_size.simps simp_thms)
  next
    case Block
    then show ?thesis using step by (simp add: s_def)
  qed
qed

lemma draining_stop:
  fixes failures linked sess delivered w
  defines "s \<equiv> Consuming failures linked (Draining sess delivered w)"
  assumes live: "lively w" and cancelled: "ctx_state c (w_clock w) \<noteq> None"
    and N: "delivers_at_most (ou_amqp ou) N"
  shows "run_step ou cs c s \<noteq> Block"
    and "run_step ou cs c s = Again t \<Longrightarrow> stop_inv c t \<and> stop_size T N t < stop_size T N s"
    and "run_step ou cs c s = Return r \<Longrightarrow> fst r = None"
proof -
  have ret: "lively u \<and> ctx_state c (w_clock (tick u)) \<noteq> None"
    if "drain_step (ou_amqp ou) (sess, w) = Return (s', u)" for s' u
  proof -
    have "u = tick w" using that by (auto simp: drain_step_def Let_def split: option.splits if_splits)
    then have g: "goes_on w u" "goes_on w (tick u)"
      using extends_trans [OF tick_extends tick_extends] by auto
    then show ?thesis using lively_goes_on [OF live] ctx_state_mono [OF cancelled] extends_clock by blast
  qed
  have no: "drain_step (ou_amqp ou) (sess, w) \<noteq> Block"
    by (auto simp: drain_step_def Let_def split: option.splits)
  show "run_step ou cs c s \<noteq> Block"
    using no ret after_consume_stop(1)
    by (auto simp: s_def simp del: after_consume.simps split: iter.splits)
  show "fst r = None" if "run_step ou cs c s = Return r"
  proof (cases "drain_step (ou_amqp ou) (sess, w)")
    case (Return a)
    obtain s' u where a: "a = (s', u)" by force
    show ?thesis
      using that Return a ret [of s' u]
        after_consume_stop(2) [of u c failures linked delivered None s' r]
      by (auto simp: s_def simp del: after_consume.simps)
  qed (use that in \<open>auto simp: s_def\<close>)
  show "stop_inv c t \<and> stop_size T N t < stop_size T N s" if step: "run_step ou cs c s = Again t"
  proof (cases "drain_step (ou_amqp ou) (sess, w)")
    case (Again a)
    obtain s' u where a: "a = (s', u)" by force
    note d = drain_step_goes_on [OF Again [unfolded a]]
    then have "se_pos sess < N" using N
      by (metis delivers_at_most_def next_receive_def not_less)
    moreover have "lively u" and "ctx_state c (w_clock u) \<noteq> None"
      using d lively_goes_on [OF live] ctx_state_mono [OF cancelled] extends_clock by blast+
    ultimately show ?thesis using step Again a d by (auto simp: s_def)
  next
    case (Return a)
    obtain s' u where a: "a = (s', u)" by force
    show ?thesis
      using step Return a ret [of s' u] after_consume_stop(3) [of u c failures linked delivered None s' t]
      by (auto simp: s_def simp del: after_consume.simps)
  qed (use step in \<open>simp add: s_def\<close>)
qed

lemma stop_step:
  assumes inv: "stop_inv c s" and T: "ctx_done_at c = Some T"
    and N: "delivers_at_most (ou_amqp ou) N"
  shows "run_step ou cs c s \<noteq> Block"
    and "run_step ou cs c s = Again t \<Longrightarrow> stop_inv c t \<and> stop_size T N t < stop_size T N s"
    and "run_step ou cs c s = Return r \<Longrightarrow> fst r = None"
proof -
  have before: "ctx_state c u = None \<Longrightarrow> u < T" for u using T by (simp add: ctx_state_None_iff)
  have main: "run_step ou cs c s \<noteq> Block \<and>
    (\<forall>t. run_step ou cs c s = Again t \<longrightarrow> stop_inv c t \<and> stop_size T N t < stop_size T N s) \<and>
    (\<forall>r. run_step ou cs c s = Return r \<longrightarrow> fst r = None)"
  proof (cases s)
    case (Supervising failures linked w)
    then have live: "lively w" "w_clock w < w_clock (tick w)" "lively (tick w)"
      using inv lively_tick lively_goes_on by auto
    have sup: "run_step ou cs c s = supervise ou cs c failures linked w" by (simp add: Supervising)
    show ?thesis
    proof (cases rule: supervise_cases [OF refl, of c failures linked w])
      case (1 w')
      then show ?thesis by (simp add: sup)
    next
      case (2 w1 w')
      have g: "goes_on (tick w) w'" by (rule extends_trans [OF 2(2) 2(4)])
      have "w_clock w < w_clock w'" using live(2) extends_clock [OF g] by simp
      moreover have "w_clock w < T" using before [OF 2(1)] live(2) by simp
      ultimately have "stop_size T N (Supervising (failures + 1) linked w') < stop_size T N s"
        using size_drop [of T "w_clock w'" "w_clock w" N] by (simp add: Supervising)
      then show ?thesis using lively_goes_on [OF live(3) g] by (simp add: sup 2(3))
    next
      case (3 sess w')
      have "w_clock w < w_clock w'" using live(2) extends_clock [OF 3(2)] by simp
      moreover have "w_clock w < T" using before [OF 3(1)] live(2) by simp
      ultimately have "stop_size T N (Consuming failures True (Receiving sess False w')) <
          stop_size T N s"
        using size_drop [of T "w_clock w'" "w_clock w" N] by (simp add: Supervising)
      then show ?thesis using lively_goes_on [OF live(3) 3(2)] by (simp add: sup 3(3))
    qed
  next
    case (Consuming failures linked st)
    show ?thesis
    proof (cases st)
      case (Receiving sess delivered w)
      then have "lively w" using inv Consuming by simp
      from receiving_stop [OF this T N, of failures linked sess delivered] show ?thesis
        unfolding Consuming Receiving by blast
    next
      case (Draining sess delivered w)
      then have "lively w" "ctx_state c (w_clock w) \<noteq> None" using inv Consuming by simp_all
      from draining_stop [OF this N, of failures linked sess delivered] show ?thesis
        unfolding Consuming Draining by blast
    qed
  qed
  then show "run_step ou cs c s \<noteq> Block"
    and "run_step ou cs c s = Again t \<Longrightarrow> stop_inv c t \<and> stop_size T N t < stop_size T N s"
    and "run_step ou cs c s = Return r \<Longrightarrow> fst r = None" by blast+
qed

end

sublocale consumer_parts \<subseteq> stopping:
  terminating_loop "run_step ou cs c"
    "\<lambda>s. stop_inv c s \<and> ctx_done_at c = Some T \<and> delivers_at_most (ou_amqp ou) N"
    "\<lambda>r. fst r = None" "stop_size T N" for c T N
  by unfold_locales (use stop_step in \<open>auto simp del: run_step.simps stop_inv.simps\<close>)

text \<open>Only a context that is done ends \<open>Run\<close>.\<close>

sublocale consumer_parts \<subseteq> ending:
  loop_invariant "run_step ou cs c" "\<lambda>s. True"
    "\<lambda>r. fst r = None \<and> ctx_state c (w_clock (snd r)) \<noteq> None" for c
proof unfold_locales
  fix s r
  assume step: "run_step ou cs c s = Return r"
  have after: "fst r = None \<and> ctx_state c (w_clock (snd r)) \<noteq> None"
    if "after_consume ou cs c f l (b, e, sess, w) = Return r" for f l b e sess w
    by (cases rule: after_consume_cases [OF that]) auto
  show "fst r = None \<and> ctx_state c (w_clock (snd r)) \<noteq> None"
  proof (cases s)
    case (Supervising failures linked w)
    with step have "supervise ou cs c failures linked w = Return r" by simp
    then show ?thesis by (cases rule: supervise_cases) auto
  next
    case (Consuming failures linked st)
    then obtain b e sess w where "after_consume ou cs c failures linked (b, e, sess, w) = Return r"
      using step by (auto split: iter.splits simp del: after_consume.simps)
    then show ?thesis by (rule after)
  qed
qed simp

section \<open>What is still done after a cancellation\<close>

text \<open>Log lines, cancelling the consumer, giving deliveries back, and closing.\<close>

fun closing_event :: "event \<Rightarrow> bool" where
  "closing_event (Ev_log l m as) = True"
| "closing_event (Ev_amqp n (Cancel t b)) = True"
| "closing_event (Ev_amqp n (Nack t b r)) = (\<not> b \<and> r)"
| "closing_event (Ev_ch_close n) = True"
| "closing_event (Ev_conn_close n) = True"
| "closing_event e = False"

definition closing :: "ctx \<Rightarrow> world \<Rightarrow> world \<Rightarrow> bool" where
  "closing c w0 w \<longleftrightarrow> ctx_state c (w_clock w) \<noteq> None \<and> extends closing_event w0 w"

lemma closing_next: "closing c w0 w \<Longrightarrow> extends closing_event w w' \<Longrightarrow> closing c w0 w'"
  unfolding closing_def by (meson ctx_state_mono extends_clock extends_trans)

lemma closing_tick: "closing c w0 w \<Longrightarrow> ctx_state c (w_clock (tick w)) \<noteq> None"
  using closing_next [of c w0 w "tick w"] by (simp add: closing_def)

lemma cancelConsumer_closing: "extends closing_event w (cancelConsumer al sess w)"
  by (auto simp: cancelConsumer_def intro: amqp_call_extends)

lemma requeue_closing: "extends closing_event w (log_failed d (nack al sess t True w))"
proof -
  have "extends closing_event w (snd (nack al sess t True w))"
    by (auto simp: nack_def intro: amqp_call_extends)
  then show ?thesis
    by (auto simp: log_failed_def logSettlementFailed_def split: prod.splits option.splits
        elim: extends_trans)
qed

lemma session_close_closing: "extends closing_event w (snd (snd (session_close al sess w)))"
  using extends_trans [OF ch_Close_extends [of closing_event] conn_Close_extends [of closing_event]]
  by (simp add: session_close_def Let_def split_beta)

context consumer_parts begin

lemma run_step_closing:
  assumes "closing c w0 (run_world s)"
  shows "run_step ou cs c s = Again t \<Longrightarrow> closing c w0 (run_world t)"
    and "run_step ou cs c s = Return r \<Longrightarrow> closing c w0 (snd r)"
proof -
  note tk = closing_tick [OF assms]
  have ret: "closing c w0 (snd r)" if "shutting_down m u = Return r" "closing c w0 u" for m u r
    using that closing_next by (fastforce simp: shutting_down_def)
  have tick: "closing c w0 (tick u)" if "closing c w0 u" for u
    by (rule closing_next [OF that]) simp
  have after: "\<exists>x. after_consume ou cs c f l (b, e, sess, u) = Return x \<and> closing c w0 (snd x)"
    if "closing c w0 u" for f l b e sess u
  proof -
    have "closing c w0 (snd (snd (session_close (ou_amqp ou) sess (tick u))))"
      by (rule closing_next [OF tick [OF that] session_close_closing])
    then show ?thesis
      using closing_tick [OF that] closing_next
      by (fastforce simp: ctx_err_def Let_def shutting_down_def split_beta)
  qed
  have main: "(\<forall>t. run_step ou cs c s = Again t \<longrightarrow> closing c w0 (run_world t)) \<and>
      (\<forall>r. run_step ou cs c s = Return r \<longrightarrow> closing c w0 (snd r))"
  proof (cases s)
    case (Supervising failures linked w)
    then show ?thesis
      using tk ret [OF _ tick] assms by (auto simp: supervise_def ctx_err_def shutting_down_released(2))
  next
    case (Consuming failures linked st)
    show ?thesis
    proof (cases st)
      case (Receiving sess delivered w)
      then have "run_step ou cs c s =
          Again (Consuming failures linked
            (Draining sess delivered (cancelConsumer (ou_amqp ou) sess (tick w))))"
        using tk Consuming by (auto simp: receive_step_def ctx_err_def)
      then show ?thesis
        using closing_next [OF tick cancelConsumer_closing] assms Consuming Receiving by simp
    next
      case (Draining sess delivered w)
      then have w: "closing c w0 w" using assms Consuming by simp
      show ?thesis
      proof (cases "drain_step (ou_amqp ou) (sess, w)")
        case (Again a)
        obtain s' u where a: "a = (s', u)" by force
        from drain_step_goes_on [OF Again [unfolded a]] have "closing c w0 u"
          using closing_next [OF tick [OF w] requeue_closing] by blast
        then show ?thesis using Again a Consuming Draining by simp
      next
        case (Return a)
        obtain s' u where a: "a = (s', u)" by force
        have "u = tick w"
          using Return a by (auto simp: drain_step_def Let_def split: option.splits if_splits)
        then show ?thesis
          using after [OF tick [OF w], of failures linked delivered None s'] Return a Consuming Draining
          by (auto simp del: after_consume.simps)
      qed (simp add: Consuming Draining)
    qed
  qed
  then show "run_step ou cs c s = Again t \<Longrightarrow> closing c w0 (run_world t)"
    and "run_step ou cs c s = Return r \<Longrightarrow> closing c w0 (snd r)" by blast+
qed

end

sublocale consumer_parts \<subseteq> closing:
  loop_invariant "run_step ou cs c" "\<lambda>s. closing c w0 (run_world s)" "\<lambda>r. closing c w0 (snd r)"
  for c w0
  by unfold_locales (use run_step_closing in blast)+

end
