(* ===== verification/Probe.thy ===== *)
theory Probe
  imports Session
begin

text \<open>
  \<open>internal/rabbitmq/probe.go\<close>: the readiness probe. \<open>Check\<close> runs its attempt in a goroutine and
  waits for it against a deadline. The two threads and the expiry of the deadline are the steps of
  \<open>check_step\<close>, in any order; a broker that stops answering is a goroutine that takes no more
  steps. \<open>Check\<close> itself follows one order of steps, which is a parameter (\<open>sched\<close>). The caller's
  \<open>conn.Close()\<close> after a time-out is one step: it is taken to return.
\<close>

section \<open>Types and construction\<close>

definition probeAttemptTimeout :: int where
  "probeAttemptTimeout = 5 * second"

definition probeHealthyEvery :: int where
  "probeHealthyEvery = 60 * second"

record probe =
  pr_cfg :: rabbitmq_config
  pr_attemptTimeout :: int
  pr_retryInitial :: int
  pr_retryMax :: int
  pr_healthyEvery :: int
  pr_sleep :: sleep_func

text \<open>
  The constructor with the production dialer and timer. What dialing and opening a channel come to
  is part of the order of steps, so the dialer is no field here.
\<close>

definition newProbe :: "rabbitmq_config \<Rightarrow> probe" where
  "newProbe cfg = \<lparr>pr_cfg = cfg, pr_attemptTimeout = probeAttemptTimeout,
     pr_retryInitial = backoffInitial, pr_retryMax = backoffMax,
     pr_healthyEvery = probeHealthyEvery, pr_sleep = sleepContext\<rparr>"

definition probe_topologyAttrs :: "probe \<Rightarrow> attr list" where
  "probe_topologyAttrs p =
     [At ''broker'' (A_str (RedactedAMQPURL (rq_URL (pr_cfg p)))),
      At ''exchange'' (A_str (rq_InputExchange (pr_cfg p))),
      At ''exchange_type'' (A_str (rq_InputExchangeType (pr_cfg p))),
      At ''routing_key'' (A_str (rq_InputRoutingKey (pr_cfg p))),
      At ''queue'' (A_str (rq_Queue (pr_cfg p)))]"

section \<open>One attempt\<close>

text \<open>
  Where the goroutine is: before a call, or before sending on one of the two channels. The argument
  is what it is about to send or to return.
\<close>

datatype go_pc =
    G_dial
  | G_send_dialed "go_error option"
  | G_channel
  | G_exchange
  | G_queue
  | G_close_channel "go_error option"
  | G_close_conn "go_error option"
  | G_send_done "go_error option"
  | G_end

datatype main_pc = M_await_dial | M_await_topology | M_returned "go_error option"

text \<open>
  The channels \<open>dialed\<close> and \<open>done\<close> have room for one value. The events are those of the
  attempt's one connection.
\<close>

record check_state =
  ck_main :: main_pc
  ck_go :: go_pc
  ck_dialed :: "go_error option option"
  ck_done :: "go_error option option"
  ck_expired :: "ctx_error option"
  ck_events :: "event list"

definition check_init :: "ctx_error option \<Rightarrow> check_state" where
  "check_init expired = \<lparr>ck_main = M_await_dial, ck_go = G_dial, ck_dialed = None, ck_done = None,
     ck_expired = expired, ck_events = []\<rparr>"

definition exchange_passive :: "probe \<Rightarrow> amqp_op" where
  "exchange_passive p = Exchange_Declare_Passive (rq_InputExchange (pr_cfg p))
     (rq_InputExchangeType (pr_cfg p)) True False False False"

definition queue_passive :: "probe \<Rightarrow> amqp_op" where
  "queue_passive p = Queue_Declare_Passive (rq_Queue (pr_cfg p)) True False False False"

text \<open>
  The adapters around the client library. \<open>passive\<close> says whether the library's channel has the passive
  declarations, as that of the production dialer has.
\<close>

definition dialProbeAMQP :: "amqp_lib \<Rightarrow> dial_func" where
  "dialProbeAMQP al c rawURL timeout w =
     (case dialAMQP al c rawURL timeout w of
        (Inl err, w1) \<Rightarrow> (Inl err, w1)
      | (Inr conn, w1) \<Rightarrow> (Inr conn, w1))"

definition probeConn_Channel :: "bool \<Rightarrow> amqp_lib \<Rightarrow> nat \<Rightarrow> world \<Rightarrow> go_error option \<times> world" where
  "probeConn_Channel passive al n w =
     (case conn_Channel al n w of
        (Some err, w1) \<Rightarrow> (Some err, w1)
      | (None, w1) \<Rightarrow>
          if passive then (None, w1)
          else (Some (Err_new ''rabbitmq probe: channel does not support passive declarations''),
            snd (ch_Close al n w1)))"

text \<open>
  \<open>checkTopology\<close> on its own: its deferred calls close the channel, then the connection. (\<open>Check\<close> uses
  the steps below, which do the same.)
\<close>

definition checkTopology :: "probe \<Rightarrow> amqp_lib \<Rightarrow> nat \<Rightarrow> world \<Rightarrow> go_error option \<times> world" where
  "checkTopology p al n w =
     (case probeConn_Channel True al n w of
        (Some err, w1) \<Rightarrow>
          (Some (Err_wrap ''open probe channel: %w'' [] err), snd (conn_Close al n w1))
      | (None, w1) \<Rightarrow>
          (let (r, w2) =
             (case amqp_call al n (exchange_passive p) w1 of
                (Some err, w2) \<Rightarrow> (Some (Err_wrap ''exchange %q is unavailable: %w''
                  [A_str (rq_InputExchange (pr_cfg p))] err), w2)
              | (None, w2) \<Rightarrow>
                  (case amqp_call al n (queue_passive p) w2 of
                     (Some err, w3) \<Rightarrow> (Some (Err_wrap ''queue %q is unavailable: %w''
                       [A_str (rq_Queue (pr_cfg p))] err), w3)
                   | (None, w3) \<Rightarrow> (None, w3)))
           in (r, snd (conn_Close al n (snd (ch_Close al n w2))))))"

text \<open>
  The goroutine: its pending call returns \<open>r\<close>, or its pending send happens. The calls from
  \<open>G_channel\<close> on are \<open>checkTopology\<close>, whose deferred calls close the channel, then the connection.
\<close>

definition goroutine_step ::
    "probe \<Rightarrow> nat \<Rightarrow> go_error option \<Rightarrow> check_state \<Rightarrow> check_state option" where
  "goroutine_step p n r s =
     (let go = (\<lambda>pc es. Some (s\<lparr>ck_go := pc, ck_events := ck_events s @ es\<rparr>)) in
      case ck_go s of
        G_dial \<Rightarrow> go (G_send_dialed r) (if r = None then [Ev_dial n] else [])
      | G_send_dialed e \<Rightarrow>
          if ck_dialed s \<noteq> None then None
          else Some (s\<lparr>ck_dialed := Some e,
            ck_go := (case e of None \<Rightarrow> G_channel
              | Some x \<Rightarrow> G_send_done (Some (Err_wrap ''dial rabbitmq: %w'' [] x)))\<rparr>)
      | G_channel \<Rightarrow>
          (case r of
             Some e \<Rightarrow> go (G_send_done (Some (Err_wrap ''open probe channel: %w'' [] e)))
               [Ev_conn_close n]
           | None \<Rightarrow> go G_exchange [Ev_channel n])
      | G_exchange \<Rightarrow>
          (case r of
             Some e \<Rightarrow> go (G_close_channel (Some (Err_wrap ''exchange %q is unavailable: %w''
               [A_str (rq_InputExchange (pr_cfg p))] e))) [Ev_amqp n (exchange_passive p)]
           | None \<Rightarrow> go G_queue [Ev_amqp n (exchange_passive p)])
      | G_queue \<Rightarrow>
          (case r of
             Some e \<Rightarrow> go (G_close_channel (Some (Err_wrap ''queue %q is unavailable: %w''
               [A_str (rq_Queue (pr_cfg p))] e))) [Ev_amqp n (queue_passive p)]
           | None \<Rightarrow> go (G_close_channel None) [Ev_amqp n (queue_passive p)])
      | G_close_channel e \<Rightarrow> go (G_close_conn e) [Ev_ch_close n]
      | G_close_conn e \<Rightarrow> go (G_send_done e) [Ev_conn_close n]
      | G_send_done e \<Rightarrow>
          if ck_done s \<noteq> None then None else Some (s\<lparr>ck_done := Some e, ck_go := G_end\<rparr>)
      | G_end \<Rightarrow> None)"

text \<open>
  The caller: a \<open>select\<close> between a result and the end of the attempt's context. When both are ready
  \<open>b\<close> says which it takes.
\<close>

definition main_step :: "probe \<Rightarrow> nat \<Rightarrow> bool \<Rightarrow> check_state \<Rightarrow> check_state option" where
  "main_step p n b s =
     (case ck_main s of
        M_await_dial \<Rightarrow>
          (case (ck_dialed s, ck_expired s) of
             (None, None) \<Rightarrow> None
           | (d, x) \<Rightarrow>
               if d \<noteq> None \<and> (x = None \<or> b) then
                 Some (s\<lparr>ck_dialed := None,
                   ck_main := (case the d of
                     None \<Rightarrow> M_await_topology
                   | Some e \<Rightarrow> M_returned (Some (Err_wrap ''dial rabbitmq: %w'' [] e)))\<rparr>)
               else
                 Some (s\<lparr>ck_main := M_returned (Some (Err_wrap
                   ''rabbitmq probe attempt aborted after %v: %w'' [A_dur (pr_attemptTimeout p)]
                   (Err_ctx (the x))))\<rparr>))
      | M_await_topology \<Rightarrow>
          (case (ck_done s, ck_expired s) of
             (None, None) \<Rightarrow> None
           | (d, x) \<Rightarrow>
               if d \<noteq> None \<and> (x = None \<or> b) then
                 Some (s\<lparr>ck_done := None, ck_main := M_returned (the d)\<rparr>)
               else
                 Some (s\<lparr>ck_events := ck_events s @ [Ev_conn_close n],
                   ck_main := M_returned (Some (Err_wrap
                     ''rabbitmq probe attempt timed out after %v: %w'' [A_dur (pr_attemptTimeout p)]
                     (Err_ctx (the x))))\<rparr>))
      | M_returned r \<Rightarrow> None)"

inductive check_step :: "probe \<Rightarrow> nat \<Rightarrow> check_state \<Rightarrow> check_state \<Rightarrow> bool" for p n where
  goroutine: "goroutine_step p n r s = Some t \<Longrightarrow> check_step p n s t"
| caller: "main_step p n b s = Some t \<Longrightarrow> check_step p n s t"
| expiry: "ck_expired s = None \<Longrightarrow> check_step p n s (s\<lparr>ck_expired := Some e\<rparr>)"

inductive_cases check_stepE: "check_step p n s t"

inductive check_reaches :: "probe \<Rightarrow> nat \<Rightarrow> check_state \<Rightarrow> bool" for p n where
  init: "check_reaches p n (check_init x)"
| step: "check_reaches p n s \<Longrightarrow> check_step p n s t \<Longrightarrow> check_reaches p n t"

section \<open>Check\<close>

text \<open>
  A step of an order: a step that is not possible is skipped. At the end of the order the deadline
  expires, so \<open>Check\<close> always returns; what the goroutine does later is no longer part of it.
\<close>

datatype check_label = L_go "go_error option" | L_main bool | L_expire ctx_error

definition apply_label :: "probe \<Rightarrow> nat \<Rightarrow> check_label \<Rightarrow> check_state \<Rightarrow> check_state" where
  "apply_label p n l s =
     (case (case l of
              L_go r \<Rightarrow> goroutine_step p n r s
            | L_main b \<Rightarrow> main_step p n b s
            | L_expire e \<Rightarrow> if ck_expired s = None then Some (s\<lparr>ck_expired := Some e\<rparr>) else None) of
        None \<Rightarrow> s | Some t \<Rightarrow> t)"

fun check_run :: "probe \<Rightarrow> nat \<Rightarrow> check_label list \<Rightarrow> check_state \<Rightarrow> check_state" where
  "check_run p n [] s =
     (case ck_main s of
        M_returned r \<Rightarrow> s
      | _ \<Rightarrow> apply_label p n (L_main False) (apply_label p n (L_expire DeadlineExceeded) s))"
| "check_run p n (l # ls) s =
     (case ck_main s of M_returned r \<Rightarrow> s | _ \<Rightarrow> check_run p n ls (apply_label p n l s))"

type_synonym check_sched = "nat \<Rightarrow> check_label list"

definition Check :: "probe \<Rightarrow> check_sched \<Rightarrow> ctx \<Rightarrow> world \<Rightarrow> go_error option \<times> world" where
  "Check p sched c w =
     (let attemptCtx = with_timeout c (pr_attemptTimeout p) w;
          s = check_run p (w_steps w) (sched (w_steps w))
                (check_init (ctx_state attemptCtx (w_clock w)))
      in (case ck_main s of M_returned r \<Rightarrow> r | _ \<Rightarrow> None,
          tick (w\<lparr>w_trace := w_trace w @ ck_events s\<rparr>)))"

section \<open>Run\<close>

record probe_state =
  ps_ready :: bool
  ps_lost :: bool
  ps_attempts :: nat
  ps_retryDelay :: int
  ps_world :: world

definition next_retry :: "probe \<Rightarrow> int \<Rightarrow> int" where
  "next_retry p d = min (wrap64 (d * 2)) (pr_retryMax p)"

definition check_failed ::
    "probe \<Rightarrow> ctx \<Rightarrow> go_error \<Rightarrow> probe_state \<Rightarrow> (probe_state, world) iter" where
  "check_failed p c err s =
     (let delay = ps_retryDelay s;
          s1 = (if \<not> ps_ready s then
              (let attempts = ps_attempts s + 1;
                   level = (if attempts = 1 \<or> attempts mod 10 = 0 then L_Warn else L_Debug)
               in s\<lparr>ps_attempts := attempts,
                    ps_world := log_at level ''rabbitmq connectivity probe failed''
                      (probe_topologyAttrs p @ [At ''attempt'' (A_int (int attempts)),
                         At ''retry_in'' (A_dur delay), At_err err]) (ps_world s)\<rparr>)
            else if \<not> ps_lost s then
              s\<lparr>ps_lost := True,
                ps_world := log_at L_Warn ''rabbitmq connectivity lost''
                  (probe_topologyAttrs p @ [At_err err]) (ps_world s)\<rparr>
            else
              s\<lparr>ps_world := log_at L_Debug ''rabbitmq connectivity probe failed''
                  (probe_topologyAttrs p @ [At_err err]) (ps_world s)\<rparr>)
      in case pr_sleep p c delay (ps_world s1) of
           (Some _, w) \<Rightarrow> Return w
         | (None, w) \<Rightarrow> Again (s1\<lparr>ps_retryDelay := next_retry p delay, ps_world := w\<rparr>))"

definition check_succeeded ::
    "probe \<Rightarrow> (world \<Rightarrow> world) option \<Rightarrow> ctx \<Rightarrow> probe_state \<Rightarrow> (probe_state, world) iter" where
  "check_succeeded p onReady c s =
     (let s1 = (if \<not> ps_ready s then
              (let w = log_at L_Info ''rabbitmq connectivity verified'' (probe_topologyAttrs p)
                     (ps_world s)
               in s\<lparr>ps_ready := True,
                    ps_world := (case onReady of None \<Rightarrow> w | Some f \<Rightarrow> f w)\<rparr>)
            else if ps_lost s then
              s\<lparr>ps_lost := False,
                ps_world := log_at L_Info ''rabbitmq connectivity restored'' (probe_topologyAttrs p)
                  (ps_world s)\<rparr>
            else s)
      in case pr_sleep p c (pr_healthyEvery p) (ps_world s1) of
           (Some _, w) \<Rightarrow> Return w
         | (None, w) \<Rightarrow> Again (s1\<lparr>ps_retryDelay := pr_retryInitial p, ps_world := w\<rparr>))"

definition probe_step ::
    "probe \<Rightarrow> check_sched \<Rightarrow> (world \<Rightarrow> world) option \<Rightarrow> ctx \<Rightarrow> probe_state \<Rightarrow>
     (probe_state, world) iter" where
  "probe_step p sched onReady c s =
     (let (stopped, w1) = ctx_err c (ps_world s) in
      if stopped \<noteq> None then Return w1
      else
        (let (r, w2) = Check p sched c w1; s2 = s\<lparr>ps_world := w2\<rparr> in
         case r of
           Some err \<Rightarrow> check_failed p c err s2
         | None \<Rightarrow> check_succeeded p onReady c s2))"

definition probe_start :: "probe \<Rightarrow> world \<Rightarrow> probe_state" where
  "probe_start p w = \<lparr>ps_ready = False, ps_lost = False, ps_attempts = 0,
     ps_retryDelay = pr_retryInitial p, ps_world = w\<rparr>"

definition Probe_Run ::
    "probe \<Rightarrow> check_sched \<Rightarrow> (world \<Rightarrow> world) option \<Rightarrow> ctx \<Rightarrow> nat \<Rightarrow> world \<Rightarrow>
     (probe_state, world) iter" where
  "Probe_Run p sched onReady c n w = drive (probe_step p sched onReady c) n (probe_start p w)"

end
