(* ===== verification/Probe_Facts.thy ===== *)
theory Probe_Facts
  imports Probe Backoff Consumer_Run
begin

text \<open>
  Invariants of the probe: what one attempt does in every order of its two threads, and the
  supervisor's readiness and delays.
\<close>

section \<open>One attempt\<close>

definition attempt_ops :: "probe \<Rightarrow> nat \<Rightarrow> event list" where
  "attempt_ops p n = [Ev_dial n, Ev_channel n, Ev_amqp n (exchange_passive p),
     Ev_amqp n (queue_passive p), Ev_ch_close n, Ev_conn_close n]"

definition probe_event :: "probe \<Rightarrow> nat \<Rightarrow> event \<Rightarrow> bool" where
  "probe_event p n e \<longleftrightarrow> e \<in> set (attempt_ops p n)"

lemma goroutine_step_events:
  assumes "goroutine_step p n r s = Some t"
  shows "\<exists>es. ck_events t = ck_events s @ es \<and> list_all (probe_event p n) es \<and>
    ck_main t = ck_main s \<and> ck_expired t = ck_expired s"
  using assms
  by (auto simp: goroutine_step_def Let_def probe_event_def attempt_ops_def
      split: go_pc.splits option.splits if_splits)

lemma main_step_events:
  assumes "main_step p n b s = Some t"
  shows "\<exists>es. ck_events t = ck_events s @ es \<and> list_all (probe_event p n) es \<and>
    ck_go t = ck_go s \<and> ck_expired t = ck_expired s"
  using assms
  by (auto simp: main_step_def Let_def probe_event_def attempt_ops_def
      split: main_pc.splits option.splits if_splits)

lemma check_step_events:
  assumes "check_step p n s t"
  shows "\<exists>es. ck_events t = ck_events s @ es \<and> list_all (probe_event p n) es"
  using assms goroutine_step_events main_step_events by (cases rule: check_step.cases) (fastforce+)

lemma check_reaches_events: "check_reaches p n s \<Longrightarrow> list_all (probe_event p n) (ck_events s)"
proof (induction rule: check_reaches.induct)
  case (init x)
  then show ?case by (simp add: check_init_def)
next
  case (step s t)
  then show ?case using check_step_events by fastforce
qed

text \<open>The events of a goroutine that is at \<open>pc\<close> while the caller still waits.\<close>

fun path :: "probe \<Rightarrow> nat \<Rightarrow> go_pc \<Rightarrow> event list \<Rightarrow> bool" where
  "path p n G_dial es = (es = [])"
| "path p n (G_send_dialed e) es = (es = (if e = None then [Ev_dial n] else []))"
| "path p n G_channel es = (es = [Ev_dial n])"
| "path p n G_exchange es = (es = [Ev_dial n, Ev_channel n])"
| "path p n G_queue es = (es = [Ev_dial n, Ev_channel n, Ev_amqp n (exchange_passive p)])"
| "path p n (G_close_channel e) es =
     (es = take 4 (attempt_ops p n) \<or> e \<noteq> None \<and> es = take 3 (attempt_ops p n))"
| "path p n (G_close_conn e) es =
     (es = take 4 (attempt_ops p n) @ [Ev_ch_close n] \<or>
      e \<noteq> None \<and> es = take 3 (attempt_ops p n) @ [Ev_ch_close n])"
| "path p n (G_send_done e) es = (e = None \<longrightarrow> es = attempt_ops p n)"
| "path p n G_end es = True"

definition check_inv :: "probe \<Rightarrow> nat \<Rightarrow> check_state \<Rightarrow> bool" where
  "check_inv p n s \<longleftrightarrow>
     ((\<forall>e. ck_main s \<noteq> M_returned (Some e)) \<longrightarrow>
        path p n (ck_go s) (ck_events s) \<and> (ck_done s = Some None \<longrightarrow> ck_events s = attempt_ops p n)) \<and>
     (ck_main s = M_returned None \<longrightarrow> ck_events s = attempt_ops p n) \<and>
     (ck_done s \<noteq> None \<or> ck_main s = M_returned None \<longrightarrow> ck_go s = G_end)"

lemma attempt_ops_take:
  "take 4 (attempt_ops p n) = [Ev_dial n, Ev_channel n, Ev_amqp n (exchange_passive p),
     Ev_amqp n (queue_passive p)]"
  "take 3 (attempt_ops p n) = [Ev_dial n, Ev_channel n, Ev_amqp n (exchange_passive p)]"
  by (simp_all add: attempt_ops_def)

lemma goroutine_step_inv:
  assumes "check_inv p n s" and "goroutine_step p n r s = Some t"
  shows "check_inv p n t"
proof (cases "ck_go s")
  case (G_close_channel e)
  then show ?thesis
    using assms by (auto simp: goroutine_step_def check_inv_def)
next
  case (G_close_conn e)
  then show ?thesis
    using assms by (auto simp: goroutine_step_def check_inv_def attempt_ops_take attempt_ops_def)
next
  case (G_send_done e)
  then show ?thesis
    using assms by (auto simp: goroutine_step_def check_inv_def split: if_splits)
next
  case G_queue
  then show ?thesis
    using assms by (auto simp: goroutine_step_def check_inv_def attempt_ops_take split: option.splits)
next
  case G_exchange
  then show ?thesis
    using assms by (auto simp: goroutine_step_def check_inv_def attempt_ops_take split: option.splits)
next
  case (G_send_dialed e)
  then show ?thesis
    using assms by (auto simp: goroutine_step_def check_inv_def split: option.splits if_splits)
qed (use assms in \<open>auto simp: goroutine_step_def check_inv_def split: option.splits if_splits\<close>)

text \<open>The error of a caller that gave up before it had the connection.\<close>

definition aborted :: "probe \<Rightarrow> ctx_error \<Rightarrow> go_error" where
  "aborted p x = Err_wrap ''rabbitmq probe attempt aborted after %v: %w''
     [A_dur (pr_attemptTimeout p)] (Err_ctx x)"

text \<open>The error of a caller that closed the connection because the attempt took too long.\<close>

definition timed_out :: "probe \<Rightarrow> ctx_error \<Rightarrow> go_error" where
  "timed_out p x = Err_wrap ''rabbitmq probe attempt timed out after %v: %w''
     [A_dur (pr_attemptTimeout p)] (Err_ctx x)"

lemma main_step_cases:
  assumes "main_step p n b s = Some t"
  obtains (dialed) "ck_main s = M_await_dial" "ck_dialed s = Some None"
      "t = s\<lparr>ck_dialed := None, ck_main := M_await_topology\<rparr>"
  | (dial_failed) e where "ck_main s = M_await_dial" "ck_dialed s = Some (Some e)"
      "t = s\<lparr>ck_dialed := None,
         ck_main := M_returned (Some (Err_wrap ''dial rabbitmq: %w'' [] e))\<rparr>"
  | (gave_up) x where "ck_main s = M_await_dial" "ck_expired s = Some x"
      "t = s\<lparr>ck_main := M_returned (Some (aborted p x))\<rparr>"
  | (checked) r where "ck_main s = M_await_topology" "ck_done s = Some r"
      "t = s\<lparr>ck_done := None, ck_main := M_returned r\<rparr>"
  | (too_late) x where "ck_main s = M_await_topology" "ck_expired s = Some x"
      "t = s\<lparr>ck_events := ck_events s @ [Ev_conn_close n],
         ck_main := M_returned (Some (timed_out p x))\<rparr>"
proof (cases "ck_main s")
  case M_await_dial
  then show thesis
    using assms dialed dial_failed gave_up
    by (cases "ck_dialed s"; cases "ck_expired s")
      (auto simp: main_step_def aborted_def split: option.splits if_splits)
next
  case M_await_topology
  then show thesis
    using assms checked too_late
    by (cases "ck_done s"; cases "ck_expired s")
      (auto simp: main_step_def timed_out_def split: option.splits if_splits)
qed (use assms in \<open>simp add: main_step_def\<close>)

lemma main_step_inv:
  assumes "check_inv p n s" and "main_step p n b s = Some t"
  shows "check_inv p n t"
  using assms(2,1) by (cases rule: main_step_cases) (auto simp: check_inv_def)

lemma check_reaches_inv: "check_reaches p n s \<Longrightarrow> check_inv p n s"
proof (induction rule: check_reaches.induct)
  case (init x)
  then show ?case by (simp add: check_init_def check_inv_def)
next
  case (step s t)
  from step(2,3) show ?case
  proof (cases rule: check_step.cases)
    case (expiry e)
    with step(3) show ?thesis by (simp add: check_inv_def)
  qed (use step(3) goroutine_step_inv main_step_inv in blast)+
qed

fun finished :: "go_pc \<Rightarrow> bool" where
  "finished (G_send_done e) = True"
| "finished G_end = True"
| "finished pc = False"

definition settled_conn :: "nat \<Rightarrow> check_state \<Rightarrow> bool" where
  "settled_conn n s \<longleftrightarrow> Ev_conn_close n \<in> set (ck_events s) \<or>
     Ev_dial n \<notin> set (ck_events s) \<and> finished (ck_go s)"

text \<open>
  A goroutine that is through has closed what it opened, and a caller that has returned leaves a
  connection to the goroutine only when it gave up before it was told of it.
\<close>

definition leak_inv :: "probe \<Rightarrow> nat \<Rightarrow> check_state \<Rightarrow> bool" where
  "leak_inv p n s \<longleftrightarrow>
     (finished (ck_go s) \<longrightarrow> settled_conn n s) \<and>
     (ck_go s = G_dial \<or> (\<exists>e. ck_go s = G_send_dialed (Some e)) \<longrightarrow>
        Ev_dial n \<notin> set (ck_events s)) \<and>
     ((\<exists>e. ck_dialed s = Some (Some e)) \<longrightarrow> settled_conn n s) \<and>
     (ck_done s \<noteq> None \<longrightarrow> finished (ck_go s)) \<and>
     (\<forall>r. ck_main s = M_returned r \<longrightarrow> (\<exists>x. r = Some (aborted p x)) \<or> settled_conn n s)"

lemma goroutine_step_leak:
  assumes "leak_inv p n s" and "goroutine_step p n r s = Some t"
  shows "leak_inv p n t"
proof (cases "ck_go s")
  case (G_send_dialed e)
  then show ?thesis
    using assms by (cases e) (auto simp: goroutine_step_def leak_inv_def settled_conn_def
        split: if_splits)
qed (use assms in \<open>auto simp: goroutine_step_def leak_inv_def settled_conn_def
  split: option.splits if_splits\<close>)

lemma main_step_leak:
  assumes "leak_inv p n s" and "main_step p n b s = Some t"
  shows "leak_inv p n t"
  using assms(2,1) by (cases rule: main_step_cases) (auto simp: leak_inv_def settled_conn_def)

lemma check_reaches_leak: "check_reaches p n s \<Longrightarrow> leak_inv p n s"
proof (induction rule: check_reaches.induct)
  case (init x)
  then show ?case by (simp add: check_init_def leak_inv_def)
next
  case (step s t)
  from step(2,3) show ?case
  proof (cases rule: check_step.cases)
    case (expiry e)
    with step(3) show ?thesis by (simp add: leak_inv_def settled_conn_def)
  qed (use step(3) goroutine_step_leak main_step_leak in blast)+
qed

section \<open>Check follows the steps\<close>

lemma apply_label_step: "apply_label p n l s = s \<or> check_step p n s (apply_label p n l s)"
proof (cases l)
  case (L_go r)
  then show ?thesis
    by (cases "goroutine_step p n r s") (simp_all add: apply_label_def check_step.goroutine)
next
  case (L_main b)
  then show ?thesis
    by (cases "main_step p n b s") (simp_all add: apply_label_def check_step.caller)
next
  case (L_expire e)
  then show ?thesis
    by (cases "ck_expired s = None") (simp_all add: apply_label_def check_step.expiry)
qed

lemma apply_label_reaches: "check_reaches p n s \<Longrightarrow> check_reaches p n (apply_label p n l s)"
  using apply_label_step check_reaches.step by metis

lemma check_run_reaches: "check_reaches p n s \<Longrightarrow> check_reaches p n (check_run p n ls s)"
  by (induction ls arbitrary: s) (auto split: main_pc.splits intro: apply_label_reaches)

lemma main_step_expired:
  assumes "ck_expired s \<noteq> None" and "\<forall>r. ck_main s \<noteq> M_returned r"
  shows "\<exists>t r. main_step p n False s = Some t \<and> ck_main t = M_returned r"
  using assms
  by (cases "ck_main s"; cases "ck_dialed s"; cases "ck_done s") (auto simp: main_step_def)

lemma check_run_returns: "\<exists>r. ck_main (check_run p n ls s) = M_returned r"
proof (induction ls arbitrary: s)
  case Nil
  show ?case
  proof (cases "\<exists>r. ck_main s = M_returned r")
    case False
    let ?t = "apply_label p n (L_expire DeadlineExceeded) s"
    have "ck_expired ?t \<noteq> None" and "ck_main ?t = ck_main s"
      by (auto simp: apply_label_def split: option.splits if_splits)
    from main_step_expired [OF this(1)] False this(2)
    obtain u r where "main_step p n False ?t = Some u" "ck_main u = M_returned r" by metis
    then have "ck_main (apply_label p n (L_main False) ?t) = M_returned r"
      by (simp add: apply_label_def)
    then show ?thesis using False by (auto split: main_pc.splits)
  qed (auto split: main_pc.splits)
next
  case (Cons l ls)
  then show ?case by (auto split: main_pc.splits)
qed

lemma Check_cases:
  obtains s where "check_reaches p (w_steps w) s" "ck_main s = M_returned (fst (Check p sched c w))"
    "snd (Check p sched c w) = tick (w\<lparr>w_trace := w_trace w @ ck_events s\<rparr>)"
proof -
  let ?s = "check_run p (w_steps w) (sched (w_steps w))
      (check_init (ctx_state (with_timeout c (pr_attemptTimeout p) w) (w_clock w)))"
  obtain r where "ck_main ?s = M_returned r" using check_run_returns by blast
  moreover have "check_reaches p (w_steps w) ?s"
    by (rule check_run_reaches) (rule check_reaches.init)
  ultimately show thesis using that [of ?s] by (simp add: Check_def Let_def)
qed

section \<open>The result of an attempt\<close>

text \<open>
  \<open>verdict p n r es\<close>: an attempt that was not cut short by its context has done \<open>es\<close> when its result
  is \<open>r\<close>.
\<close>

definition verdict :: "probe \<Rightarrow> nat \<Rightarrow> go_error option \<Rightarrow> event list \<Rightarrow> bool" where
  "verdict p n r es \<longleftrightarrow>
     (r = None \<and> es = attempt_ops p n) \<or>
     (\<exists>x. r = Some (Err_wrap ''dial rabbitmq: %w'' [] x) \<and> es = []) \<or>
     (\<exists>x. r = Some (Err_wrap ''open probe channel: %w'' [] x) \<and> es = [Ev_dial n, Ev_conn_close n]) \<or>
     (\<exists>x. r = Some (Err_wrap ''exchange %q is unavailable: %w''
          [A_str (rq_InputExchange (pr_cfg p))] x) \<and>
        es = [Ev_dial n, Ev_channel n, Ev_amqp n (exchange_passive p), Ev_ch_close n, Ev_conn_close n]) \<or>
     (\<exists>x. r = Some (Err_wrap ''queue %q is unavailable: %w'' [A_str (rq_Queue (pr_cfg p))] x) \<and>
        es = attempt_ops p n)"

lemma verdict_simps [simp]:
  "verdict p n None es \<longleftrightarrow> es = attempt_ops p n"
  "verdict p n (Some (Err_wrap ''dial rabbitmq: %w'' [] x)) []"
  "verdict p n (Some (Err_wrap ''open probe channel: %w'' [] x)) [Ev_dial n, Ev_conn_close n]"
  "verdict p n (Some (Err_wrap ''exchange %q is unavailable: %w''
      [A_str (rq_InputExchange (pr_cfg p))] x))
    [Ev_dial n, Ev_channel n, Ev_amqp n (exchange_passive p), Ev_ch_close n, Ev_conn_close n]"
  "verdict p n (Some (Err_wrap ''queue %q is unavailable: %w'' [A_str (rq_Queue (pr_cfg p))] x))
    [Ev_dial n, Ev_channel n, Ev_amqp n (exchange_passive p), Ev_amqp n (queue_passive p),
     Ev_ch_close n, Ev_conn_close n]"
  by (simp_all add: verdict_def attempt_ops_def)

fun verdict_due :: "probe \<Rightarrow> nat \<Rightarrow> go_pc \<Rightarrow> event list \<Rightarrow> bool" where
  "verdict_due p n (G_send_dialed (Some e)) es = (es = [])"
| "verdict_due p n (G_close_channel r) es = verdict p n r (es @ [Ev_ch_close n, Ev_conn_close n])"
| "verdict_due p n (G_close_conn r) es = verdict p n r (es @ [Ev_conn_close n])"
| "verdict_due p n (G_send_done r) es = verdict p n r es"
| "verdict_due p n G_end es = True"
| "verdict_due p n pc es = path p n pc es"

definition cut_short :: "probe \<Rightarrow> go_error option \<Rightarrow> bool" where
  "cut_short p r \<longleftrightarrow> (\<exists>x. r = Some (aborted p x) \<or> r = Some (timed_out p x))"

definition verdict_inv :: "probe \<Rightarrow> nat \<Rightarrow> check_state \<Rightarrow> bool" where
  "verdict_inv p n s \<longleftrightarrow>
     (case ck_main s of
        M_returned r \<Rightarrow> cut_short p r \<or> verdict p n r (ck_events s) \<and> finished (ck_go s)
      | _ \<Rightarrow> verdict_due p n (ck_go s) (ck_events s) \<and>
          (\<forall>x. ck_dialed s = Some (Some x) \<longrightarrow> ck_events s = [] \<and> finished (ck_go s)) \<and>
          (\<forall>r. ck_done s = Some r \<longrightarrow> verdict p n r (ck_events s) \<and> ck_go s = G_end))"

lemma goroutine_step_verdict:
  assumes "verdict_inv p n s" and "goroutine_step p n r s = Some t"
  shows "verdict_inv p n t"
proof (cases "\<exists>r. ck_main s = M_returned r")
  case True
  then show ?thesis
    using assms
    by (cases "ck_go s") (auto simp: goroutine_step_def verdict_inv_def split: option.splits if_splits)
next
  case False
  have waits: "verdict_inv p n u \<longleftrightarrow> verdict_due p n (ck_go u) (ck_events u) \<and>
      (\<forall>x. ck_dialed u = Some (Some x) \<longrightarrow> ck_events u = [] \<and> finished (ck_go u)) \<and>
      (\<forall>r. ck_done u = Some r \<longrightarrow> verdict p n r (ck_events u) \<and> ck_go u = G_end)"
    if "ck_main u = ck_main s" for u
    using False that by (cases "ck_main s") (simp_all add: verdict_inv_def)
  have "ck_main t = ck_main s" using goroutine_step_events [OF assms(2)] by blast
  note inv = waits [OF refl, THEN iffD1, OF assms(1)] waits [OF this]
  show ?thesis
  proof (cases "ck_go s")
    case (G_send_dialed e)
    then show ?thesis
      using inv assms(2) by (cases e) (auto simp: goroutine_step_def split: if_splits)
  qed (use inv assms(2) in \<open>auto simp: goroutine_step_def attempt_ops_def
    split: option.splits if_splits\<close>)
qed

lemma main_step_verdict:
  assumes "verdict_inv p n s" and "main_step p n b s = Some t"
  shows "verdict_inv p n t"
  using assms(2,1)
  by (cases rule: main_step_cases) (auto simp: verdict_inv_def cut_short_def verdict_def)

lemma check_reaches_verdict: "check_reaches p n s \<Longrightarrow> verdict_inv p n s"
proof (induction rule: check_reaches.induct)
  case (init x)
  then show ?case by (simp add: check_init_def verdict_inv_def)
next
  case (step s t)
  from step(2,3) show ?case
  proof (cases rule: check_step.cases)
    case (expiry e)
    with step(3) show ?thesis by (simp add: verdict_inv_def split: main_pc.splits)
  qed (use step(3) goroutine_step_verdict main_step_verdict in blast)+
qed

lemma too_late_closed:
  "check_reaches p n s \<Longrightarrow> ck_main s = M_returned (Some (timed_out p x)) \<Longrightarrow>
    Ev_conn_close n \<in> set (ck_events s)"
proof (induction rule: check_reaches.induct)
  case (init x)
  then show ?case by (simp add: check_init_def)
next
  case (step s t)
  from step(2,3,4) show ?case
  proof (cases rule: check_step.cases)
    case (goroutine r)
    from goroutine_step_events [OF this] step(3,4) show ?thesis by fastforce
  next
    case (caller b)
    then show ?thesis
    proof (cases rule: main_step_cases)
      case (checked r)
      with check_reaches_verdict [OF step(1)] step(4) show ?thesis
        by (auto simp: verdict_inv_def verdict_def timed_out_def)
    qed (use step(4) in \<open>auto simp: timed_out_def aborted_def\<close>)
  qed (use step(3,4) in simp)
qed

section \<open>The goroutine is never stuck on its channels\<close>

text \<open>
  Both channels have room for their one value when the goroutine sends it, so it goes on as long as
  the library's calls return.
\<close>

fun steps_left :: "go_pc \<Rightarrow> nat" where
  "steps_left G_dial = 8"
| "steps_left (G_send_dialed e) = 7"
| "steps_left G_channel = 6"
| "steps_left G_exchange = 5"
| "steps_left G_queue = 4"
| "steps_left (G_close_channel e) = 3"
| "steps_left (G_close_conn e) = 2"
| "steps_left (G_send_done e) = 1"
| "steps_left G_end = 0"

definition room_inv :: "check_state \<Rightarrow> bool" where
  "room_inv s \<longleftrightarrow>
     (7 \<le> steps_left (ck_go s) \<longrightarrow> ck_dialed s = None) \<and> (ck_go s \<noteq> G_end \<longrightarrow> ck_done s = None)"

lemma check_reaches_room: "check_reaches p n s \<Longrightarrow> room_inv s"
proof (induction rule: check_reaches.induct)
  case (init x)
  then show ?case by (simp add: check_init_def room_inv_def)
next
  case (step s t)
  from step(2,3) show ?case
  proof (cases rule: check_step.cases)
    case (goroutine r)
    with step(3) show ?thesis
      by (auto simp: goroutine_step_def room_inv_def split: go_pc.splits option.splits if_splits)
  next
    case (caller b)
    then show ?thesis
      by (cases rule: main_step_cases) (use step(3) in \<open>auto simp: room_inv_def\<close>)
  qed (use step(3) in \<open>simp add: room_inv_def\<close>)
qed

lemma goroutine_goes_on:
  assumes "room_inv s" and "ck_go s \<noteq> G_end"
  shows "\<exists>t. goroutine_step p n r s = Some t \<and> Suc (steps_left (ck_go t)) \<le> steps_left (ck_go s)"
  using assms
  by (cases "ck_go s") (auto simp: goroutine_step_def room_inv_def split: option.splits)

lemma goroutine_ends:
  assumes "check_reaches p n s" and "steps_left (ck_go s) \<le> length rs"
  shows "ck_go (fold (\<lambda>r. apply_label p n (L_go r)) rs s) = G_end"
  using assms
proof (induction rs arbitrary: s)
  case Nil
  then show ?case by (cases "ck_go s") simp_all
next
  case (Cons r rs)
  have "steps_left (ck_go (apply_label p n (L_go r) s)) \<le> length rs"
  proof (cases "ck_go s = G_end")
    case True
    then show ?thesis by (simp add: apply_label_def goroutine_step_def)
  next
    case False
    from goroutine_goes_on [OF check_reaches_room [OF Cons.prems(1)] this, of p n r]
    obtain t where "goroutine_step p n r s = Some t" "Suc (steps_left (ck_go t)) \<le> steps_left (ck_go s)"
      by blast
    then show ?thesis using Cons.prems(2) by (simp add: apply_label_def)
  qed
  with Cons.IH [OF apply_label_reaches [OF Cons.prems(1)]] show ?case by simp
qed

lemma fold_go_reaches:
  "check_reaches p n s \<Longrightarrow> check_reaches p n (fold (\<lambda>r. apply_label p n (L_go r)) rs s)"
  by (induction rs arbitrary: s) (simp_all add: apply_label_reaches)

end
