(* ===== verification/Probe_Run_Facts.thy ===== *)
theory Probe_Run_Facts
  imports Probe_Facts Consumer_Stop
begin

text \<open>
  The probe's supervisor over any timer that keeps its contract: readiness is reported once and is
  never taken back, the delay between failures stays in its bounds, and the loop ends with its
  context.
\<close>

locale probe_parts =
  waits: sleeper "pr_sleep p" for p :: probe +
  assumes retry_pos: "0 < pr_retryInitial p" and retry_le: "pr_retryInitial p \<le> pr_retryMax p"
    and retry_fits: "2 * pr_retryMax p \<le> max_int64"

section \<open>Delays\<close>

definition retry_delay :: "probe \<Rightarrow> nat \<Rightarrow> int" where
  "retry_delay p n = (next_retry p ^^ n) (pr_retryInitial p)"

lemma retry_delay_Suc_eq: "retry_delay p (Suc n) = next_retry p (retry_delay p n)"
  by (simp add: retry_delay_def)

context probe_parts begin

lemma next_retry_eq: "0 < d \<Longrightarrow> d \<le> pr_retryMax p \<Longrightarrow> next_retry p d = min (2 * d) (pr_retryMax p)"
  using retry_fits wrap64_id [of "d * 2"]
  by (simp add: next_retry_def min_int64_def mult.commute)

lemma retry_delay_range: "0 < retry_delay p n \<and> retry_delay p n \<le> pr_retryMax p"
proof (induction n)
  case 0
  then show ?case using retry_pos retry_le by (simp add: retry_delay_def)
next
  case (Suc n)
  then show ?case using next_retry_eq [of "retry_delay p n"] retry_pos retry_le
    by (simp add: retry_delay_Suc_eq)
qed

end

sublocale probe_parts \<subseteq> retry:
  backoff "retry_delay p" "pr_retryInitial p" "pr_retryMax p" "\<lambda>_. True"
  using retry_delay_range retry_pos retry_le next_retry_eq
  by unfold_locales (simp_all add: retry_delay_def)

section \<open>Readiness in a trace\<close>

text \<open>Every report of readiness comes right after an attempt that was carried out in full.\<close>

definition verified_line :: "probe \<Rightarrow> event" where
  "verified_line p = Ev_log L_Info ''rabbitmq connectivity verified'' (probe_topologyAttrs p)"

definition announced :: "probe \<Rightarrow> event list \<Rightarrow> bool" where
  "announced p es \<longleftrightarrow>
     (\<forall>a. prefix (a @ [Ev_ready]) es \<longrightarrow> (\<exists>n. suffix (attempt_ops p n @ [verified_line p]) a))"

lemma announced_Nil: "announced p []"
  by (simp add: announced_def)

lemma announced_snoc:
  "announced p (es @ [e]) \<longleftrightarrow> announced p es \<and>
     (e = Ev_ready \<longrightarrow> (\<exists>n. suffix (attempt_ops p n @ [verified_line p]) es))"
  by (auto simp: announced_def)

lemma announced_calm: "announced p es \<Longrightarrow> list_all (\<lambda>e. e \<noteq> Ev_ready) fs \<Longrightarrow> announced p (es @ fs)"
  by (induction fs rule: rev_induct) (simp_all add: announced_snoc flip: append_assoc)

definition readys :: "event list \<Rightarrow> nat" where
  "readys es = length (filter (\<lambda>e. e = Ev_ready) es)"

lemma readys_append [simp]: "readys (es @ fs) = readys es + readys fs"
  by (simp add: readys_def)

lemma readys_calm: "list_all (\<lambda>e. e \<noteq> Ev_ready) es \<Longrightarrow> readys es = 0"
  by (auto simp: readys_def list_all_iff filter_empty_conv)

abbreviation calm :: "world \<Rightarrow> world \<Rightarrow> bool" where
  "calm \<equiv> extends (\<lambda>e. e \<noteq> Ev_ready)"

text \<open>
  What the probe has reported since the trace was \<open>tr\<close>: readiness once if \<open>ready\<close>, else never, and
  only after an attempt in full.
\<close>

definition reported :: "probe \<Rightarrow> event list \<Rightarrow> bool \<Rightarrow> world \<Rightarrow> bool" where
  "reported p tr ready w \<longleftrightarrow>
     (\<exists>es. w_trace w = tr @ es \<and> announced p es \<and> readys es = (if ready then 1 else 0))"

lemma reported_start: "reported p (w_trace w) False w"
  by (simp add: reported_def announced_Nil readys_def)

lemma reported_calm: "reported p tr ready w \<Longrightarrow> calm w w' \<Longrightarrow> reported p tr ready w'"
  unfolding reported_def extends_def
  by (metis add.right_neutral announced_calm append_assoc readys_append readys_calm)

lemma reported_ready:
  assumes "reported p tr False w" and "w_trace w' = w_trace w @ attempt_ops p n @ [verified_line p, Ev_ready]"
  shows "reported p tr True w'"
proof -
  obtain es where es: "w_trace w = tr @ es" "announced p es" "readys es = 0"
    using assms(1) by (auto simp: reported_def)
  let ?fs = "attempt_ops p n @ [verified_line p]"
  have calm: "list_all (\<lambda>e. e \<noteq> Ev_ready) ?fs"
    by (simp add: attempt_ops_def verified_line_def)
  have "announced p ((es @ ?fs) @ [Ev_ready])"
    unfolding announced_snoc using announced_calm [OF es(2) calm] suffixI [OF refl] by blast
  moreover have "readys ((es @ ?fs) @ [Ev_ready]) = 1"
    using es(3) readys_calm [OF calm] by (simp add: readys_def verified_line_def)
  ultimately show ?thesis
    using assms(2) es(1) by (auto simp: reported_def intro!: exI [of _ "(es @ ?fs) @ [Ev_ready]"])
qed

section \<open>One iteration\<close>

lemma Check_calm: "calm w (snd (Check p sched c w))"
proof (rule Check_cases [of p w sched c])
  fix s
  assume s: "check_reaches p (w_steps w) s"
    and w: "snd (Check p sched c w) = tick (w\<lparr>w_trace := w_trace w @ ck_events s\<rparr>)"
  have "list_all (probe_event p (w_steps w)) (ck_events s)" by (rule check_reaches_events [OF s])
  then have "list_all (\<lambda>e. e \<noteq> Ev_ready) (ck_events s)"
    by (auto simp: list_all_iff probe_event_def attempt_ops_def)
  then show ?thesis unfolding w by (simp add: extends_def tick_def)
qed

lemma Check_None:
  assumes "fst (Check p sched c w) = None"
  shows "w_trace (snd (Check p sched c w)) = w_trace w @ attempt_ops p (w_steps w)"
proof (rule Check_cases [of p w sched c])
  fix s
  assume s: "check_reaches p (w_steps w) s" "ck_main s = M_returned (fst (Check p sched c w))"
    and w: "snd (Check p sched c w) = tick (w\<lparr>w_trace := w_trace w @ ck_events s\<rparr>)"
  then show ?thesis
    using check_reaches_inv [OF s(1)] assms by (simp add: check_inv_def frame_simps)
qed

context probe_parts begin

lemma wait_cases:
  assumes "(case pr_sleep p c d w of (Some e, u) \<Rightarrow> Return u | (None, u) \<Rightarrow> Again (f u)) = r"
  obtains (waited) u where "r = Again (f u)" "calm w u" "w_trace u = w_trace w @ [Ev_sleep d]"
      "w_clock w + d \<le> w_clock u"
  | (stopped) u where "r = Return u" "calm w u" "ctx_state c (w_clock u) \<noteq> None"
proof -
  obtain e u where sl: "pr_sleep p c d w = (e, u)" by force
  have "calm w u" using waits.sleep_extends [of d w c] sl by (auto elim: extends_mono)
  moreover have "w_trace u = w_trace w @ [Ev_sleep d]" using waits.sleep_trace [of c d w] sl by simp
  ultimately show thesis
    using assms sl waited stopped waits.sleep_full waits.sleep_cut by (cases e) auto
qed

lemma check_failed_cases:
  assumes "check_failed p c err s = r"
  obtains (again) u w attempts where "r = Again \<lparr>ps_ready = ps_ready s, ps_lost = (ps_lost s \<or> ps_ready s),
        ps_attempts = attempts, ps_retryDelay = next_retry p (ps_retryDelay s), ps_world = w\<rparr>"
      "calm (ps_world s) u" "calm u w" "w_trace w = w_trace u @ [Ev_sleep (ps_retryDelay s)]"
      "w_clock u + ps_retryDelay s \<le> w_clock w"
  | (ended) w where "r = Return w" "calm (ps_world s) w" "ctx_state c (w_clock w) \<noteq> None"
proof -
  define s1 where "s1 = (if \<not> ps_ready s then
              (let attempts = ps_attempts s + 1;
                   level = (if attempts = 1 \<or> attempts mod 10 = 0 then L_Warn else L_Debug)
               in s\<lparr>ps_attempts := attempts,
                    ps_world := log_at level ''rabbitmq connectivity probe failed''
                      (probe_topologyAttrs p @ [At ''attempt'' (A_int (int attempts)),
                         At ''retry_in'' (A_dur (ps_retryDelay s)), At_err err]) (ps_world s)\<rparr>)
            else if \<not> ps_lost s then
              s\<lparr>ps_lost := True,
                ps_world := log_at L_Warn ''rabbitmq connectivity lost''
                  (probe_topologyAttrs p @ [At_err err]) (ps_world s)\<rparr>
            else
              s\<lparr>ps_world := log_at L_Debug ''rabbitmq connectivity probe failed''
                  (probe_topologyAttrs p @ [At_err err]) (ps_world s)\<rparr>)"
  have s1: "calm (ps_world s) (ps_world s1)" "ps_ready s1 = ps_ready s"
    "ps_lost s1 = (ps_lost s \<or> ps_ready s)"
    by (auto simp: s1_def Let_def)
  have r: "(case pr_sleep p c (ps_retryDelay s) (ps_world s1) of (Some e, u) \<Rightarrow> Return u
      | (None, u) \<Rightarrow> Again (s1\<lparr>ps_retryDelay := next_retry p (ps_retryDelay s), ps_world := u\<rparr>)) = r"
    using assms unfolding check_failed_def Let_def s1_def by simp
  have s2: "s1\<lparr>ps_retryDelay := d, ps_world := w\<rparr> = \<lparr>ps_ready = ps_ready s,
      ps_lost = (ps_lost s \<or> ps_ready s), ps_attempts = ps_attempts s1,
      ps_retryDelay = d, ps_world = w\<rparr>" for d w
    using s1(2,3) by (cases s1) simp
  from r show thesis
  proof (cases rule: wait_cases)
    case (waited u)
    then show ?thesis using again [OF _ s1(1)] s2 by simp
  next
    case (stopped u)
    then show ?thesis using extends_trans [OF s1(1)] ended by blast
  qed
qed


text \<open>A success reports readiness if that was not done before, and resets the delay.\<close>

lemma check_succeeded_cases:
  assumes "check_succeeded p (Some (emit Ev_ready)) c s = r"
    and "reported p tr (ps_ready s) w" and "calm w (ps_world s)"
    and "w_trace (ps_world s) = w_trace w @ attempt_ops p n"
  obtains (again) t where "r = Again t" "ps_ready t" "ps_retryDelay t = pr_retryInitial p"
      "reported p tr True (ps_world t)" "goes_on (ps_world s) (ps_world t)"
      "w_clock (ps_world s) + pr_healthyEvery p \<le> w_clock (ps_world t)"
  | (ended) u where "r = Return u" "ctx_state c (w_clock u) \<noteq> None" "reported p tr True u"
      "goes_on (ps_world s) u"
proof -
  define s1 where "s1 = (if \<not> ps_ready s then
              (let w = log_at L_Info ''rabbitmq connectivity verified'' (probe_topologyAttrs p)
                     (ps_world s)
               in s\<lparr>ps_ready := True, ps_world := emit Ev_ready w\<rparr>)
            else if ps_lost s then
              s\<lparr>ps_lost := False,
                ps_world := log_at L_Info ''rabbitmq connectivity restored'' (probe_topologyAttrs p)
                  (ps_world s)\<rparr>
            else s)"
  have go: "goes_on (ps_world s) (ps_world s1)" "w_clock (ps_world s1) = w_clock (ps_world s)"
    "ps_ready s1"
    by (auto simp: s1_def Let_def frame_simps intro: extends_trans [OF log_extends emit_extends])
  have rep: "reported p tr True (ps_world s1)"
  proof (cases "ps_ready s")
    case True
    have "calm (ps_world s) (ps_world s1)" by (simp add: s1_def True)
    then show ?thesis
      using reported_calm [OF assms(2) extends_trans [OF assms(3)]] True by simp
  next
    case False
    then have "w_trace (ps_world s1) =
        w_trace w @ attempt_ops p n @ [verified_line p, Ev_ready]"
      using assms(4) by (simp add: s1_def Let_def frame_simps verified_line_def)
    with assms(2) False show ?thesis using reported_ready by simp
  qed
  have r: "(case pr_sleep p c (pr_healthyEvery p) (ps_world s1) of (Some e, u) \<Rightarrow> Return u
      | (None, u) \<Rightarrow> Again (s1\<lparr>ps_retryDelay := pr_retryInitial p, ps_world := u\<rparr>)) = r"
    using assms(1) unfolding check_succeeded_def Let_def s1_def by (simp only: option.case)
  then show thesis
  proof (cases rule: wait_cases)
    case (waited u)
    then show ?thesis
      using again [of "s1\<lparr>ps_retryDelay := pr_retryInitial p, ps_world := u\<rparr>"] go
        reported_calm [OF rep waited(2)] extends_trans [OF go(1) goes_onI [OF waited(2)]] by simp
  next
    case (stopped u)
    then show ?thesis
      using ended reported_calm [OF rep] extends_trans [OF go(1) goes_onI] by blast
  qed
qed

end

definition probe_inv :: "probe \<Rightarrow> event list \<Rightarrow> probe_state \<Rightarrow> bool" where
  "probe_inv p tr s \<longleftrightarrow> reported p tr (ps_ready s) (ps_world s) \<and> (ps_lost s \<longrightarrow> ps_ready s) \<and>
     (\<exists>k. ps_retryDelay s = retry_delay p k)"

definition probe_post :: "probe \<Rightarrow> event list \<Rightarrow> ctx \<Rightarrow> world \<Rightarrow> bool" where
  "probe_post p tr c w \<longleftrightarrow> ctx_state c (w_clock w) \<noteq> None \<and> (\<exists>ready. reported p tr ready w)"

context probe_parts begin

lemma probe_step_cases:
  assumes inv: "probe_inv p tr s" and step: "probe_step p sched (Some (emit Ev_ready)) c s = r"
  obtains (again) t where "r = Again t" "probe_inv p tr t" "ps_ready s \<longrightarrow> ps_ready t"
      "ctx_state c (w_clock (tick (ps_world s))) = None" "goes_on (tick (ps_world s)) (ps_world t)"
  | (ended) w where "r = Return w" "probe_post p tr c w" "goes_on (ps_world s) w"
proof (cases "ctx_state c (w_clock (tick (ps_world s)))")
  case (Some e)
  have "reported p tr (ps_ready s) (tick (ps_world s))"
    using inv reported_calm [OF _ tick_extends] by (auto simp: probe_inv_def)
  then show thesis
    using step Some ended by (auto simp: probe_step_def ctx_err_def probe_post_def)
next
  case go: None
  let ?w = "tick (ps_world s)"
  obtain x w2 where x: "Check p sched c ?w = (x, w2)" by force
  have rep: "reported p tr (ps_ready s) ?w"
    using inv reported_calm [OF _ tick_extends] by (auto simp: probe_inv_def)
  have calm: "calm ?w w2" using Check_calm [of ?w p sched c] x by simp
  note on = extends_trans [OF goes_onI [OF calm]]
  show thesis
  proof (cases x)
    case (Some err)
    then have "check_failed p c err (s\<lparr>ps_world := w2\<rparr>) = r"
      using step go x by (simp add: probe_step_def ctx_err_def)
    then show thesis
    proof (cases rule: check_failed_cases)
      case (again u w attempts)
      then have "calm ?w w" by (metis extends_trans calm probe_state.select_convs(5)
            probe_state.surjective probe_state.update_convs(5))
      moreover obtain k where "ps_retryDelay s = retry_delay p k"
        using inv by (auto simp: probe_inv_def)
      then have "next_retry p (ps_retryDelay s) = retry_delay p (Suc k)"
        by (simp add: retry_delay_Suc_eq)
      ultimately show thesis
        using \<open>r = _\<close> that(1) go inv reported_calm [OF rep] goes_onI
        by (auto simp: probe_inv_def)
    next
      case (ended w)
      then show thesis
        using that(2) reported_calm [OF rep extends_trans [OF calm]]
          extends_trans [OF tick_extends on [OF goes_onI]]
        by (auto simp: probe_post_def)
    qed
  next
    case None
    then have "check_succeeded p (Some (emit Ev_ready)) c (s\<lparr>ps_world := w2\<rparr>) = r"
      using step go x by (simp add: probe_step_def ctx_err_def)
    note 1 = this
    let ?s = "s\<lparr>ps_world := w2\<rparr>"
    have 2: "reported p tr (ps_ready ?s) ?w" and 3: "calm ?w (ps_world ?s)" using rep calm by simp_all
    have 4: "w_trace (ps_world ?s) = w_trace ?w @ attempt_ops p (w_steps ?w)"
      using Check_None [of p sched c ?w] x None by simp
    show thesis
    proof (cases rule: check_succeeded_cases [OF 1 2 3 4])
      case (1 t)
      moreover have "pr_retryInitial p = retry_delay p 0" by (simp add: retry_delay_def)
      ultimately show thesis
        using that(1) [of t] go on by (auto simp: probe_inv_def)
    next
      case (2 u)
      then show thesis
        using that(2) extends_trans [OF tick_extends on] by (auto simp: probe_post_def)
    qed
  qed
qed

lemma probe_start_inv: "probe_inv p (w_trace w) (probe_start p w)"
  by (auto simp: probe_inv_def probe_start_def reported_start retry_delay_def intro: exI [of _ 0])

end

sublocale probe_parts \<subseteq> probing:
  terminating_loop "probe_step p sched (Some (emit Ev_ready)) c"
    "\<lambda>s. probe_inv p tr s \<and> lively (ps_world s) \<and> ctx_done_at c = Some T"
    "probe_post p tr c" "\<lambda>s. nat (T - w_clock (ps_world s))" for sched c tr T
proof unfold_locales
  fix s t r
  assume inv: "probe_inv p tr s \<and> lively (ps_world s) \<and> ctx_done_at c = Some T"
  have before: "ctx_state c u = None \<Longrightarrow> u < T" for u using inv by (simp add: ctx_state_None_iff)
  have live: "lively (tick (ps_world s))" "w_clock (ps_world s) < w_clock (tick (ps_world s))"
    using inv lively_tick lively_goes_on by auto
  note cases = probe_step_cases [OF conjunct1 [OF inv] refl, of sched c]
  show "probe_step p sched (Some (emit Ev_ready)) c s \<noteq> Block" by (rule cases) auto
  show "probe_post p tr c r" if "probe_step p sched (Some (emit Ev_ready)) c s = Return r"
    by (rule cases) (use that in auto)
  show "probe_inv p tr t \<and> lively (ps_world t) \<and> ctx_done_at c = Some T"
    if "probe_step p sched (Some (emit Ev_ready)) c s = Again t"
    by (rule cases) (use that inv live lively_goes_on in auto)
  show "nat (T - w_clock (ps_world t)) < nat (T - w_clock (ps_world s))"
    if "probe_step p sched (Some (emit Ev_ready)) c s = Again t"
  proof (rule cases)
    fix t'
    assume "probe_step p sched (Some (emit Ev_ready)) c s = Again t'"
      "ctx_state c (w_clock (tick (ps_world s))) = None" "goes_on (tick (ps_world s)) (ps_world t')"
    with that have "w_clock (tick (ps_world s)) \<le> w_clock (ps_world t)"
      and "w_clock (tick (ps_world s)) < T" using extends_clock before by auto
    then show ?thesis using live by simp
  qed (use that in simp)
qed

sublocale probe_parts \<subseteq> reporting:
  loop_invariant "probe_step p sched (Some (emit Ev_ready)) c" "probe_inv p tr" "probe_post p tr c"
  for sched c tr
  by unfold_locales (use probe_step_cases in \<open>metis iter.distinct(1) iter.inject(1)\<close>,
    use probe_step_cases in \<open>metis iter.distinct(1) iter.inject(2)\<close>)

section \<open>The production probe\<close>

interpretation production: probe_parts "newProbe cfg" for cfg
  using timer.sleeper_axioms
  by (simp add: probe_parts_def probe_parts_axioms_def newProbe_def backoffInitial_def backoffMax_def
      second_def max_int64_def)

end
