(* ===== verification/Server.thy ===== *)
theory Server
  imports Rewriter Store_Facts Messenger Consumer_Stop Probe_Run_Facts
begin

text \<open>
  \<open>cmd/server/main.go\<close>: the program. It loads the configuration, builds the components, starts the
  probe and the health endpoint beside the consumer, and ends when the consumer does, without waiting
  for the other two. What it takes
  from outside the repository is gathered in the record \<open>platform\<close>.
\<close>

section \<open>The platform\<close>

text \<open>
  \<open>pf_signal\<close> is the time of the first \<open>SIGINT\<close> or \<open>SIGTERM\<close>, \<open>pf_http\<close> an HTTP client by its
  timeout. The type \<open>'aws\<close> is the configuration of the AWS SDK.
\<close>

record 'aws platform =
  pf_env :: env
  pf_parse_float :: "string \<Rightarrow> float64 option"
  pf_unicode :: unicode_case
  pf_signal :: "int option"
  pf_aws_config :: "string \<Rightarrow> string \<Rightarrow> string \<Rightarrow> go_error + 'aws"
  pf_s3 :: "'aws \<Rightarrow> string \<Rightarrow> bool \<Rightarrow> s3_api"
  pf_http :: "int \<Rightarrow> http_client"
  pf_errors :: lib_errors
  pf_date :: "int \<Rightarrow> string"
  pf_outside :: outside

record build_info =
  bi_Version :: string
  bi_Commit :: string
  bi_BuildTime :: string

text \<open>The values the linker may replace.\<close>

definition default_build :: build_info where
  "default_build = \<lparr>bi_Version = ''dev'', bi_Commit = ''none'', bi_BuildTime = ''unknown''\<rparr>"

section \<open>Wiring\<close>

text \<open>
  The context that \<open>signal.NotifyContext\<close> returns: the signal cancels it. It is only made when the
  signal has not come before (see \<open>server_start\<close>).
\<close>

definition signal_context :: "'aws platform \<Rightarrow> ctx" where
  "signal_context pf = \<lparr>ctx_cancel = pf_signal pf, ctx_deadline = None\<rparr>"

text \<open>\<open>Load\<close> joins its messages into one error.\<close>

definition invalid_configuration :: "errs \<Rightarrow> go_error" where
  "invalid_configuration es = Err_wrap ''invalid configuration: %s'' [] (Err_join es)"

definition server_rewriter :: "'aws platform \<Rightarrow> config \<Rightarrow> rewriter option" where
  "server_rewriter pf cfg =
     (if ol_Enabled (cf_Ollama cfg) then
        Some (\<lambda>(c, text). Rewrite (pf_errors pf) (pf_date pf)
          (New_ollama (pf_http pf) (cf_Ollama cfg)) c text)
      else None)"

definition server_publisher :: "'aws platform \<Rightarrow> config \<Rightarrow> publisher" where
  "server_publisher pf cfg =
     (\<lambda>(c, text). Publish (pf_errors pf)
        (NewGoToSocialPublisher (pf_http pf) (cf_GotoSocialInstance cfg) (cf_GotoSocialUser cfg)
           (cf_GotoSocialToken cfg) (cf_GotoSocialAudience cfg) (cf_GotoSocialRecipient cfg)) c text)"

definition server_consumer :: "'aws platform \<Rightarrow> config \<Rightarrow> client \<Rightarrow> consumer" where
  "server_consumer pf cfg store =
     New_consumer (pf_outside pf) (cf_RabbitMQ cfg)
       (\<lambda>(c, ex, sy). ReadSummary (pf_unicode pf) store c ex sy)
       (server_rewriter pf cfg) (server_publisher pf cfg)"

definition loaded_attrs :: "config \<Rightarrow> attr list" where
  "loaded_attrs cfg =
     [At ''rabbitmq_broker'' (A_str (RedactedAMQPURL (rq_URL (cf_RabbitMQ cfg)))),
      At ''rabbitmq_exchange'' (A_str (rq_InputExchange (cf_RabbitMQ cfg))),
      At ''rabbitmq_exchange_type'' (A_str (rq_InputExchangeType (cf_RabbitMQ cfg))),
      At ''rabbitmq_routing_key'' (A_str (rq_InputRoutingKey (cf_RabbitMQ cfg))),
      At ''rabbitmq_queue'' (A_str (rq_Queue (cf_RabbitMQ cfg))),
      At ''rabbitmq_prefetch'' (A_int (rq_Prefetch (cf_RabbitMQ cfg))),
      At ''s3_endpoint'' (A_str (s3_Endpoint (cf_S3 cfg))),
      At ''s3_bucket'' (A_str (s3_Bucket (cf_S3 cfg))),
      At ''audience'' (A_str (cf_GotoSocialAudience cfg)),
      At ''ollama_enabled'' (A_bool (ol_Enabled (cf_Ollama cfg))),
      At ''ollama_base_url'' (A_str (ol_BaseURL (cf_Ollama cfg))),
      At ''ollama_model'' (A_str (ol_Model (cf_Ollama cfg)))]"

definition probe_attrs :: "config \<Rightarrow> attr list" where
  "probe_attrs cfg =
     [At ''broker'' (A_str (RedactedAMQPURL (rq_URL (cf_RabbitMQ cfg)))),
      At ''exchange'' (A_str (rq_InputExchange (cf_RabbitMQ cfg))),
      At ''queue'' (A_str (rq_Queue (cf_RabbitMQ cfg)))]"

text \<open>
  Everything up to the start of the goroutines: an error, or the configuration and the store. Loading
  takes a step, and until \<open>signal.NotifyContext\<close> is called after it a signal has its default effect:
  it kills the process, which is \<^const>\<open>None\<close>.
\<close>

definition signalled :: "'aws platform \<Rightarrow> int \<Rightarrow> bool" where
  "signalled pf now \<longleftrightarrow> (case pf_signal pf of None \<Rightarrow> False | Some t \<Rightarrow> t \<le> now)"

definition server_start ::
    "'aws platform \<Rightarrow> build_info \<Rightarrow> world \<Rightarrow> ((go_error + config \<times> client) \<times> world) option" where
  "server_start pf bi w =
     (let w1 = tick (log_at L_Info ''starting stocker-informer''
            [At ''version'' (A_str (bi_Version bi)), At ''commit'' (A_str (bi_Commit bi)),
             At ''build_time'' (A_str (bi_BuildTime bi))] w)
      in if signalled pf (w_clock w1) then None
         else Some (case Load (pf_parse_float pf) (pf_unicode pf) (pf_env pf) of
           Inl es \<Rightarrow> (Inl (Err_wrap ''load config: %w'' [] (invalid_configuration es)), w1)
         | Inr cfg \<Rightarrow>
             (let w2 = log_at L_Info ''configuration loaded'' (loaded_attrs cfg) w1 in
              case New_store (pf_aws_config pf) (pf_s3 pf) (Some (cf_S3 cfg)) of
                Inl e \<Rightarrow> (Inl (Err_wrap ''create summary store: %w'' [] e), w2)
              | Inr store \<Rightarrow>
                  (Inr (cfg, store),
                   log_at L_Info ''rabbitmq connectivity probe started'' (probe_attrs cfg) w2))))"

section \<open>The health endpoint\<close>

record health_response =
  hr_status :: int
  hr_content_type :: string
  hr_body :: string

text \<open>
  The mux's only pattern is \<open>/health\<close>; \<^const>\<open>None\<close> stands for the mux's own answer to any other
  path. The version goes into the body as it is.
\<close>

definition newHealthMux :: "build_info \<Rightarrow> bool \<Rightarrow> string \<Rightarrow> health_response option" where
  \<open>newHealthMux bi ready url_path =
     (if url_path = ''/health'' then
        Some (if ready then
            \<lparr>hr_status = 200, hr_content_type = ''application/json'',
             hr_body = ''{"status":"ok","version":"'' @ bi_Version bi @ ''"}'' @ [CHR 0x0A]\<rparr>
          else
            \<lparr>hr_status = 503, hr_content_type = ''application/json'',
             hr_body = ''{"status":"starting","version":"'' @ bi_Version bi @ ''"}'' @ [CHR 0x0A]\<rparr>)
      else None)\<close>

section \<open>The goroutines\<close>

text \<open>
  After the start three goroutines run beside each other: the consumer's \<open>Run\<close> on the main one, the
  probe's \<open>Run\<close>, and the health server. They share the context, which only the signal ends, and the
  flag \<open>ready\<close>, which only the probe sets and only the health server reads; so each keeps its own
  world, and a step of the program is an iteration of one of them, in any order. When \<open>Run\<close> has
  returned on the main goroutine the process ends, wherever the other two are.
\<close>

record server =
  sv_consumer :: "(run_state, run_result) iter"
  sv_probe :: "(probe_state, world) iter"
  sv_ready :: bool
  sv_serving :: bool
  sv_answers :: "health_response option list"
  sv_warnings :: "go_error list"

definition server_init ::
    "'aws platform \<Rightarrow> config \<Rightarrow> client \<Rightarrow> world \<Rightarrow> server" where
  "server_init pf cfg store w =
     \<lparr>sv_consumer = Again (run_start (server_consumer pf cfg store) w),
      sv_probe = Again (probe_start (newProbe (cf_RabbitMQ cfg)) w),
      sv_ready = False, sv_serving = True, sv_answers = [], sv_warnings = []\<rparr>"

text \<open>The callback given to the probe stores into \<open>ready\<close>; in the trace that is \<^const>\<open>Ev_ready\<close>.\<close>

fun probe_trace :: "(probe_state, world) iter \<Rightarrow> event list" where
  "probe_trace (Again st) = w_trace (ps_world st)"
| "probe_trace (Return w) = w_trace w"
| "probe_trace Block = []"

text \<open>\<open>http.ErrServerClosed\<close> is not reported.\<close>

definition ErrServerClosed :: go_error where
  "ErrServerClosed = Err_new ''http: Server closed''"

datatype server_label = Do_consumer | Do_probe | Do_request string | Do_listen_end go_error

definition server_do ::
    "'aws platform \<Rightarrow> build_info \<Rightarrow> config \<Rightarrow> client \<Rightarrow> check_sched \<Rightarrow> server_label \<Rightarrow> server \<Rightarrow>
     server option" where
  "server_do pf bi cfg store sched l s =
     (case sv_consumer s of
        Return r \<Rightarrow> None
      | main \<Rightarrow>
          (case l of
             Do_consumer \<Rightarrow>
               (case main of
                  Again st \<Rightarrow> Some (s\<lparr>sv_consumer :=
                    run_step (pf_outside pf) (server_consumer pf cfg store) (signal_context pf) st\<rparr>)
                | _ \<Rightarrow> None)
           | Do_probe \<Rightarrow>
               (case sv_probe s of
                  Again ps \<Rightarrow>
                    (let r = probe_step (newProbe (cf_RabbitMQ cfg)) sched (Some (emit Ev_ready))
                           (signal_context pf) ps;
                         new = drop (length (w_trace (ps_world ps))) (probe_trace r)
                     in Some (s\<lparr>sv_probe := r, sv_ready := sv_ready s \<or> Ev_ready \<in> set new\<rparr>))
                | _ \<Rightarrow> None)
           | Do_request url_path \<Rightarrow>
               if sv_serving s then
                 Some (s\<lparr>sv_answers := sv_answers s @ [newHealthMux bi (sv_ready s) url_path]\<rparr>)
               else None
           | Do_listen_end e \<Rightarrow>
               if sv_serving s then
                 Some (s\<lparr>sv_serving := False,
                   sv_warnings := sv_warnings s @ (if e \<noteq> ErrServerClosed then [e] else [])\<rparr>)
               else None))"

inductive server_reaches ::
    "'aws platform \<Rightarrow> build_info \<Rightarrow> config \<Rightarrow> client \<Rightarrow> check_sched \<Rightarrow> server \<Rightarrow> server \<Rightarrow> bool"
  for pf bi cfg store sched s where
  init: "server_reaches pf bi cfg store sched s s"
| step: "server_reaches pf bi cfg store sched s t \<Longrightarrow> server_do pf bi cfg store sched l t = Some u \<Longrightarrow>
    server_reaches pf bi cfg store sched s u"

section \<open>The program\<close>

text \<open>
  An order of the steps after the start; a step that is not possible is skipped. Then what \<open>run\<close>
  returns when the consumer has (closing the store does nothing), and what \<open>main\<close> makes of it.
\<close>

fun server_run ::
    "'aws platform \<Rightarrow> build_info \<Rightarrow> config \<Rightarrow> client \<Rightarrow> check_sched \<Rightarrow> server_label list \<Rightarrow> server \<Rightarrow>
     server" where
  "server_run pf bi cfg store sched [] s = s"
| "server_run pf bi cfg store sched (l # ls) s =
     server_run pf bi cfg store sched ls
       (case server_do pf bi cfg store sched l s of None \<Rightarrow> s | Some t \<Rightarrow> t)"

fun run_returns :: "run_result \<Rightarrow> run_result" where
  "run_returns (Some e, w) = (Some (Err_wrap ''run consumer: %w'' [] e), w)"
| "run_returns (None, w) = (None, log_at L_Info ''shutting down'' [] w)"

text \<open>The process was killed by the signal, has exited with a status, or still runs.\<close>

datatype process = Killed | Exited int world | Running server

fun main_exit :: "run_result \<Rightarrow> process" where
  "main_exit (Some e, w) = Exited 1 (log_at L_Error ''fatal error'' [At_err e] w)"
| "main_exit (None, w) = Exited 0 w"

definition server_main ::
    "'aws platform \<Rightarrow> build_info \<Rightarrow> check_sched \<Rightarrow> server_label list \<Rightarrow> world \<Rightarrow> process" where
  "server_main pf bi sched ls w =
     (case server_start pf bi w of
        None \<Rightarrow> Killed
      | Some (Inl e, w1) \<Rightarrow> main_exit (Some e, w1)
      | Some (Inr (cfg, store), w1) \<Rightarrow>
          (let s = server_run pf bi cfg store sched ls (server_init pf cfg store w1)
           in case sv_consumer s of
                Return r \<Rightarrow> main_exit (run_returns r)
              | _ \<Rightarrow> Running s))"

section \<open>The production consumer keeps its parts' contracts\<close>

interpretation server_parts: consumer_parts "server_consumer pf cfg store" "pf_outside pf"
  for pf :: "'aws platform" and cfg store
proof -
  note fields = server_consumer_def New_consumer_def newConsumer_def consumer.select_convs option.case
  show "consumer_parts (server_consumer pf cfg store)"
  proof (intro consumer_parts.intro consumer_parts_axioms.intro)
    show "summary_reader (cs_summaries (server_consumer pf cfg store))"
      unfolding fields by (rule store_reader.summary_reader_axioms)
    show "summary_publisher (cs_publisher (server_consumer pf cfg store))"
      unfolding fields server_publisher_def by (rule gotosocial.summary_publisher_axioms)
    show "dialer (cs_dial (server_consumer pf cfg store))"
      unfolding fields by (rule amqp.dialer_axioms)
    show "sleeper (cs_sleep (server_consumer pf cfg store))"
      unfolding fields by (rule timer.sleeper_axioms)
    fix rw
    assume "cs_rewriter (server_consumer pf cfg store) = Some rw"
    then show "summary_rewriter rw"
      unfolding fields
      by (auto simp: server_rewriter_def intro: ollama_rewriter.summary_rewriter_axioms split: if_splits)
  qed
qed

end
