(* ===== verification/Consumer_Properties.thy ===== *)
theory Consumer_Properties
  imports Server Messenger_Properties Rewriter_Properties
begin

text \<open>
  The properties of \<open>internal/rabbitmq/session.go\<close> and \<open>consumer.go\<close>, for the consumer that
  \<open>cmd/server\<close> builds: it reads from the summary store, rewrites with Ollama and publishes on
  GoToSocial.
\<close>

section \<open>One delivery\<close>

lemma settle_effects:
  "effects (settle al c sess d w) = effects w @
     (if se_closed sess then [] else [settle_event c sess d (w_clock (tick w))])"
  by (auto simp: settle_def ctx_err_def Let_def ack_def nack_def log_failed_def
      logSettlementFailed_def amqp_call_def settle_event_def effects_emit trace_simps
      split: prod.splits option.splits)

lemma settle_settled:
  "settlements (settle al c sess d w) = settlements w @
     (if se_closed sess then [] else [settle_event c sess d (w_clock (tick w))])"
proof (cases "se_closed sess")
  case True
  then show ?thesis
    by (simp add: settle_def ctx_err_def Let_def ack_def nack_def frame_simps trace_simps)
qed (simp add: settle_settlements)

text \<open>
  Property C1. Every delivery is settled exactly once, on every path of the pipeline, and it is the
  last thing that is done for it: acknowledged when the context is not done at that moment, given
  back for redelivery when it is. On a closed session nothing is sent.
\<close>

theorem delivery_settled_once:
  "\<exists>t. w_clock w \<le> t \<and>
     t \<le> w_clock (handleDelivery (pf_outside pf) (server_consumer pf cfg store) c sess d w) \<and>
     settlements (handleDelivery (pf_outside pf) (server_consumer pf cfg store) c sess d w) =
       settlements w @ (if se_closed sess then [] else
         [Ev_amqp (se_conn sess) (if ctx_state c t = None then Ack (d_tag d) False
                                  else Nack (d_tag d) False True)])"
proof -
  let ?ou = "pf_outside pf" and ?cs = "server_consumer pf cfg store"
  obtain oc w1 where p: "pipeline ?ou ?cs c d w = (oc, w1)" by force
  then have e: "extends pipeline_event w w1"
    using server_parts.pipeline_extends [of w pf cfg store c d] by simp
  have h: "handleDelivery ?ou ?cs c sess d w = announce ?ou d oc (settle (ou_amqp ?ou) c sess d w1)"
    using p by (simp add: handleDelivery_refines)
  have "w_clock (tick w1) \<le> w_clock (settle (ou_amqp ?ou) c sess d w1)"
    using extends_clock [OF settle_call_extends(1), of "tick w1"]
      extends_clock [OF settle_call_extends(2), of "tick w1"]
    by (auto simp: settle_def ctx_err_def Let_def frame_simps)
  then show ?thesis
    unfolding h announce_fields settle_settled settlements_extends [OF e] settle_event_def
    using extends_clock [OF e] by (intro exI [of _ "w_clock (tick w1)"]) (simp add: frame_simps)
qed

subsection \<open>Everything a delivery does to the outside\<close>

definition signal_gets :: "'aws platform \<Rightarrow> client \<Rightarrow> delivery \<Rightarrow> event list" where
  "signal_gets pf store d =
     (case decodeStock (pf_outside pf) (d_body d) of
        Inl e \<Rightarrow> []
      | Inr i \<Rightarrow>
          (case BuildKey (pf_unicode pf) (cl_prefix store) (st_Exchange i) (st_Symbol i) of
             Inl e \<Rightarrow> []
           | Inr key \<Rightarrow> [Ev_get (cl_bucket store) key]))"

text \<open>At most one request to Ollama; \<open>t\<close> is the time at which the prompt is dated.\<close>

definition rewrite_posts :: "'aws platform \<Rightarrow> config \<Rightarrow> string \<Rightarrow> int \<Rightarrow> event list" where
  "rewrite_posts pf cfg text t =
     (let ol = New_ollama (pf_http pf) (cf_Ollama cfg) in
      case marshal_request (ollama_request ol (buildPrompt (pf_date pf t) text)) of
        Inl e \<Rightarrow> []
      | Inr payload \<Rightarrow>
          if ol_Enabled (cf_Ollama cfg) \<and> url_parse (o_endpoint ol) \<noteq> None then
            [Ev_http \<lparr>req_method = ''POST'', req_url = o_endpoint ol,
               req_headers = [(''Content-Type'', ''application/json'')],
               req_body = Json_body payload\<rparr>]
          else [])"

text \<open>\<open>k\<close> attempts to post the text, with the sleeps in between.\<close>

definition publish_posts :: "'aws platform \<Rightarrow> config \<Rightarrow> string \<Rightarrow> nat \<Rightarrow> event list" where
  "publish_posts pf cfg text k =
     (let p = NewGoToSocialPublisher (pf_http pf) (cf_GotoSocialInstance cfg) (cf_GotoSocialUser cfg)
            (cf_GotoSocialToken cfg) (cf_GotoSocialAudience cfg) (cf_GotoSocialRecipient cfg);
          post = Ev_http (status_request p (form_encode (status_form p text)))
      in take (2 * k - 1) [post, Ev_sleep 500000000, post, Ev_sleep 1000000000, post])"

lemma effects_silent: "w_trace w' = w_trace w \<Longrightarrow> effects w' = effects w"
  by (simp add: effects_def)

lemma Rewrite_effects:
  "effects (snd (Rewrite le date ol c text w)) = effects w @
     (case marshal_request (ollama_request ol (buildPrompt (date (w_clock w)) text)) of
        Inl e \<Rightarrow> []
      | Inr payload \<Rightarrow> if url_parse (o_endpoint ol) = None then [] else
          [Ev_http \<lparr>req_method = ''POST'', req_url = o_endpoint ol,
             req_headers = [(''Content-Type'', ''application/json'')], req_body = Json_body payload\<rparr>])"
  by (auto simp: Rewrite_def Let_def split_beta trace_simps split: sum.splits)

lemma Publish_effects:
  "\<exists>k \<le> 3. (k = 0 \<longleftrightarrow> url_parse (gp_instance p @ ''/api/v1/statuses'') = None) \<and>
     effects (snd (Publish le p c text w)) = effects w @ take (2 * k - 1)
     [Ev_http (status_request p (form_encode (status_form p text))), Ev_sleep 500000000,
      Ev_http (status_request p (form_encode (status_form p text))), Ev_sleep 1000000000,
      Ev_http (status_request p (form_encode (status_form p text)))]"
proof (cases "url_parse (gp_instance p @ ''/api/v1/statuses'') = None")
  case True
  then have "Publish le p c text w = (Some (Err_wrap ''create request: %w'' []
      (le_url le (gp_instance p @ ''/api/v1/statuses''))), w)"
    by (simp add: Publish_eq numeral_3_eq_3 Let_def)
  then show ?thesis using True by (intro exI [of _ 0]) simp
next
  case False
  define good where "good = (\<lambda>k. good_answer (gp_client p c (w_steps w + 2 * k)
      (status_request p (form_encode (status_form p text)))))"
  have "attempts_made good \<le> 3" and "attempts_made good \<noteq> 0" by (simp_all add: attempts_made_def)
  moreover have "schedule e 3 good = take (2 * attempts_made good - 1)
      [e, Ev_sleep 500000000, e, Ev_sleep 1000000000, e]" for e
    by (simp add: numeral_3_eq_3 attempts_made_def maxPublishRetries_def publishBackoff_values)
  ultimately show ?thesis
    using publish_loop_schedule [OF False order_refl good_def, of le] False
    by (auto simp: Publish_eq split_beta simp del: publish_loop.simps schedule.simps)
qed

lemma server_consumer_fields [simp]:
  "cs_cfg (server_consumer pf cfg store) = cf_RabbitMQ cfg"
  "cs_summaries (server_consumer pf cfg store) =
     (\<lambda>(c, ex, sy). ReadSummary (pf_unicode pf) store c ex sy)"
  "cs_rewriter (server_consumer pf cfg store) = server_rewriter pf cfg"
  "cs_publisher (server_consumer pf cfg store) = server_publisher pf cfg"
  "cs_dial (server_consumer pf cfg store) = dialAMQP (ou_amqp (pf_outside pf))"
  "cs_sleep (server_consumer pf cfg store) = sleepContext"
  by (simp_all add: server_consumer_def New_consumer_def newConsumer_def)

lemma rewrite_text_effects:
  "\<exists>t. effects (snd (rewrite_text (server_consumer pf cfg store) c attrs msg w)) =
     effects w @ rewrite_posts pf cfg msg t"
proof -
  have "effects (snd (rewrite_text (server_consumer pf cfg store) c attrs msg w)) =
      (case server_rewriter pf cfg of None \<Rightarrow> effects w
       | Some rw \<Rightarrow> effects (snd (rw (c, msg) w)))"
    by (auto simp: rewrite_text_def trace_simps split: option.splits prod.splits sum.splits)
  then show ?thesis
    by (rule_tac exI [of _ "w_clock w"])
      (auto simp: server_rewriter_def Rewrite_effects rewrite_posts_def Let_def split: sum.splits)
qed

text \<open>What is published for a text: Ollama's report, when it is enabled and succeeds, or the text.\<close>

definition published_choice :: "'aws platform \<Rightarrow> config \<Rightarrow> ctx \<Rightarrow> string \<Rightarrow> world \<Rightarrow> string" where
  "published_choice pf cfg c msg w =
     (if ol_Enabled (cf_Ollama cfg) then
        (case fst (Rewrite (pf_errors pf) (pf_date pf) (New_ollama (pf_http pf) (cf_Ollama cfg))
            c msg w) of
           Inl e \<Rightarrow> msg
         | Inr report \<Rightarrow> report)
      else msg)"

lemma Rewrite_report_trimmed:
  assumes "fst (Rewrite le date ol c msg w) = Inr report"
  shows "report \<noteq> [] \<and> trim_space report = report \<and>
    (0 < o_maxOutputChars ol \<longrightarrow> int (rune_count report) \<le> o_maxOutputChars ol)"
  using Rewrite_Inr [OF assms] by (auto simp: read_report_Inr_iff accept_report_Inr_iff)

lemma rewrite_text_choice:
  "fst (fst (rewrite_text (server_consumer pf cfg store) c attrs msg w)) = published_choice pf cfg c msg w"
proof (cases "ol_Enabled (cf_Ollama cfg)")
  case True
  obtain r v where r: "Rewrite (pf_errors pf) (pf_date pf) (New_ollama (pf_http pf) (cf_Ollama cfg)) c msg w
      = (r, v)" by force
  then show ?thesis
    using True Rewrite_report_trimmed [of "pf_errors pf" "pf_date pf" "New_ollama (pf_http pf) (cf_Ollama cfg)"
      c msg w]
    by (cases r) (simp_all add: rewrite_text_def server_rewriter_def published_choice_def)
qed (simp add: rewrite_text_def server_rewriter_def published_choice_def)

text \<open>The publisher of the program, and where it posts.\<close>

abbreviation server_gotosocial :: "'aws platform \<Rightarrow> config \<Rightarrow> gotosocial_publisher" where
  "server_gotosocial pf cfg \<equiv> NewGoToSocialPublisher (pf_http pf) (cf_GotoSocialInstance cfg)
     (cf_GotoSocialUser cfg) (cf_GotoSocialToken cfg) (cf_GotoSocialAudience cfg)
     (cf_GotoSocialRecipient cfg)"

abbreviation status_url :: "config \<Rightarrow> string" where
  "status_url cfg \<equiv> trim_suffix (cf_GotoSocialInstance cfg) ''/'' @ ''/api/v1/statuses''"

lemma publish_summary_effects:
  assumes "publish_summary (server_consumer pf cfg store) c attrs msg w = (oc, w')"
  shows "\<exists>t k. k \<le> 3 \<and> (k = 0 \<longleftrightarrow> url_parse (status_url cfg) = None) \<and>
    effects w' = effects w @ rewrite_posts pf cfg msg t @
      publish_posts pf cfg (published_choice pf cfg c msg w) k \<and>
    (case oc of Published s ch r \<Rightarrow> s = msg \<and> ch = published_choice pf cfg c msg w
       | Unpublished e \<Rightarrow> True | _ \<Rightarrow> False)"
proof -
  let ?cs = "server_consumer pf cfg store"
  obtain chosen rewritten w1 where r: "rewrite_text ?cs c attrs msg w = ((chosen, rewritten), w1)"
    by (metis surj_pair)
  then have ch: "chosen = published_choice pf cfg c msg w"
    using rewrite_text_choice [of pf cfg store c attrs msg w] by simp
  obtain t where t: "effects w1 = effects w @ rewrite_posts pf cfg msg t"
    using rewrite_text_effects [of pf cfg store c attrs msg w] r by auto
  obtain e w2 where p: "server_publisher pf cfg (c, chosen) w1 = (e, w2)" by force
  let ?p = "NewGoToSocialPublisher (pf_http pf) (cf_GotoSocialInstance cfg) (cf_GotoSocialUser cfg)
    (cf_GotoSocialToken cfg) (cf_GotoSocialAudience cfg) (cf_GotoSocialRecipient cfg)"
  have inst: "gp_instance ?p @ ''/api/v1/statuses'' = status_url cfg" by (simp add: NewGoToSocialPublisher_def)
  from Publish_effects [of ?p "pf_errors pf" c chosen w1] obtain k where
    k: "k \<le> 3" "k = 0 \<longleftrightarrow> url_parse (status_url cfg) = None"
      "effects w2 = effects w1 @ publish_posts pf cfg chosen k"
    using p unfolding inst by (auto simp: server_publisher_def publish_posts_def Let_def)
  show ?thesis
    using assms r p t k ch
    by (intro exI [of _ t] exI [of _ k])
      (auto simp: publish_summary_def trace_simps split: option.splits)
qed

text \<open>How far the work on a delivery comes, with what was done to the outside until then.\<close>

lemma pipeline_stages:
  assumes "pipeline (pf_outside pf) (server_consumer pf cfg store) c d w = (oc, w1)"
  obtains (interrupted) "ctx_state c (w_clock (tick w)) \<noteq> None" "oc = Interrupted"
      "effects w1 = effects w"
  | (undecodable) e where "ctx_state c (w_clock (tick w)) = None"
      "decodeStock (pf_outside pf) (d_body d) = Inl e" "oc = Undecodable e" "effects w1 = effects w"
  | (unavailable) i e w2 where "ctx_state c (w_clock (tick w)) = None"
      "decodeStock (pf_outside pf) (d_body d) = Inr i"
      "ReadSummary (pf_unicode pf) store c (st_Exchange i) (st_Symbol i) (tick w) = (Inl e, w2)"
      "oc = Unavailable e" "effects w1 = effects w @ signal_gets pf store d"
  | (blank) i summary w2 where "ctx_state c (w_clock (tick w)) = None"
      "decodeStock (pf_outside pf) (d_body d) = Inr i"
      "ReadSummary (pf_unicode pf) store c (st_Exchange i) (st_Symbol i) (tick w) = (Inr summary, w2)"
      "trim_space summary = []" "oc = Blank_summary" "effects w1 = effects w @ signal_gets pf store d"
  | (complete) i summary w2 where "ctx_state c (w_clock (tick w)) = None"
      "decodeStock (pf_outside pf) (d_body d) = Inr i"
      "ReadSummary (pf_unicode pf) store c (st_Exchange i) (st_Symbol i) (tick w) = (Inr summary, w2)"
      "trim_space summary \<noteq> []" "effects w2 = effects w @ signal_gets pf store d"
      "publish_summary (server_consumer pf cfg store) c (signal_attrs d i) (trim_space summary) w2 =
         (oc, w1)"
proof (cases "ctx_state c (w_clock (tick w))")
  case (Some e)
  then show ?thesis using assms interrupted by (auto simp: pipeline_def ctx_err_def trace_simps)
next
  case go: None
  show ?thesis
  proof (cases "decodeStock (pf_outside pf) (d_body d)")
    case (Inl e)
    then show ?thesis using assms go undecodable by (auto simp: pipeline_def ctx_err_def trace_simps)
  next
    case (Inr i)
    obtain r w2 where r: "ReadSummary (pf_unicode pf) store c (st_Exchange i) (st_Symbol i) (tick w) =
        (r, w2)" by force
    then have e2: "effects w2 = effects w @ signal_gets pf store d"
      using ReadSummary_trace [of "pf_unicode pf" store c "st_Exchange i" "st_Symbol i" "tick w"] Inr
      by (auto simp: signal_gets_def effects_def frame_simps split: sum.splits)
    show ?thesis
    proof (cases r)
      case (Inl e)
      then show ?thesis
        using assms go Inr r e2 unavailable by (auto simp: pipeline_def ctx_err_def trace_simps)
    next
      case sm: (Inr summary)
      then show ?thesis
        using assms go Inr r e2 blank complete
        by (cases "trim_space summary = []") (auto simp: pipeline_def ctx_err_def trace_simps)
    qed
  qed
qed

text \<open>
  Property C6. All that handling a delivery does to the outside, in order: nothing at all when it was
  interrupted or could not be decoded; one read of the object that its identity names; then, for a
  summary that is not blank, at most one request to Ollama with that summary, and at most three
  posts of one and the same text, that of the result when it was published; last the settlement.
\<close>

theorem delivery_effects:
  "\<exists>t u msg chosen k. k \<le> 3 \<and>
     effects (handleDelivery (pf_outside pf) (server_consumer pf cfg store) c sess d w) = effects w @
       (case fst (pipeline (pf_outside pf) (server_consumer pf cfg store) c d w) of
          Interrupted \<Rightarrow> []
        | Undecodable e \<Rightarrow> []
        | Unavailable e \<Rightarrow> signal_gets pf store d
        | Blank_summary \<Rightarrow> signal_gets pf store d
        | Unpublished e \<Rightarrow> signal_gets pf store d @ rewrite_posts pf cfg msg t @
            publish_posts pf cfg chosen k
        | Published s ch r \<Rightarrow> signal_gets pf store d @ rewrite_posts pf cfg s t @
            publish_posts pf cfg ch k) @
       (if se_closed sess then [] else [settle_event c sess d u])"
proof -
  let ?ou = "pf_outside pf" and ?cs = "server_consumer pf cfg store"
  obtain oc w1 where p: "pipeline ?ou ?cs c d w = (oc, w1)" by force
  have "\<exists>t msg chosen k. k \<le> 3 \<and> effects w1 = effects w @
       (case oc of
          Interrupted \<Rightarrow> []
        | Undecodable e \<Rightarrow> []
        | Unavailable e \<Rightarrow> signal_gets pf store d
        | Blank_summary \<Rightarrow> signal_gets pf store d
        | Unpublished e \<Rightarrow> signal_gets pf store d @ rewrite_posts pf cfg msg t @
            publish_posts pf cfg chosen k
        | Published s ch r \<Rightarrow> signal_gets pf store d @ rewrite_posts pf cfg s t @
            publish_posts pf cfg ch k)"
  proof (cases rule: pipeline_stages [OF p])
    case (5 i summary w2)
    from publish_summary_effects [OF 5(6)] obtain t k where "k \<le> 3"
      "effects w1 = effects w2 @ rewrite_posts pf cfg (trim_space summary) t @
         publish_posts pf cfg (published_choice pf cfg c (trim_space summary) w2) k"
      "case oc of Published s ch r \<Rightarrow> s = trim_space summary \<and>
           ch = published_choice pf cfg c (trim_space summary) w2
         | Unpublished e \<Rightarrow> True | _ \<Rightarrow> False" by blast
    then show ?thesis
      using 5(5) by (intro exI [of _ t] exI [of _ "trim_space summary"]
        exI [of _ "published_choice pf cfg c (trim_space summary) w2"] exI [of _ k])
        (auto split: outcome.splits)
  qed auto
  then show ?thesis
    using p by (simp add: handleDelivery_refines announce_fields settle_effects) blast
qed

section \<open>Waiting\<close>

text \<open>
  Property C7. A retry timer never delays a shutdown: a wait ends at the end of its time or at the moment
  the context is done, whichever is first (at once when that has passed already); it returns nil only
  after its full time, and an error only when that is the context's.
\<close>

theorem sleep_is_cancel_aware:
  "case sleepContext c d w of (r, w') \<Rightarrow>
     (let wake = w_clock w + max 0 d;
          stop = (case ctx_done_at c of None \<Rightarrow> wake | Some t \<Rightarrow> min wake t)
      in w_trace w' = w_trace w @ [Ev_sleep d] \<and>
         (case r of
            None \<Rightarrow> wake \<le> w_clock w' \<and> w_clock w' = max (w_clock (tick w)) stop
          | Some e \<Rightarrow> ctx_state c (w_clock w') = Some e \<and>
              w_clock w' = max (w_clock (tick w)) stop + int (w_latency w (Suc (w_steps w)))))"
proof -
  have at: "w_clock w1 = max (w_clock (tick u)) (case b of None \<Rightarrow> a | Some t \<Rightarrow> min a t)"
    if "select2 (Some a) b u = Some (x, w1)" for a b u x w1
    using that by (auto simp: select2_def Let_def frame_simps split: option.splits if_splits)
  have tr: "w_trace (snd (sleepContext c d w)) = w_trace w @ [Ev_sleep d]"
    by (rule timer.sleep_trace)
  show ?thesis
  proof (rule sleepContext_cases [of c d w])
    fix w1
    assume "sleepContext c d w = (None, w1)"
      and s: "select2 (Some (w_clock w + max 0 d)) (ctx_done_at c) (emit (Ev_sleep d) w) = Some (True, w1)"
    then show ?thesis
      using tr at [OF s] select2_left [OF s] by (simp add: Let_def frame_simps)
  next
    fix e w1
    assume "sleepContext c d w = (Some e, tick w1)" and "ctx_state c (w_clock (tick w1)) = Some e"
      and s: "select2 (Some (w_clock w + max 0 d)) (ctx_done_at c) (emit (Ev_sleep d) w) = Some (False, w1)"
    then show ?thesis
      using tr at [OF s] select2_steps [OF s] extends_latency [OF select2_extends [OF s]]
      by (simp add: Let_def frame_simps)
  qed
qed

end
