(* ===== verification/Run_Properties.thy ===== *)
theory Run_Properties
  imports Consumer_Properties Store_Properties
begin

text \<open>
  The properties of the loops of \<open>internal/rabbitmq/consumer.go\<close> and of the session they use: every
  delivery is settled in order, connections are released, a cancelled context ends the consumer.
\<close>

section \<open>What is published\<close>

text \<open>The requests among some events whose body is a form: those of the publisher.\<close>

definition form_posts :: "event list \<Rightarrow> http_request set" where
  "form_posts es = {rq. Ev_http rq \<in> set es \<and> (\<exists>b. req_body rq = Form_body b)}"

lemma form_posts_simps [simp]:
  "form_posts [] = {}" "form_posts (es @ fs) = form_posts es \<union> form_posts fs"
  "form_posts (Ev_http rq # es) =
     (case req_body rq of Form_body b \<Rightarrow> insert rq (form_posts es) | _ \<Rightarrow> form_posts es)"
  "form_posts (Ev_sleep d # es) = form_posts es" "form_posts (Ev_get k b # es) = form_posts es"
  "form_posts (Ev_amqp n op # es) = form_posts es"
  by (auto simp: form_posts_def split: http_body.splits)

lemma form_posts_effects:
  assumes "w_trace w' = w_trace w @ es" and "effects w' = effects w @ fs"
  shows "form_posts es = form_posts fs"
proof -
  have "fs = filter (\<lambda>e. \<not> is_log e) es" using assms by (simp add: effects_def)
  then show ?thesis by (auto simp: form_posts_def)
qed

lemma form_posts_stages:
  "form_posts (signal_gets pf store d) = {}" "form_posts (rewrite_posts pf cfg msg t) = {}"
  "form_posts [settle_event c sess d t] = {}"
  by (simp_all add: signal_gets_def rewrite_posts_def settle_event_def Let_def split: sum.splits)

lemma form_posts_publish:
  assumes "k \<le> 3"
  shows "form_posts (publish_posts pf cfg msg k) =
    (if k = 0 then {} else {status_request (server_gotosocial pf cfg)
       (form_encode (status_form (server_gotosocial pf cfg) msg))})"
proof -
  let ?rq = "status_request (server_gotosocial pf cfg)
    (form_encode (status_form (server_gotosocial pf cfg) msg))"
  have "\<exists>b. req_body ?rq = Form_body b" by (simp add: status_request_def)
  then have post: "form_posts (Ev_http ?rq # es) = insert ?rq (form_posts es)" for es by auto
  from assms consider "k = 0" | "k = 1" | "k = 2" | "k = 3" by linarith
  then show ?thesis
    by cases (simp_all add: publish_posts_def Let_def numeral_eq_Suc post del: form_posts_simps(3))
qed

lemma published_choice_good:
  assumes "msg \<noteq> []" and "trim_space msg = msg"
  shows "published_choice pf cfg c msg w \<noteq> [] \<and>
    trim_space (published_choice pf cfg c msg w) = published_choice pf cfg c msg w \<and>
    (published_choice pf cfg c msg w = msg \<or> ol_MaxOutputChars (cf_Ollama cfg) \<le> 0 \<or>
     int (rune_count (published_choice pf cfg c msg w)) \<le> ol_MaxOutputChars (cf_Ollama cfg))"
proof (cases "ol_Enabled (cf_Ollama cfg)")
  case True
  have limit: "o_maxOutputChars (New_ollama (pf_http pf) (cf_Ollama cfg)) =
      ol_MaxOutputChars (cf_Ollama cfg)" by (simp add: New_ollama_def)
  show ?thesis
  proof (cases "fst (Rewrite (pf_errors pf) (pf_date pf) (New_ollama (pf_http pf) (cf_Ollama cfg))
      c msg w)")
    case (Inr report)
    then have "published_choice pf cfg c msg w = report" using True by (simp add: published_choice_def)
    with Rewrite_report_trimmed [OF Inr] limit show ?thesis by auto
  qed (use True assms in \<open>simp add: published_choice_def\<close>)
qed (use assms in \<open>simp add: published_choice_def\<close>)

text \<open>
  Property C15. What handling a delivery posts to GoToSocial. Nothing when the context is done, the
  delivery cannot be decoded, the summary cannot be read or is blank. Else every post carries one
  text: Ollama's report when it is enabled and succeeds, and the trimmed summary when it fails or is
  not enabled, so a failing rewriter never costs a publication; and that text is not blank, has no
  surrounding white space, and is the summary or within the configured number of characters.
\<close>

theorem published_text:
  "\<exists>es. w_trace (handleDelivery (pf_outside pf) (server_consumer pf cfg store) c sess d w) =
       w_trace w @ es \<and>
     (case (ctx_state c (w_clock (tick w)), decodeStock (pf_outside pf) (d_body d)) of
        (None, Inr i) \<Rightarrow>
          (case ReadSummary (pf_unicode pf) store c (st_Exchange i) (st_Symbol i) (tick w) of
             (Inr summary, w2) \<Rightarrow>
               if trim_space summary = [] then form_posts es = {}
               else (\<exists>chosen.
                 form_posts es =
                   (if url_parse (trim_suffix (cf_GotoSocialInstance cfg) ''/'' @ ''/api/v1/statuses'') = None
                    then {}
                    else {status_request (server_gotosocial pf cfg)
                      (form_encode (status_form (server_gotosocial pf cfg) chosen))}) \<and>
                 chosen =
                   (if ol_Enabled (cf_Ollama cfg) then
                      (case fst (Rewrite (pf_errors pf) (pf_date pf)
                         (New_ollama (pf_http pf) (cf_Ollama cfg)) c (trim_space summary) w2) of
                         Inl e \<Rightarrow> trim_space summary
                       | Inr report \<Rightarrow> report)
                    else trim_space summary) \<and>
                 chosen \<noteq> [] \<and> trim_space chosen = chosen \<and>
                 (chosen = trim_space summary \<or> ol_MaxOutputChars (cf_Ollama cfg) \<le> 0 \<or>
                  int (rune_count chosen) \<le> ol_MaxOutputChars (cf_Ollama cfg)))
           | _ \<Rightarrow> form_posts es = {})
      | _ \<Rightarrow> form_posts es = {})" (is "\<exists>es. ?T es \<and> ?Q es")
proof -
  let ?ou = "pf_outside pf" and ?cs = "server_consumer pf cfg store"
  let ?h = "handleDelivery ?ou ?cs c sess d w"
  obtain oc w1 where p: "pipeline ?ou ?cs c d w = (oc, w1)" by force
  have "extends handler_event w ?h"
    by (rule server_parts.handleDelivery_extends)
  then obtain es where es: "w_trace ?h = w_trace w @ es" using extends_trace by blast
  have eff: "effects ?h = effects w1 @
      (if se_closed sess then [] else [settle_event c sess d (w_clock (tick w1))])"
    using p by (simp add: handleDelivery_refines announce_fields settle_effects)
  have posts: "form_posts es = form_posts fs" if "effects w1 = effects w @ fs" for fs
  proof -
    have "effects ?h = effects w @ (fs @
        (if se_closed sess then [] else [settle_event c sess d (w_clock (tick w1))]))"
      using eff that by simp
    from form_posts_effects [OF es this] show ?thesis
      by (simp add: form_posts_stages)
  qed
  have "?Q es"
  proof (cases rule: pipeline_stages [OF p])
    case 1
    then obtain e where "ctx_state c (w_clock (tick w)) = Some e" by auto
    then show ?thesis using posts [of "[]"] 1(3) by simp
  next
    case (5 i summary w2)
    let ?ch = "published_choice pf cfg c (trim_space summary) w2"
    from publish_summary_effects [OF 5(6)] 5(5) obtain t k where
      k: "k \<le> 3" "k = 0 \<longleftrightarrow> url_parse (status_url cfg) = None"
        "effects w1 = effects w @ signal_gets pf store d @ rewrite_posts pf cfg (trim_space summary) t @
          publish_posts pf cfg ?ch k" by auto
    from posts [OF k(3)] have "form_posts es = form_posts (publish_posts pf cfg ?ch k)"
      by (simp only: form_posts_simps(2) form_posts_stages Un_empty_left)
    also note form_posts_publish [OF k(1)]
    finally show ?thesis
      using 5(1-4) k(2) published_choice_good [OF 5(4) trim_space_idem, of pf cfg c w2]
      by (simp add: published_choice_def)
  qed (use posts form_posts_stages in \<open>simp_all\<close>)
  with es show ?thesis by blast
qed

text \<open>
  A delivery is decoded exactly when the protobuf message is valid and both fields are
  more than white space; the identity is their trimmed values.
\<close>

lemma decodeStock_spec:
  "decodeStock ou data = Inr i \<longleftrightarrow>
     (\<exists>s. ou_unmarshal ou data = Inr s \<and> st_Symbol i = trim_space (st_Symbol s) \<and>
        st_Exchange i = trim_space (st_Exchange s)) \<and> st_Symbol i \<noteq> [] \<and> st_Exchange i \<noteq> []"
  by (cases i) (auto simp: decodeStock_def Let_def split: sum.splits)

section \<open>A session\<close>

text \<open>
  Property C22. Closing a session releases its channel, then its connection, once. On a closed session
  closing again does nothing, cancelling does nothing, and no delivery can be settled.
\<close>

theorem session_close_final:
  "case session_close al s w of (e, s', w') \<Rightarrow>
     w_trace w' = w_trace w @
       (if se_closed s then [] else [Ev_ch_close (se_conn s), Ev_conn_close (se_conn s)]) \<and>
     session_close al s' w' = (None, s', w') \<and> cancelConsumer al s' w' = w' \<and>
     ack al s' tag w' = (Some errSessionClosed, w') \<and>
     nack al s' tag requeue w' = (Some errSessionClosed, w')"
proof -
  obtain e s' w' where r: "session_close al s w = (e, s', w')" by (metis surj_pair)
  from session_close_trace [OF r] show ?thesis
    by (simp add: r) (simp add: session_close_def cancelConsumer_def ack_def nack_def)
qed


section \<open>Consuming\<close>

text \<open>
  Property C3. While \<open>consume\<close> runs and when it returns, the deliveries that were taken from the
  session have each been settled once, in the order in which they came, and nothing else was settled.
\<close>

theorem consume_settles_in_order:
  assumes "\<not> se_closed sess"
  shows "case consume (pf_outside pf) (server_consumer pf cfg store) c n sess w of
     Again st \<Rightarrow> consume_inv (ou_amqp (pf_outside pf)) sess w st
   | Return (delivered, err, sess', w') \<Rightarrow> settled_since (ou_amqp (pf_outside pf)) sess w sess' w'
   | Block \<Rightarrow> True"
proof -
  have "consume_inv (ou_amqp (pf_outside pf)) sess w (Receiving sess False w)"
    using settled_since_start [OF assms] by simp
  from server_parts.settling.drive_inv [OF this] server_parts.settling.drive_post [OF this]
  show ?thesis by (auto simp: consume_def consume_post_def split: iter.splits)
qed

definition sample_delivery :: delivery where
  "sample_delivery = \<lparr>d_tag = 7, d_body = [], d_routing_key = ''stock.x'', d_redelivered = False\<rparr>"

text \<open>A broker that delivers one message on every connection and then closes the channel.\<close>

definition sample_amqp :: amqp_lib where
  "sample_amqp = \<lparr>al_dial = (\<lambda>_ _ _ _. None), al_channel = (\<lambda>_ _. None), al_op = (\<lambda>_ _ _. None),
     al_ch_close = (\<lambda>_ _. None), al_conn_close = (\<lambda>_ _. None),
     al_stream = (\<lambda>n i. Some (0, if i = 0 then Some sample_delivery else None))\<rparr>"

definition sample_outside :: outside where
  "sample_outside = \<lparr>ou_amqp = sample_amqp, ou_pid = 1,
     ou_unmarshal = (\<lambda>_. Inl (plain_ext ''bad message''))\<rparr>"

definition sample_session :: session where
  "sample_session = \<lparr>se_conn = 3, se_pos = 0, se_tag = ''t'', se_closed = False\<rparr>"

definition sample_platform :: "int option \<Rightarrow> unit platform" where
  "sample_platform signal = \<lparr>pf_env = sample_env, pf_parse_float = (\<lambda>_. None),
     pf_unicode = ascii_case, pf_signal = signal, pf_aws_config = (\<lambda>_ _ _. Inr ()),
     pf_s3 = (\<lambda>_ _ _ _ _ _ _. Inl missing_object),
     pf_http = (\<lambda>_ _ _ _. Inr \<lparr>resp_status = 200, resp_body = []\<rparr>),
     pf_errors = \<lparr>le_json = plain_ext, le_url = plain_ext\<rparr>, pf_date = (\<lambda>_. ''1 May 2026''),
     pf_outside = sample_outside\<rparr>"

theorem consume_settles_in_order_witness:
  "\<forall>cfg store. \<exists>w'. consume (pf_outside (sample_platform None))
      (server_consumer (sample_platform None) cfg store) open_ctx 2 sample_session calm_world =
        Return (True, Some errSessionClosed, received sample_session, w') \<and>
     settled_since sample_amqp sample_session calm_world (received sample_session) w' \<and>
     settlements w' = [Ev_amqp 3 (Ack 7 False)]"
proof (intro allI)
  fix cfg store
  let ?r = "consume (pf_outside (sample_platform None))
      (server_consumer (sample_platform None) cfg store) open_ctx 2 sample_session calm_world"
  have "\<exists>w'. ?r = Return (True, Some errSessionClosed, received sample_session, w') \<and>
      settlements w' = [Ev_amqp 3 (Ack 7 False)]"
    by (simp add: consume_def numeral_2_eq_2 receive_step_def ctx_err_def ctx_state_def open_ctx_def
        calm_world_def next_receive_def sample_platform_def sample_outside_def sample_amqp_def
        sample_session_def received_def select2_def tick_def ctx_done_at_def handleDelivery_def
        decodeStock_def sample_delivery_def settle_def ack_def amqp_call_def log_failed_def emit_def
        log_at_def settlements_def Let_def)
  moreover have "\<not> se_closed sample_session" by (simp add: sample_session_def)
  ultimately show "\<exists>w'. ?r = Return (True, Some errSessionClosed, received sample_session, w') \<and>
     settled_since sample_amqp sample_session calm_world (received sample_session) w' \<and>
     settlements w' = [Ev_amqp 3 (Ack 7 False)]"
    using consume_settles_in_order [where sess = sample_session and pf = "sample_platform None" and
      cfg = cfg and store = store and c = open_ctx and n = 2 and w = calm_world]
    by (auto simp: sample_platform_def sample_outside_def)
qed

section \<open>Run\<close>

lemma Run_outcome:
  "case Run (pf_outside pf) (server_consumer pf cfg store) c n w of
     Again st \<Rightarrow> run_open (w_trace w) st
   | Return (err, w') \<Rightarrow>
       err = None \<and> ctx_state c (w_clock w') \<noteq> None \<and> holds_open (w_trace w) {} {} w'
   | Block \<Rightarrow> True"
proof -
  have "run_open (w_trace w) (run_start (server_consumer pf cfg store) w)"
    by (simp add: run_start_def holds_open_log holds_open_start)
  from server_parts.releasing.drive_inv [OF this, of pf cfg store c n]
    server_parts.releasing.drive_post [OF this, of pf cfg store c n]
    server_parts.ending.drive_post [OF TrueI, of pf cfg store c n
      "run_start (server_consumer pf cfg store) w"]
  show ?thesis by (auto simp: Run_def run_released_def split: iter.splits)
qed

lemma Run_ends:
  assumes "lively w" and "ctx_done_at c = Some T"
    and "delivers_at_most (ou_amqp (pf_outside pf)) N"
    and "(N + 3) * nat (T - w_clock w) < n"
  shows "\<exists>w'. Run (pf_outside pf) (server_consumer pf cfg store) c n w = Return (None, w')"
proof -
  let ?s = "run_start (server_consumer pf cfg store) w"
  have "stop_inv c ?s \<and> ctx_done_at c = Some T \<and> delivers_at_most (ou_amqp (pf_outside pf)) N"
    using assms(1-3) by (simp add: run_start_def lively_def frame_simps)
  moreover have "stop_size T N ?s < n" using assms(4) by (simp add: run_start_def frame_simps)
  ultimately obtain r where
    "drive (run_step (pf_outside pf) (server_consumer pf cfg store) c) n ?s = Return r" "fst r = None"
    using server_parts.stopping.drive_returns by blast
  then show ?thesis by (cases r) (simp add: Run_def)
qed

text \<open>
  Property C2. At every moment \<open>Run\<close> holds at most the connection and the channel of its current
  session, and none between sessions; it only ever returns nil, when the context is done, and then
  everything is closed.
\<close>

theorem Run_releases:
  "case Run (pf_outside pf) (server_consumer pf cfg store) c n w of
     Again st \<Rightarrow> run_open (w_trace w) st
   | Return (err, w') \<Rightarrow>
       err = None \<and> ctx_state c (w_clock w') \<noteq> None \<and> holds_open (w_trace w) {} {} w'
   | Block \<Rightarrow> True"
  by (rule Run_outcome)

text \<open>
  Property C19. \<open>Run\<close> ends: when every step takes time, the context is done at \<open>T\<close> and no connection
  delivers more than \<open>N\<close> messages, it returns nil within a number of iterations that depends on the
  time until \<open>T\<close> and on \<open>N\<close> only.
\<close>

theorem Run_returns:
  assumes "lively w" and "ctx_done_at c = Some T"
    and "delivers_at_most (ou_amqp (pf_outside pf)) N"
    and "(N + 3) * nat (T - w_clock w) < n"
  shows "\<exists>w'. Run (pf_outside pf) (server_consumer pf cfg store) c n w = Return (None, w')"
  using assms by (rule Run_ends)

lemma calm_lively: "lively calm_world"
  by (simp add: lively_def calm_world_def)

lemma sample_at_most: "delivers_at_most (ou_amqp (pf_outside (sample_platform t))) 1"
  by (simp add: delivers_at_most_def sample_platform_def sample_outside_def sample_amqp_def)

theorem Run_returns_witness:
  "\<forall>cfg store. \<exists>w'. Run (pf_outside (sample_platform (Some 9)))
     (server_consumer (sample_platform (Some 9)) cfg store)
     \<lparr>ctx_cancel = Some 9, ctx_deadline = None\<rparr> 40 calm_world = Return (None, w')"
  by (intro allI Run_returns [where T = 9, OF calm_lively _ sample_at_most])
    (simp_all add: ctx_done_at_def calm_world_def)

lemma handleDelivery_closing:
  assumes "ctx_state c (w_clock w) \<noteq> None"
  shows "extends closing_event w (handleDelivery ou cs c sess d w)"
proof -
  have "closing c w w" using assms by (simp add: closing_def)
  then have t: "ctx_state c (w_clock (tick w)) \<noteq> None" "ctx_state c (w_clock (tick (tick w))) \<noteq> None"
    using closing_tick closing_next [OF _ tick_extends] by blast+
  then have "handleDelivery ou cs c sess d w =
      log_failed d (nack (ou_amqp ou) sess (d_tag d) True (tick (tick w)))"
    by (auto simp: handleDelivery_def settle_def ctx_err_def Let_def)
  then show ?thesis
    using extends_trans [OF extends_trans [OF tick_extends tick_extends] requeue_closing] by simp
qed

text \<open>
  Property C8. Once an iteration of the consumer's loops begins with its context done, the consumer
  acknowledges nothing, publishes nothing, reads nothing and opens nothing from then on: it only
  cancels its consumer, gives deliveries back for redelivery, closes what is open, and logs. A
  delivery that is handed to the handler with the context done is only given back too. (An iteration
  that was under way when the context ended may still finish its attempt to connect or the work on
  its delivery; how that delivery is settled is another property.)
\<close>

theorem Run_after_cancel:
  assumes "ctx_state c (w_clock (run_world s)) \<noteq> None"
  shows "(case drive (run_step (pf_outside pf) (server_consumer pf cfg store) c) n s of
     Again t \<Rightarrow> extends closing_event (run_world s) (run_world t)
   | Return (err, w') \<Rightarrow> extends closing_event (run_world s) w'
   | Block \<Rightarrow> True) \<and>
   extends closing_event (run_world s)
     (handleDelivery (pf_outside pf) (server_consumer pf cfg store) c sess d (run_world s))"
proof -
  have "closing c (run_world s) (run_world s)" using assms by (simp add: closing_def)
  from server_parts.closing.drive_inv [OF this, of pf cfg store n]
    server_parts.closing.drive_post [OF this, of pf cfg store n] handleDelivery_closing [OF assms]
  show ?thesis by (auto simp: closing_def split: iter.splits)
qed

theorem Run_after_cancel_witness:
  "\<forall>cfg store. case drive (run_step (pf_outside (sample_platform None))
       (server_consumer (sample_platform None) cfg store) \<lparr>ctx_cancel = Some 0, ctx_deadline = None\<rparr>)
       1 (Consuming 0 True (Receiving sample_session False calm_world)) of
     Again t \<Rightarrow> extends closing_event calm_world (run_world t) \<and>
       w_trace (run_world t) = [Ev_amqp 3 (Cancel ''t'' False)]
   | _ \<Rightarrow> False"
proof (intro allI)
  fix cfg store
  let ?c = "\<lparr>ctx_cancel = Some 0, ctx_deadline = None\<rparr>" and
    ?s = "Consuming 0 True (Receiving sample_session False calm_world)"
  have "ctx_state ?c (w_clock (run_world ?s)) \<noteq> None" by (simp add: ctx_state_def calm_world_def)
  from Run_after_cancel [OF this, where pf = "sample_platform None" and cfg = cfg and store = store and
    n = 1, THEN conjunct1]
  show "case drive (run_step (pf_outside (sample_platform None))
       (server_consumer (sample_platform None) cfg store) ?c) 1 ?s of
     Again t \<Rightarrow> extends closing_event calm_world (run_world t) \<and>
       w_trace (run_world t) = [Ev_amqp 3 (Cancel ''t'' False)]
   | _ \<Rightarrow> False"
    by (simp add: receive_step_def ctx_err_def ctx_state_def Let_def cancelConsumer_def
        sample_session_def frame_simps calm_world_def)
qed

section \<open>Retries\<close>

text \<open>
  Property C28. The delay after \<open>n + 1\<close> failures in a row is one second doubled \<open>n\<close> times, at most 30
  seconds: a closed form in which the shift of the code never overflows.
\<close>

theorem backoffDelay_closed:
  "backoffDelay (int (Suc n)) = min (second * 2 ^ n) (30 * second) \<and>
   backoffDelay (int n) \<le> backoffDelay (int (Suc n)) \<and> second \<le> backoffDelay (int n)"
proof -
  have "backoffDelay (int n) \<le> backoffDelay (int (Suc n)) \<and> second \<le> backoffDelay (int n)"
  proof (cases n)
    case 0
    then show ?thesis by (simp add: backoffDelay_def backoffInitial_def)
  next
    case (Suc k)
    then show ?thesis
      using consumer_retry.delay_mono [OF TrueI, of k "Suc k"] consumer_retry.delay_bounds [of k]
      by (simp add: backoffInitial_def)
  qed
  then show ?thesis
    using consumer_retry.delay_closed [of n] by (simp add: backoffInitial_def backoffMax_def)
qed

text \<open>
  Property C20. A failed attempt to connect adds one to the count of failures, a lost connection does
  too but starts again at one when its session delivered a message; either way the next attempt
  comes after the delay of that count, and no earlier. Only a context that is done ends the loop.
\<close>

theorem retries_wait:
  "(case supervise (pf_outside pf) (server_consumer pf cfg store) c failures linked w of
      Again (Supervising f l w') \<Rightarrow>
        f = failures + 1 \<and> l = linked \<and> w_clock w + backoffDelay (int f) \<le> w_clock w' \<and>
        (\<exists>tr. w_trace w' = tr @ [Ev_sleep (backoffDelay (int f))])
    | Again (Consuming f l st) \<Rightarrow> f = failures \<and> l \<and> (\<exists>sess w'. st = Receiving sess False w')
    | Return (err, w') \<Rightarrow> err = None \<and> ctx_state c (w_clock w') \<noteq> None
    | Block \<Rightarrow> False) \<and>
   (case after_consume (pf_outside pf) (server_consumer pf cfg store) c failures linked
       (delivered, e, sess, w) of
      Again (Supervising f l w') \<Rightarrow>
        f = (if delivered then 1 else failures + 1) \<and> l = linked \<and>
        w_clock w + backoffDelay (int f) \<le> w_clock w' \<and>
        (\<exists>tr. w_trace w' = tr @ [Ev_sleep (backoffDelay (int f))])
    | Again (Consuming f l st) \<Rightarrow> False
    | Return (err, w') \<Rightarrow> err = None \<and> ctx_state c (w_clock w') \<noteq> None
    | Block \<Rightarrow> False)" (is "?A \<and> ?B")
proof
  have later: "w_clock w \<le> w_clock w1" if "goes_on (tick w) w1" for w1
    using extends_clock [OF that] by (simp add: frame_simps)
  show ?A
  proof (cases rule: server_parts.supervise_cases [OF refl, of pf cfg store c failures linked w])
    case (2 w1 w')
    with later [OF 2(2)] show ?thesis by auto
  qed auto
  show ?B
  proof (cases rule: server_parts.after_consume_cases [OF refl, of pf cfg store c failures linked
        delivered e sess w])
    case (2 w1 w')
    with later [OF 2(2)] show ?thesis by (auto simp del: after_consume.simps)
  qed (simp del: after_consume.simps)
qed

end
