(* ===== verification/Probe_Properties.thy ===== *)
theory Probe_Properties
  imports Probe_Run_Facts Store_Properties
begin

text \<open>
  The properties of \<open>internal/rabbitmq/probe.go\<close>: what one attempt of \<open>Check\<close> does in every order of
  its threads, and when \<open>Run\<close> reports readiness.
\<close>

section \<open>One attempt\<close>

text \<open>
  Property C10. A check that succeeds has dialed, opened a channel, declared the configured exchange and
  the configured queue passively and as durable (so that nothing is created), and closed the channel
  and the connection: exactly these six steps, whatever the order of the threads. No attempt ever
  does anything else before it returns.
\<close>

theorem Check_success_is_full_attempt:
  "(case Check p sched c w of (r, w') \<Rightarrow>
     (let n = w_steps w;
          ops = [Ev_dial n, Ev_channel n,
            Ev_amqp n (Exchange_Declare_Passive (rq_InputExchange (pr_cfg p))
              (rq_InputExchangeType (pr_cfg p)) True False False False),
            Ev_amqp n (Queue_Declare_Passive (rq_Queue (pr_cfg p)) True False False False),
            Ev_ch_close n, Ev_conn_close n]
      in if r = None then w_trace w' = w_trace w @ ops
         else \<exists>es. w_trace w' = w_trace w @ es \<and> set es \<subseteq> set ops))"
proof (rule Check_cases [of p w sched c])
  fix s
  assume s: "check_reaches p (w_steps w) s"
    and w: "snd (Check p sched c w) = tick (w\<lparr>w_trace := w_trace w @ ck_events s\<rparr>)"
  from check_reaches_events [OF s] have "set (ck_events s) \<subseteq> set (attempt_ops p (w_steps w))"
    by (auto simp: list_all_iff probe_event_def)
  then show ?thesis
    using Check_None [of p sched c w] w
    by (auto simp: split_beta attempt_ops_def frame_simps exchange_passive_def queue_passive_def)
qed

text \<open>
  The caller's \<open>select\<close> may take the deadline although the dial has already returned; then it returns
  with the connection open.
\<close>

lemma aborted_with_connection:
  "\<exists>s. check_reaches p n s \<and> ck_main s = M_returned (Some (aborted p DeadlineExceeded)) \<and>
     ck_go s = G_channel \<and> ck_events s = [Ev_dial n]"
proof (intro exI conjI)
  let ?s = "check_run p n [L_go None, L_go None, L_expire DeadlineExceeded, L_main False] (check_init None)"
  show "check_reaches p n ?s" by (rule check_run_reaches) (rule check_reaches.init)
  show "ck_main ?s = M_returned (Some (aborted p DeadlineExceeded))" "ck_go ?s = G_channel"
    "ck_events ?s = [Ev_dial n]"
    by (simp_all add: apply_label_def goroutine_step_def main_step_def check_init_def aborted_def)
qed

text \<open>
  Property C26. Who closes the connection of an attempt, in every order of the threads. When the
  goroutine is through, and when the caller has returned anything but the error of giving up on the
  dial, a connection that was opened is closed. A caller that gave up on the dial may leave a
  connection open (such an order of the steps exists), which only the goroutine can then close: it
  never waits on its channels, and once its at most eight further steps have been taken, whatever the
  library's calls in them return, it has ended and the connection is closed.
\<close>

theorem Check_releases:
  assumes "check_reaches p n s"
  shows "(if finished (ck_go s) \<or> (\<exists>r. ck_main s = M_returned r \<and>
        (\<forall>x. r \<noteq> Some (Err_wrap ''rabbitmq probe attempt aborted after %v: %w''
           [A_dur (pr_attemptTimeout p)] (Err_ctx x))))
      then Ev_conn_close n \<in> set (ck_events s) \<or> Ev_dial n \<notin> set (ck_events s) else True) \<and>
    (\<exists>s'. check_reaches p n s' \<and> ck_events s' = [Ev_dial n] \<and>
       ck_main s' = M_returned (Some (Err_wrap ''rabbitmq probe attempt aborted after %v: %w''
           [A_dur (pr_attemptTimeout p)] (Err_ctx DeadlineExceeded)))) \<and>
    (ck_go s = G_end \<or> (\<forall>r. \<exists>t. goroutine_step p n r s = Some t)) \<and>
    (\<forall>f. let t = fold (\<lambda>r. apply_label p n (L_go r)) (map f [0..<8]) s in
       ck_go t = G_end \<and> (Ev_conn_close n \<in> set (ck_events t) \<or> Ev_dial n \<notin> set (ck_events t)))"
proof (intro conjI allI)
  show "if finished (ck_go s) \<or> (\<exists>r. ck_main s = M_returned r \<and>
        (\<forall>x. r \<noteq> Some (Err_wrap ''rabbitmq probe attempt aborted after %v: %w''
           [A_dur (pr_attemptTimeout p)] (Err_ctx x))))
      then Ev_conn_close n \<in> set (ck_events s) \<or> Ev_dial n \<notin> set (ck_events s) else True"
    using check_reaches_leak [OF assms] by (auto simp: leak_inv_def settled_conn_def aborted_def)
  show "\<exists>s'. check_reaches p n s' \<and> ck_events s' = [Ev_dial n] \<and>
       ck_main s' = M_returned (Some (Err_wrap ''rabbitmq probe attempt aborted after %v: %w''
           [A_dur (pr_attemptTimeout p)] (Err_ctx DeadlineExceeded)))"
    using aborted_with_connection [of p n] by (fastforce simp: aborted_def)
  show "ck_go s = G_end \<or> (\<forall>r. \<exists>t. goroutine_step p n r s = Some t)"
    using goroutine_goes_on [OF check_reaches_room [OF assms]] by blast
  fix f :: "nat \<Rightarrow> go_error option"
  have "steps_left (ck_go s) \<le> length (map f [0..<8])" by (cases "ck_go s") simp_all
  from goroutine_ends [OF assms this] check_reaches_leak [OF fold_go_reaches [OF assms]]
  show "let t = fold (\<lambda>r. apply_label p n (L_go r)) (map f [0..<8]) s in
      ck_go t = G_end \<and> (Ev_conn_close n \<in> set (ck_events t) \<or> Ev_dial n \<notin> set (ck_events t))"
    by (auto simp: leak_inv_def settled_conn_def Let_def)
qed

text \<open>The deadline expires while the exchange is looked up; the caller closes the connection.\<close>

definition sample_rabbit :: rabbitmq_config where
  "sample_rabbit = \<lparr>rq_URL = ''amqp://h:5672/'', rq_InputExchange = ''x'',
     rq_InputExchangeType = ''topic'', rq_InputRoutingKey = ''r'', rq_Queue = ''q'',
     rq_Prefetch = 1, rq_ConnectTimeout = 5 * second\<rparr>"

definition stuck_attempt :: check_state where
  "stuck_attempt = check_run (newProbe sample_rabbit) 4
     [L_go None, L_go None, L_main False, L_go None, L_expire DeadlineExceeded, L_main False]
     (check_init None)"

lemma stuck_attempt_eq:
  "ck_main stuck_attempt = M_returned (Some (Err_wrap
     ''rabbitmq probe attempt timed out after %v: %w'' [A_dur (5 * second)] (Err_ctx DeadlineExceeded)))"
  "ck_events stuck_attempt = [Ev_dial 4, Ev_channel 4, Ev_conn_close 4]"
  by (simp_all add: stuck_attempt_def apply_label_def goroutine_step_def main_step_def check_init_def
      newProbe_def probeAttemptTimeout_def)

theorem Check_releases_witness:
  "ck_events stuck_attempt = [Ev_dial 4, Ev_channel 4, Ev_conn_close 4] \<and>
   Ev_conn_close 4 \<in> set (ck_events stuck_attempt)"
proof -
  have "check_reaches (newProbe sample_rabbit) 4 stuck_attempt"
    unfolding stuck_attempt_def by (rule check_run_reaches) (rule check_reaches.init)
  from Check_releases [OF this] have "Ev_conn_close 4 \<in> set (ck_events stuck_attempt) \<or>
      Ev_dial 4 \<notin> set (ck_events stuck_attempt)"
    using stuck_attempt_eq(1) by (simp add: aborted_def)
  then show ?thesis using stuck_attempt_eq(2) by auto
qed

lemma caller_moves:
  assumes "ck_expired s \<noteq> None" and "main_step p n b s = None"
  shows "\<exists>r. ck_main s = M_returned r"
  using assms main_step_expired [OF assms(1), of p n]
  by (cases "ck_main s") (auto simp: main_step_def split: option.splits if_splits)

lemma caller_step:
  assumes "main_step p n b s = Some t"
  shows "ck_expired t = ck_expired s \<and> ((\<exists>r. ck_main t = M_returned r) \<or>
    ck_main s = M_await_dial \<and> ck_main t = M_await_topology)"
  using assms by (cases rule: main_step_cases) auto

text \<open>
  Property C25. The deadline of an attempt cannot be missed: once the attempt's context has expired,
  two steps of the caller are enough for it to return, even when the goroutine never takes another
  one; so \<open>Check\<close> returns in every order of the steps.
\<close>

theorem Check_deadline:
  assumes "ck_expired s \<noteq> None"
  shows "(case main_step p n b s of
      None \<Rightarrow> \<exists>r. ck_main s = M_returned r
    | Some t \<Rightarrow>
        (case main_step p n b' t of
           None \<Rightarrow> \<exists>r. ck_main t = M_returned r
         | Some u \<Rightarrow> \<exists>r. ck_main u = M_returned r)) \<and>
    (\<exists>r. ck_main (check_run p n ls s) = M_returned r)"
proof (cases "main_step p n b s")
  case None
  then show ?thesis using caller_moves [OF assms] check_run_returns [of p n ls s] by auto
next
  case (Some t)
  from caller_step [OF this] assms have t: "ck_expired t \<noteq> None"
    "(\<exists>r. ck_main t = M_returned r) \<or> ck_main t = M_await_topology" by auto
  show ?thesis
  proof (cases "main_step p n b' t")
    case None
    then show ?thesis using caller_moves [OF t(1)] Some check_run_returns [of p n ls s] by auto
  next
    case (Some u)
    then have "ck_main t = M_await_topology" using t(2) by (auto simp: main_step_def)
    then show ?thesis
      using caller_step [OF Some] \<open>main_step p n b s = Some t\<close> Some check_run_returns [of p n ls s]
      by auto
  qed
qed

theorem Check_deadline_witness:
  "\<exists>r. ck_main (check_run (newProbe sample_rabbit) 4 [L_go None, L_go None, L_main True]
     (check_init (Some DeadlineExceeded))) = M_returned r"
proof -
  have "ck_expired (check_init (Some DeadlineExceeded)) \<noteq> None" by (simp add: check_init_def)
  from Check_deadline [OF this] show ?thesis by blast
qed

section \<open>The goroutine and the library\<close>

text \<open>What the library's next call returns to a goroutine that is at a point, at step \<open>k\<close>.\<close>

fun lib_outcome :: "amqp_lib \<Rightarrow> probe \<Rightarrow> nat \<Rightarrow> nat \<Rightarrow> go_pc \<Rightarrow> go_error option" where
  "lib_outcome al p n k G_channel = al_channel al k n"
| "lib_outcome al p n k G_exchange = al_op al k n (exchange_passive p)"
| "lib_outcome al p n k G_queue = al_op al k n (queue_passive p)"
| "lib_outcome al p n k pc = None"

text \<open>The goroutine alone, for at most \<open>f\<close> steps.\<close>

fun goroutine_run :: "amqp_lib \<Rightarrow> probe \<Rightarrow> nat \<Rightarrow> nat \<Rightarrow> nat \<Rightarrow> check_state \<Rightarrow> check_state" where
  "goroutine_run al p n 0 k s = s"
| "goroutine_run al p n (Suc f) k s =
     (case goroutine_step p n (lib_outcome al p n k (ck_go s)) s of
        None \<Rightarrow> s
      | Some t \<Rightarrow> goroutine_run al p n f (Suc k) t)"

text \<open>
  The steps of the goroutine are the code of \<open>checkTopology\<close>: run without interruption after the dial,
  they do the same calls in the same order and end with the same result in \<open>done\<close>.
\<close>

lemma goroutine_refines_checkTopology:
  "case checkTopology p al n w of (r, w') \<Rightarrow>
     goroutine_run al p n 6 (w_steps w)
       \<lparr>ck_main = m, ck_go = G_channel, ck_dialed = d, ck_done = None, ck_expired = x, ck_events = es\<rparr> =
     \<lparr>ck_main = m, ck_go = G_end, ck_dialed = d, ck_done = Some r, ck_expired = x,
       ck_events = es @ drop (length (w_trace w)) (w_trace w')\<rparr>"
proof (cases "al_channel al (w_steps w) n")
  case (Some e)
  then show ?thesis
    by (simp add: checkTopology_def probeConn_Channel_def conn_Channel_def conn_Close_def frame_simps
        goroutine_step_def numeral_eq_Suc)
next
  case ch: None
  show ?thesis
  proof (cases "al_op al (Suc (w_steps w)) n (exchange_passive p)")
    case (Some e)
    with ch show ?thesis
      by (simp add: checkTopology_def probeConn_Channel_def conn_Channel_def amqp_call_def ch_Close_def
          conn_Close_def frame_simps goroutine_step_def numeral_eq_Suc Let_def)
  next
    case None
    with ch show ?thesis
      by (cases "al_op al (Suc (Suc (w_steps w))) n (queue_passive p)")
        (simp_all add: checkTopology_def probeConn_Channel_def conn_Channel_def amqp_call_def ch_Close_def
          conn_Close_def frame_simps goroutine_step_def numeral_eq_Suc Let_def)
  qed
qed


section \<open>Readiness\<close>

text \<open>
  Property C23. Readiness is reported at most once, and only right after an attempt that verified the
  topology in full; the probe never takes it back, never counts a loss of the connection before it
  was ready, and always waits between 1 and 30 seconds before it tries again after a failure.
\<close>

theorem Probe_reports_readiness:
  "case Probe_Run (newProbe cfg) sched (Some (emit Ev_ready)) c n w of
     Again s \<Rightarrow> reported (newProbe cfg) (w_trace w) (ps_ready s) (ps_world s) \<and>
       (if ps_lost s then ps_ready s else True) \<and>
       second \<le> ps_retryDelay s \<and> ps_retryDelay s \<le> 30 * second
   | Return w' \<Rightarrow> (\<exists>ready. reported (newProbe cfg) (w_trace w) ready w') \<and>
       ctx_state c (w_clock w') \<noteq> None
   | Block \<Rightarrow> True"
proof -
  have retry: "second \<le> retry_delay (newProbe cfg) k \<and> retry_delay (newProbe cfg) k \<le> 30 * second" for k
    using production.retry.delay_bounds [of cfg k]
    by (simp add: newProbe_def backoffInitial_def backoffMax_def)
  have inv: "probe_inv (newProbe cfg) (w_trace w) (probe_start (newProbe cfg) w)"
    by (rule production.probe_start_inv)
  show ?thesis
    using production.reporting.drive_inv [OF inv, of sched c n]
      production.reporting.drive_post [OF inv, of sched c n] retry
    by (auto simp: Probe_Run_def probe_inv_def probe_post_def split: iter.splits)
qed

text \<open>
  Property C24. The probe ends with its context: when every step takes time and the context is done at
  \<open>T\<close>, its loop returns within as many iterations as there are nanoseconds until then.
\<close>

theorem Probe_returns:
  assumes "lively w" and "ctx_done_at c = Some T" and "nat (T - w_clock w) < n"
  shows "\<exists>w'. Probe_Run (newProbe cfg) sched (Some (emit Ev_ready)) c n w = Return w'"
proof -
  let ?s = "probe_start (newProbe cfg) w"
  have "probe_inv (newProbe cfg) (w_trace w) ?s \<and> lively (ps_world ?s) \<and> ctx_done_at c = Some T"
    using assms(1,2) production.probe_start_inv by (simp add: probe_start_def)
  moreover have "nat (T - w_clock (ps_world ?s)) < n" using assms(3) by (simp add: probe_start_def)
  ultimately show ?thesis
    unfolding Probe_Run_def using production.probing.drive_returns by blast
qed

theorem Probe_returns_witness:
  "\<forall>sched. \<exists>w'. Probe_Run (newProbe sample_rabbit) sched (Some (emit Ev_ready))
     \<lparr>ctx_cancel = Some 9, ctx_deadline = None\<rparr> 10 calm_world = Return w'"
  by (intro allI Probe_returns [where T = 9])
    (simp_all add: ctx_done_at_def calm_world_def lively_def)

end
