(* ===== verification/Server_Properties.thy ===== *)
theory Server_Properties
  imports Run_Properties Probe_Properties
begin

text \<open>
  The properties of \<open>cmd/server/main.go\<close>: the health endpoint, the goroutines beside each other, the
  start and the end of the program.
\<close>

section \<open>The health endpoint\<close>

definition plain_json :: "char \<Rightarrow> bool" where
  "plain_json c \<longleftrightarrow> 0x20 \<le> byte c \<and> byte c < 0x80 \<and> c \<noteq> CHR 0x22 \<and> c \<noteq> CHR 0x5C"

lemma parse_str_plain: "list_all plain_json x \<Longrightarrow> parse_str (x @ CHR 0x22 # s) = Some (x, s)"
  by (induction x) (simp_all add: literal_step_def plain_json_def)

lemma skip_ws_stop: "c \<notin> set [CHR 0x20, CHR 0x09, CHR 0x0D, CHR 0x0A] \<Longrightarrow> skip_ws (c # s) = c # s"
  by (simp add: skip_ws_def)

lemma parse_members_plain:
  assumes "list_all plain_json k" and "list_all plain_json x"
    and "e = CHR ''}'' \<or> e = CHR '',''"
  shows "parse_members d (CHR 0x22 # k @ CHR 0x22 # CHR '':'' # CHR 0x22 # x @ CHR 0x22 # e # v) =
    (if e = CHR ''}'' then Some ([(k, V_str x)], v)
     else case parse_members d v of None \<Rightarrow> None | Some (ms, r) \<Rightarrow> Some ((k, V_str x) # ms, r))"
proof -
  let ?t = "CHR 0x22 # x @ CHR 0x22 # e # v"
  let ?s = "CHR 0x22 # k @ CHR 0x22 # CHR '':'' # ?t"
  have key: "parse_key ?s = Some (k, ?t)"
    by (simp add: parse_key_def skip_ws_stop parse_str_plain [OF assms(1)])
  have val: "parse_value d ?t = Some (V_str x, e # v)"
    by (subst parse_value.simps) (simp add: skip_ws_stop parse_str_plain [OF assms(2)])
  have "skip_ws (e # v) = e # v" using assms(3) by (auto simp: skip_ws_stop)
  then show ?thesis
    using assms(3) by (subst parse_members.simps) (auto simp: key val split: option.splits)
qed

lemma health_body:
  assumes "list_all plain_json status" and "list_all plain_json version"
  shows \<open>decode_object (''{"status":"'' @ status @ ''","version":"'' @ version @ ''"}'' @ [CHR 0x0A]) =
    Some [(''status'', V_str status), (''version'', V_str version)]\<close>
proof -
  let ?m2 = "CHR 0x22 # ''version'' @ CHR 0x22 # CHR '':'' # CHR 0x22 # version @
    CHR 0x22 # CHR ''}'' # [CHR 0x0A]"
  let ?m1 = "CHR 0x22 # ''status'' @ CHR 0x22 # CHR '':'' # CHR 0x22 # status @
    CHR 0x22 # CHR '','' # ?m2"
  have names: "list_all plain_json ''status''" "list_all plain_json ''version''"
    by (simp_all add: plain_json_def)
  have m2: "parse_members d ?m2 = Some ([(''version'', V_str version)], [CHR 0x0A])" for d
    using parse_members_plain [OF names(2) assms(2), of "CHR ''}''" d "[CHR 0x0A]"] by simp
  have m1: "parse_members d ?m1 =
      Some ([(''status'', V_str status), (''version'', V_str version)], [CHR 0x0A])" for d
    using parse_members_plain [OF names(1) assms(1), of "CHR '',''" d ?m2] m2 by simp
  have "decode_object (CHR ''{'' # ?m1) =
      Some [(''status'', V_str status), (''version'', V_str version)]"
    unfolding decode_object_def decode_value_def
    by (subst parse_value.simps) (simp add: skip_ws_stop m1 [simplified] max_depth_def)
  then show ?thesis by simp
qed

text \<open>
  Property C27. The endpoint answers 200 when the flag is set and 503 when it is not, and its body is a
  JSON object from which a decoder reads the status and the version (a version made of printable ASCII
  without quotes and backslashes, as the linker sets it). No other path is answered by it.
\<close>

theorem health_answers:
  assumes "list_all plain_json (bi_Version bi)"
  shows "case newHealthMux bi ready url_path of
      None \<Rightarrow> url_path \<noteq> ''/health''
    | Some r \<Rightarrow> url_path = ''/health'' \<and> hr_status r = (if ready then 200 else 503) \<and>
        hr_content_type r = ''application/json'' \<and>
        decode_object (hr_body r) =
          Some [(''status'', V_str (if ready then ''ok'' else ''starting'')),
                (''version'', V_str (bi_Version bi))]"
proof -
  have "list_all plain_json ''ok''" "list_all plain_json ''starting''"
    by (simp_all add: plain_json_def)
  from this [THEN health_body [OF _ assms]] show ?thesis by (simp add: newHealthMux_def)
qed

theorem health_answers_witness:
  "\<exists>r. newHealthMux default_build True ''/health'' = Some r \<and> hr_status r = 200 \<and>
     decode_object (hr_body r) = Some [(''status'', V_str ''ok''), (''version'', V_str ''dev'')]"
proof -
  have "list_all plain_json (bi_Version default_build)" by (simp add: default_build_def plain_json_def)
  from health_answers [OF this, where ready = True and url_path = "''/health''"] show ?thesis
    by (simp add: newHealthMux_def default_build_def)
qed

section \<open>The goroutines\<close>

fun answered :: "int \<Rightarrow> health_response option \<Rightarrow> bool" where
  "answered n None = True"
| "answered n (Some r) = (hr_status r = n)"

definition server_inv :: "config \<Rightarrow> event list \<Rightarrow> server \<Rightarrow> bool" where
  "server_inv cfg tr s \<longleftrightarrow>
     (\<exists>es. probe_trace (sv_probe s) = tr @ es \<and> announced (newProbe (cf_RabbitMQ cfg)) es \<and>
        (sv_ready s \<longleftrightarrow> Ev_ready \<in> set es)) \<and>
     (\<forall>ps. sv_probe s = Again ps \<longrightarrow> probe_inv (newProbe (cf_RabbitMQ cfg)) tr ps) \<and>
     (\<exists>xs ys. sv_answers s = xs @ ys \<and> list_all (answered 503) xs \<and> list_all (answered 200) ys \<and>
        (ys \<noteq> [] \<longrightarrow> sv_ready s))"

lemma readys_0_iff: "readys es = 0 \<longleftrightarrow> Ev_ready \<notin> set es"
  by (auto simp: readys_def filter_empty_conv)

lemma reported_flag:
  "reported p tr ready w \<Longrightarrow> w_trace w = tr @ es \<Longrightarrow> announced p es \<and> (ready \<longleftrightarrow> Ev_ready \<in> set es)"
  unfolding reported_def by (metis readys_0_iff same_append_eq zero_neq_one)

lemma probe_step_flag:
  assumes inv: "server_inv cfg tr s" and s: "sv_probe s = Again ps"
    and r: "r = probe_step (newProbe (cf_RabbitMQ cfg)) sched (Some (emit Ev_ready)) c ps"
  shows "server_inv cfg tr (s\<lparr>sv_probe := r, sv_ready := sv_ready s \<or>
    Ev_ready \<in> set (drop (length (w_trace (ps_world ps))) (probe_trace r))\<rparr>)"
proof -
  let ?p = "newProbe (cf_RabbitMQ cfg)"
  obtain es where es: "w_trace (ps_world ps) = tr @ es" "sv_ready s \<longleftrightarrow> Ev_ready \<in> set es"
    using inv s by (auto simp: server_inv_def)
  have pinv: "probe_inv ?p tr ps" using inv s by (simp add: server_inv_def)
  have main: "(\<exists>fs. probe_trace r = w_trace (ps_world ps) @ fs \<and> announced ?p (es @ fs)) \<and>
      (\<forall>ps'. r = Again ps' \<longrightarrow> probe_inv ?p tr ps')"
  proof (rule production.probe_step_cases [OF pinv r [symmetric]])
    fix t
    assume t: "r = Again t" "probe_inv ?p tr t" "goes_on (tick (ps_world ps)) (ps_world t)"
    then obtain fs where "w_trace (ps_world t) = w_trace (ps_world ps) @ fs"
      using extends_trace by (fastforce simp: frame_simps)
    then show ?thesis
      using t es(1) reported_flag [of ?p tr "ps_ready t" "ps_world t" "es @ fs"]
      by (auto simp: probe_inv_def)
  next
    fix w
    assume w: "r = Return w" "probe_post ?p tr c w" "goes_on (ps_world ps) w"
    then obtain fs where "w_trace w = w_trace (ps_world ps) @ fs" using extends_trace by blast
    then show ?thesis
      using w es(1) reported_flag [of ?p tr _ w "es @ fs"] by (auto simp: probe_post_def)
  qed
  then obtain fs where fs: "probe_trace r = w_trace (ps_world ps) @ fs" "announced ?p (es @ fs)"
    by blast
  then show ?thesis
    using inv main es by (auto simp: server_inv_def intro!: exI [of _ "es @ fs"])
qed

lemma server_do_inv:
  assumes inv: "server_inv cfg tr s" and step: "server_do pf bi cfg store sched l s = Some t"
  shows "server_inv cfg tr t"
proof (cases l)
  case Do_probe
  then obtain ps where "sv_probe s = Again ps"
    using step by (auto simp: server_do_def split: iter.splits)
  with probe_step_flag [OF inv this refl] show ?thesis
    using step Do_probe by (auto simp: server_do_def Let_def split: iter.splits)
next
  case (Do_request url_path)
  then have t: "t = s\<lparr>sv_answers := sv_answers s @ [newHealthMux bi (sv_ready s) url_path]\<rparr>"
    using step by (auto simp: server_do_def split: iter.splits if_splits)
  obtain xs ys where a: "sv_answers s = xs @ ys" "list_all (answered 503) xs"
      "list_all (answered 200) ys" "ys \<noteq> [] \<longrightarrow> sv_ready s"
    using inv by (auto simp: server_inv_def)
  let ?a = "newHealthMux bi (sv_ready s) url_path"
  have "\<exists>xs ys. sv_answers t = xs @ ys \<and> list_all (answered 503) xs \<and> list_all (answered 200) ys \<and>
      (ys \<noteq> [] \<longrightarrow> sv_ready t)"
  proof (cases "sv_ready s")
    case True
    then have "answered 200 ?a" by (simp add: newHealthMux_def)
    with a True show ?thesis by (intro exI [of _ xs] exI [of _ "ys @ [?a]"]) (simp add: t)
  next
    case False
    then have "answered 503 ?a" by (simp add: newHealthMux_def)
    with a False show ?thesis by (intro exI [of _ "xs @ [?a]"] exI [of _ "[]"]) (simp add: t)
  qed
  then show ?thesis using inv by (simp add: server_inv_def t)
next
  case Do_consumer
  then obtain x where "t = s\<lparr>sv_consumer := x\<rparr>"
    using step by (auto simp: server_do_def split: iter.splits)
  then show ?thesis using inv by (simp add: server_inv_def)
next
  case (Do_listen_end e)
  then have "sv_probe t = sv_probe s \<and> sv_ready t = sv_ready s \<and> sv_answers t = sv_answers s"
    using step by (auto simp: server_do_def split: iter.splits if_splits)
  then show ?thesis using inv by (simp add: server_inv_def)
qed

lemma server_reaches_inv:
  assumes "server_reaches pf bi cfg store sched (server_init pf cfg store w) s"
  shows "server_inv cfg (w_trace w) s"
  using assms
proof (induction rule: server_reaches.induct)
  case init
  show ?case
    using production.probe_start_inv [of "cf_RabbitMQ cfg" w]
    by (auto simp: server_inv_def server_init_def announced_Nil probe_start_def)
next
  case (step t l u)
  then show ?case using server_do_inv by blast
qed

text \<open>
  Property C9. In every interleaving of the consumer, the probe and the health server, readiness is
  sticky and honest: the requests answered with 503 all come before those answered with 200, and when
  one has been answered with 200 the probe has carried out an attempt in full and found the topology.
\<close>

theorem health_is_sticky_and_honest:
  assumes "server_reaches pf bi cfg store sched (server_init pf cfg store w) s"
  shows "\<exists>xs ys. sv_answers s = xs @ ys \<and> list_all (answered 503) xs \<and> list_all (answered 200) ys \<and>
    (ys = [] \<or> (\<exists>n a. prefix (w_trace w @ a @ attempt_ops (newProbe (cf_RabbitMQ cfg)) n @
      [verified_line (newProbe (cf_RabbitMQ cfg)), Ev_ready]) (probe_trace (sv_probe s))))"
proof -
  let ?p = "newProbe (cf_RabbitMQ cfg)"
  have inv: "server_inv cfg (w_trace w) s" by (rule server_reaches_inv [OF assms])
  then obtain es where es: "probe_trace (sv_probe s) = w_trace w @ es" "announced ?p es"
      "sv_ready s \<longleftrightarrow> Ev_ready \<in> set es" by (auto simp: server_inv_def)
  have "\<exists>n a. prefix (w_trace w @ a @ attempt_ops ?p n @ [verified_line ?p, Ev_ready])
      (probe_trace (sv_probe s))" if "sv_ready s"
  proof -
    obtain b d where "es = b @ Ev_ready # d" using es(3) \<open>sv_ready s\<close> by (meson split_list)
    then have "prefix (b @ [Ev_ready]) es" by simp
    with es(2) obtain n where "suffix (attempt_ops ?p n @ [verified_line ?p]) b"
      by (auto simp: announced_def)
    then obtain a where "b = a @ attempt_ops ?p n @ [verified_line ?p]" by (auto simp: suffix_def)
    with \<open>es = _\<close> es(1) show ?thesis
      by (intro exI [of _ n] exI [of _ a]) (simp add: prefix_def)
  qed
  then show ?thesis using inv unfolding server_inv_def by blast
qed

text \<open>A request, then a probe iteration in which the attempt succeeds, then another request.\<close>

definition good_attempt :: check_sched where
  "good_attempt n = [L_go None, L_go None, L_main True, L_go None, L_go None, L_go None, L_go None,
     L_go None, L_go None, L_main True]"

lemma newProbe_fields:
  "pr_sleep (newProbe cfg) = sleepContext" "pr_healthyEvery (newProbe cfg) = probeHealthyEvery"
  by (simp_all add: newProbe_def)

lemma good_attempt_Check:
  "Check (newProbe cfg) good_attempt \<lparr>ctx_cancel = None, ctx_deadline = None\<rparr> w =
     (None, tick (w\<lparr>w_trace := w_trace w @ attempt_ops (newProbe cfg) (w_steps w)\<rparr>))"
  by (simp add: Check_def good_attempt_def Let_def check_init_def apply_label_def goroutine_step_def
      main_step_def attempt_ops_def ctx_state_def with_timeout_def newProbe_def probeAttemptTimeout_def
      second_def)

theorem health_is_sticky_and_honest_witness:
  "\<forall>cfg store. \<exists>s a b.
     server_reaches (sample_platform None) default_build cfg store good_attempt
       (server_init (sample_platform None) cfg store calm_world) s \<and>
     sv_answers s = [Some a, Some b] \<and> hr_status a = 503 \<and> hr_status b = 200 \<and>
     (\<exists>n c. prefix (w_trace calm_world @ c @ attempt_ops (newProbe (cf_RabbitMQ cfg)) n @
       [verified_line (newProbe (cf_RabbitMQ cfg)), Ev_ready]) (probe_trace (sv_probe s)))"
proof (intro allI)
  fix cfg store
  let ?pf = "sample_platform None" and ?h = "''/health''"
  let ?s0 = "server_init ?pf cfg store calm_world"
  have sig: "signal_context ?pf = \<lparr>ctx_cancel = None, ctx_deadline = None\<rparr>"
    by (simp add: signal_context_def sample_platform_def)
  obtain s1 where s1: "server_do ?pf default_build cfg store good_attempt (Do_request ?h) ?s0 = Some s1"
    and f1: "s1 = ?s0\<lparr>sv_answers := [newHealthMux default_build False ?h]\<rparr>"
    by (simp add: server_do_def server_init_def)
  obtain s2 where s2: "server_do ?pf default_build cfg store good_attempt Do_probe s1 = Some s2"
    and f2: "sv_ready s2" "sv_serving s2" "sv_consumer s2 = sv_consumer ?s0"
      "sv_answers s2 = sv_answers s1"
    by (simp add: server_do_def server_init_def f1 probe_step_def probe_start_def ctx_err_def sig
        ctx_state_def good_attempt_Check check_succeeded_def Let_def newProbe_fields sleepContext_def
        select2_def ctx_done_at_def probeHealthyEvery_def second_def frame_simps calm_world_def)
  obtain s3 where s3: "server_do ?pf default_build cfg store good_attempt (Do_request ?h) s2 = Some s3"
    and f3: "sv_answers s3 = [newHealthMux default_build False ?h, newHealthMux default_build True ?h]"
    using f1 f2 by (simp add: server_do_def server_init_def)
  have r: "server_reaches ?pf default_build cfg store good_attempt ?s0 s3"
    using server_reaches.step [OF server_reaches.step [OF server_reaches.step [OF
      server_reaches.init s1] s2] s3] .
  obtain a b where ab: "sv_answers s3 = [Some a, Some b]" "hr_status a = 503" "hr_status b = 200"
    by (simp add: f3 newHealthMux_def)
  from health_is_sticky_and_honest [OF r] obtain xs ys where
    xy: "sv_answers s3 = xs @ ys" "list_all (answered 503) xs"
      "ys = [] \<or> (\<exists>n c. prefix (w_trace calm_world @ c @ attempt_ops (newProbe (cf_RabbitMQ cfg)) n @
        [verified_line (newProbe (cf_RabbitMQ cfg)), Ev_ready]) (probe_trace (sv_probe s3)))"
    by blast
  have "ys \<noteq> []" using xy(1,2) ab by auto
  with xy(3) ab r show "\<exists>s a b.
     server_reaches ?pf default_build cfg store good_attempt ?s0 s \<and>
     sv_answers s = [Some a, Some b] \<and> hr_status a = 503 \<and> hr_status b = 200 \<and>
     (\<exists>n c. prefix (w_trace calm_world @ c @ attempt_ops (newProbe (cf_RabbitMQ cfg)) n @
       [verified_line (newProbe (cf_RabbitMQ cfg)), Ev_ready]) (probe_trace (sv_probe s)))"
    by blast
qed

section \<open>Start and end\<close>

definition starts :: "'aws platform \<Rightarrow> bool" where
  "starts pf \<longleftrightarrow> (\<exists>cfg store. Load (pf_parse_float pf) (pf_unicode pf) (pf_env pf) = Inr cfg \<and>
     New_store (pf_aws_config pf) (pf_s3 pf) (Some (cf_S3 cfg)) = Inr store)"

lemma server_start_cases:
  obtains (killed) "server_start pf bi w = None" "signalled pf (w_clock (tick w))"
  | (failed) e w1 where "server_start pf bi w = Some (Inl e, w1)" "\<not> starts pf"
      "\<not> signalled pf (w_clock (tick w))" "effects w1 = effects w"
  | (started) cfg store w1 where "server_start pf bi w = Some (Inr (cfg, store), w1)" "starts pf"
      "\<not> signalled pf (w_clock (tick w))" "extends is_log w w1" "w_clock w1 = w_clock (tick w)"
proof (cases "signalled pf (w_clock (tick w))")
  case True
  then show ?thesis using killed by (simp add: server_start_def Let_def frame_simps)
next
  case sig: False
  have log: "extends is_log w (log_at L_Info a as (log_at L_Info b bs (tick (log_at L_Info m ms w))))"
    for a as b bs m ms
    by (rule extends_trans [OF extends_trans [OF extends_trans [OF log_extends tick_extends]
        log_extends] log_extends]) simp_all
  show ?thesis
  proof (cases "Load (pf_parse_float pf) (pf_unicode pf) (pf_env pf)")
    case (Inl es)
    then have "\<exists>e w1. server_start pf bi w = Some (Inl e, w1) \<and> effects w1 = effects w"
      using sig by (simp add: server_start_def Let_def frame_simps trace_simps)
    moreover have "\<not> starts pf" using Inl by (simp add: starts_def)
    ultimately show ?thesis using failed sig by blast
  next
    case cfg: (Inr cfg)
    show ?thesis
    proof (cases "New_store (pf_aws_config pf) (pf_s3 pf) (Some (cf_S3 cfg))")
      case (Inl e)
      then have "\<exists>e w1. server_start pf bi w = Some (Inl e, w1) \<and> effects w1 = effects w"
        using sig cfg by (simp add: server_start_def Let_def frame_simps trace_simps)
      moreover have "\<not> starts pf" using cfg Inl by (simp add: starts_def)
      ultimately show ?thesis using failed sig by blast
    next
      case (Inr store)
      then have "\<exists>w1. server_start pf bi w = Some (Inr (cfg, store), w1) \<and> extends is_log w w1 \<and>
          w_clock w1 = w_clock (tick w)"
        using sig cfg log by (simp add: server_start_def Let_def frame_simps)
      moreover have "starts pf" using cfg Inr by (simp add: starts_def)
      ultimately show ?thesis using started sig by blast
    qed
  qed
qed

text \<open>The other goroutines do not disturb the consumer.\<close>

lemma server_do_consumer:
  "(case server_do pf bi cfg store sched l s of None \<Rightarrow> sv_consumer s | Some t \<Rightarrow> sv_consumer t) =
     (case (l, sv_consumer s) of
        (Do_consumer, Again st) \<Rightarrow>
          run_step (pf_outside pf) (server_consumer pf cfg store) (signal_context pf) st
      | _ \<Rightarrow> sv_consumer s)"
  by (auto simp: server_do_def Let_def split: iter.splits server_label.splits)

lemma server_run_consumer:
  "sv_consumer (server_run pf bi cfg store sched ls s) =
     (case sv_consumer s of
        Again st \<Rightarrow> drive (run_step (pf_outside pf) (server_consumer pf cfg store) (signal_context pf))
          (count_list ls Do_consumer) st
      | r \<Rightarrow> r)"
proof (induction ls arbitrary: s)
  case (Cons l ls)
  let ?t = "case server_do pf bi cfg store sched l s of None \<Rightarrow> s | Some t \<Rightarrow> t"
  have "sv_consumer ?t =
      (case (l, sv_consumer s) of
        (Do_consumer, Again st) \<Rightarrow>
          run_step (pf_outside pf) (server_consumer pf cfg store) (signal_context pf) st
      | _ \<Rightarrow> sv_consumer s)"
    using server_do_consumer [where s = s and l = l and pf = pf and cfg = cfg and store = store and
      bi = bi and sched = sched] by (simp split: option.splits)
  then show ?case
    using Cons.IH [of ?t] by (cases l; cases "sv_consumer s") simp_all
qed (simp split: iter.splits)

lemma server_init_consumer:
  "sv_consumer (server_run pf bi cfg store sched ls (server_init pf cfg store w)) =
     Run (pf_outside pf) (server_consumer pf cfg store) (signal_context pf) (count_list ls Do_consumer) w"
  by (simp add: server_run_consumer server_init_def Run_def)

lemma holds_open_logs: "extends is_log w w' \<Longrightarrow> holds_open (w_trace w) {} {} w'"
  by (erule holds_open_extends [OF holds_open_start]) (auto elim: is_log.elims)

lemma holds_open_from: "holds_open (w_trace u) {} {} w \<Longrightarrow> holds_open tr {} {} u \<Longrightarrow> holds_open tr {} {} w"
  by (fastforce simp: holds_open_def open_conns_def open_chans_def)

text \<open>
  Property C4. How the process ends, in every interleaving of the consumer, the probe and the health
  server. It is killed only by a signal that comes before the program has asked to be notified, and
  then nothing was done to the outside. Else it exits with status 1, without anything done to the
  outside, exactly when the configuration is invalid or the store cannot be created; once started it
  ends only after a signal, with status 0 and every connection and channel of the consumer closed. (It
  does not wait for the probe, whose attempt may hold its connection until the process is gone.)
\<close>

theorem exit_status:
  "case server_main pf bi sched ls w of
     Killed \<Rightarrow> signalled pf (w_clock (tick w))
   | Exited code w' \<Rightarrow>
       \<not> signalled pf (w_clock (tick w)) \<and>
       (if starts pf then code = 0 \<and> signalled pf (w_clock w') \<and> holds_open (w_trace w) {} {} w'
        else code = 1 \<and> effects w' = effects w)
   | Running s \<Rightarrow> starts pf \<and> \<not> signalled pf (w_clock (tick w))"
proof (cases rule: server_start_cases [of pf bi w])
  case (started cfg store w1)
  let ?n = "count_list ls Do_consumer"
  show ?thesis
  proof (cases "Run (pf_outside pf) (server_consumer pf cfg store) (signal_context pf) ?n w1")
    case (Return r)
    obtain err w2 where r: "r = (err, w2)" by force
    from Run_outcome [where pf = pf and cfg = cfg and store = store and c = "signal_context pf" and
        n = ?n and w = w1]
    have "err = None" and fin: "ctx_state (signal_context pf) (w_clock w2) \<noteq> None"
      and "holds_open (w_trace w1) {} {} w2" by (simp_all add: Return r)
    moreover from this(3) have "holds_open (w_trace w) {} {} w2"
      using holds_open_from holds_open_logs [OF started(4)] by blast
    moreover have "signalled pf (w_clock w2)"
      using fin by (auto simp: signalled_def signal_context_def ctx_state_def split: option.splits if_splits)
    ultimately show ?thesis
      using started(1-3) Return r
      by (simp add: server_main_def server_init_consumer Let_def frame_simps holds_open_log)
  qed (use started in \<open>simp_all add: server_main_def server_init_consumer Let_def\<close>)
qed (simp_all add: server_main_def trace_simps)

text \<open>
  Property C5. A signal ends the program, in every interleaving: when it can start, every step takes
  time, the signal comes at \<open>T\<close> and no connection delivers more than \<open>N\<close> messages, \<open>main\<close> exits with
  status 0 within a bounded number of iterations of the consumer's loop, whatever steps the probe and
  the health server take in between; a signal that comes before the program has asked to be notified
  kills it.
\<close>

theorem signal_ends_program:
  assumes "starts pf" and "lively w" and "pf_signal pf = Some T"
    and "delivers_at_most (ou_amqp (pf_outside pf)) N"
    and "(N + 3) * nat (T - w_clock w) < count_list ls Do_consumer"
  shows "if T \<le> w_clock (tick w) then server_main pf bi sched ls w = Killed
    else \<exists>w'. server_main pf bi sched ls w = Exited 0 w'"
proof (cases rule: server_start_cases [of pf bi w])
  case killed
  then show ?thesis using assms(3) by (simp add: server_main_def signalled_def)
next
  case (failed e w1)
  with assms(1) show ?thesis by simp
next
  case (started cfg store w1)
  have "ctx_done_at (signal_context pf) = Some T"
    using assms(3) by (simp add: signal_context_def ctx_done_at_def)
  moreover have "lively w1"
    using assms(2) extends_latency [OF started(4)] by (simp add: lively_def)
  moreover have "nat (T - w_clock w1) \<le> nat (T - w_clock w)"
    using extends_clock [OF started(4)] by simp
  then have "(N + 3) * nat (T - w_clock w1) < count_list ls Do_consumer"
    using assms(5) by (meson le_less_trans mult_le_mono2)
  ultimately obtain w2 where
    "Run (pf_outside pf) (server_consumer pf cfg store) (signal_context pf)
      (count_list ls Do_consumer) w1 = Return (None, w2)"
    using Run_ends assms(4) by blast
  then show ?thesis
    using assms(3) started(3)
    by (simp add: server_main_def server_init_consumer Let_def started(1) signalled_def)
qed

theorem signal_ends_program_witness:
  "\<forall>sched. \<exists>w'. server_main (sample_platform (Some 9)) default_build sched
     (Do_probe # Do_request ''/health'' # replicate 40 Do_consumer) calm_world = Exited 0 w'"
proof
  fix sched
  let ?ls = "Do_probe # Do_request ''/health'' # replicate 40 Do_consumer"
  obtain c where "Load (\<lambda>_. None) ascii_case sample_env = Inr c" using Load_Inr [OF sample_errs] by blast
  then have "starts (sample_platform (Some 9))"
    by (simp add: starts_def sample_platform_def New_store_def NewWithAPI_def Let_def)
  moreover have "pf_signal (sample_platform (Some 9)) = Some 9" by (simp add: sample_platform_def)
  moreover have "(1 + 3) * nat (9 - w_clock calm_world) < count_list ?ls Do_consumer"
    by (simp add: calm_world_def numeral_eq_Suc)
  ultimately have "if 9 \<le> w_clock (tick calm_world)
      then server_main (sample_platform (Some 9)) default_build sched ?ls calm_world = Killed
      else \<exists>w'. server_main (sample_platform (Some 9)) default_build sched ?ls calm_world = Exited 0 w'"
    by (intro signal_ends_program [OF _ calm_lively _ sample_at_most])
  moreover have "\<not> 9 \<le> w_clock (tick calm_world)" by (simp add: calm_world_def frame_simps)
  ultimately show "\<exists>w'. server_main (sample_platform (Some 9)) default_build sched ?ls calm_world =
      Exited 0 w'" by simp
qed

end
