(* ===== verification/Spec2Isabelle.thy ===== *)
theory Spec2Isabelle
  imports Config_Properties Store_Properties Rewriter_Properties Messenger_Properties
    Server_Properties
begin

text \<open>
  Verification development of stocker-informer.

  The program takes stock signals from a RabbitMQ queue, reads the summary that each one names from an
  S3 bucket, has it rewritten by an Ollama server if that is enabled, publishes the text on GoToSocial
  and settles the delivery. A second goroutine probes the broker until it has seen the exchange and the
  queue once, which makes the health endpoint answer 200; it goes on probing after that.

  \<^bold>\<open>Theories and code.\<close>
  \<^item> \<open>Prelude\<close>: lists, prefixes, 64-bit wrap-around (\<open>wrap64\<close>), the collections \<open>frame_simps\<close> (what an
    operation leaves alone) and \<open>trace_simps\<close> (what it adds to the trace).
  \<^item> \<open>Go_Strings\<close>, \<open>Go_Errors\<close>, \<open>Go_Url\<close>, \<open>Go_Json\<close>, \<open>Url_Facts\<close>: what the program uses of Go's standard
    library. Strings are lists of bytes. An error is its format with its operands and the error it
    wraps, so \<open>errors.Is\<close> and \<open>errors.As\<close> are functions; its rendered text is not modelled.
  \<^item> \<open>World\<close>: the state that surrounds the components. Each call of something outside and each look at a
    context takes a step; \<open>w_latency\<close> says how long step \<open>n\<close> takes and \<open>w_choice\<close> which case of a
    \<open>select\<close> runs when both are ready, and both are arbitrary. What is done to the outside, with the log,
    is the list of events \<open>w_trace\<close>. Contexts are the time of their cancellation and their deadline.
  \<^item> \<open>Config\<close>: \<open>internal/config/config.go\<close>, a function for each part of \<open>Load\<close>. \<open>Config_Facts\<close>,
    \<open>Config_Properties\<close>: a configuration that loads is valid, errors are aggregated and hide secrets,
    the redaction drops the user information, time-outs do or do not overflow.
  \<^item> \<open>Summary_Store\<close>: \<open>internal/summarystore/store.go\<close>. \<open>Store_Facts\<close>, \<open>Store_Properties\<close>: which
    identities have a key, that a key stays under the prefix, one read at most, what a miss is. (\<open>Load\<close>
    accepts a path prefix with two dots in a row, for which no identity has a key.)
  \<^item> \<open>Interfaces\<close>: the contracts between the consumer and its pipeline (\<open>SummaryReader\<close>, \<open>Rewriter\<close>,
    \<open>Publisher\<close>) as locales, interpreted by the store, the rewriter and the messenger.
  \<^item> \<open>Rewriter\<close>: \<open>internal/rewriter/ollama.go\<close>; \<open>Messenger\<close>: \<open>internal/messenger\<close>, whose retry delay, like
    those of the consumer and of the probe, interprets the locale of \<open>Backoff\<close>.
  \<^item> \<open>Machine\<close>: loops as bodies, with \<open>drive\<close> to iterate them, \<open>reaches\<close> for the states they reach, and
    the locales \<open>loop_invariant\<close> and \<open>terminating_loop\<close>.
  \<^item> \<open>Session\<close>: \<open>internal/rabbitmq/session.go\<close>. \<open>Consumer\<close>: \<open>internal/rabbitmq/consumer.go\<close>.
    \<open>Consumer_Facts\<close> has the contracts of the dialer and the timer, the abstract pipeline and its
    refinement; \<open>Consumer_Loops\<close>, \<open>Consumer_Run\<close> and \<open>Consumer_Stop\<close> prove, over any parts that keep
    their contracts (\<open>consumer_parts\<close>), that deliveries are settled once and in order, that
    connections are released, and that a done context ends the loops.
  \<^item> \<open>Probe\<close>: \<open>internal/rabbitmq/probe.go\<close>. The two threads of \<open>Check\<close> and its deadline are the step
    relation \<open>check_step\<close>, with invariants of every order by rule induction (\<open>Probe_Facts\<close>): what was done, who
    closes the connection, that the goroutine is never stuck on its channels. \<open>Check\<close> follows an
    arbitrary order of steps. \<open>Probe_Run_Facts\<close> has the loop of \<open>Run\<close>. The sequential \<open>checkTopology\<close> and
    the adapters \<open>dialProbeAMQP\<close> and \<open>probeConn_Channel\<close> are not used by \<open>Check\<close>; that the steps of the
    goroutine do what they do is the lemma \<open>goroutine_refines_checkTopology\<close>.
  \<^item> \<open>Server\<close>: \<open>cmd/server/main.go\<close>: wiring, the health endpoint, the consumer, the probe and the health
    server in any interleaving (\<open>server_reaches\<close>, \<open>server_run\<close>), and how the process ends
    (\<open>server_main\<close>): killed by a signal that comes before the program asks to be notified, or with an
    exit status. The process does not wait for the probe, so what is said of closed connections at its
    end is said of the consumer's; the interpretation of \<open>consumer_parts\<close> on the production
    consumer is here.
  \<^item> The theories called \<open>\<dots>_Properties\<close> hold the properties with their witnesses, \<open>Consumer_Properties\<close> and
    \<open>Run_Properties\<close> those of the consumer and its session, \<open>Server_Properties\<close> those of the whole.

  \<^bold>\<open>Bounds and fuel.\<close> Loops of the source that may run for ever (\<open>Run\<close> of the consumer and of the
  probe, \<open>consume\<close>, \<open>drainDeliveries\<close>) are driven for an arbitrary number of iterations, so an
  invariant holds at every moment; \<open>Block\<close> is an iteration that waits for something that never comes.
  That they end is proved with an explicit bound: when every step takes at least a nanosecond, the
  context is done at \<open>T\<close> and no connection delivers more than \<open>N\<close> messages, \<open>(N + 3) * (T - now)\<close>
  iterations are enough for the consumer and \<open>T - now\<close> for the probe. The publisher's loop has its own
  bound of three attempts and is structural. Durations are 64-bit where the code can overflow.

  \<^bold>\<open>Parameters.\<close> Outside the repository, and therefore arguments of the definitions: the AMQP client
  (\<open>amqp_lib\<close>: each call may fail depending on the step, the connection and the operation), the decoder of
  the protobuf message, the AWS SDK, HTTP servers (a function of the context, the step and the request),
  \<open>strconv.ParseFloat\<close>, Unicode case mapping beyond ASCII, the formatted date of a prompt, the environment,
  the process identifier, and the time of the signal.

  \<^bold>\<open>Not modelled.\<close> The seams that only tests use; nil checks of constructor arguments (loggers, dialers); the rendering of errors
  and log lines to text; \<open>http.Server\<close> beyond its handler; the bytes of a marshalled JSON request (it is kept
  as a JSON value). Steps that the goroutine of an attempt takes after \<open>Check\<close> has returned are part of
  \<open>check_step\<close>, but not of the trace of \<open>Check\<close>. A call of \<open>Close\<close> on a connection or a channel is taken
  to return; so the bound of an attempt is that of the code only for a broker that does not hold up the
  closing of a connection. The mutex of a session is represented by its operations being single functions.
\<close>

end
